theory Spec2Isabelle
  imports Main "HOL-Library.AList"
begin

section \<open>Data model of esphome/yaml\_util.py\<close>

text \<open>
  A shallow embedding of the YAML extension layer of ESPHome (\<^verbatim>\<open>esphome/yaml_util.py\<close>).
  The construction pass works on the node tree the YAML composer hands over, so nodes
  appear here as they do in PyYAML: a tag, a payload and a start mark.  Constructed
  Python values are a datatype; dictionaries are association lists in insertion order
  (\<^verbatim>\<open>OrderedDict\<close>, and the insertion-ordered \<^verbatim>\<open>dict\<close>), updated with
  \<^const>\<open>AList.update\<close>, which replaces a bound key in place and appends a new one.
  Origin annotations (\<^verbatim>\<open>make_data_base\<close>, \<^verbatim>\<open>from_node\<close>) do not take part in the
  equality, truth value or \<^verbatim>\<open>str()\<close> of a Python value and are left out of the values.
\<close>

datatype mark = Mark string nat nat

datatype node =
    ScalarNode string string mark
  | SequenceNode string "node list" mark
  | MappingNode string "(node \<times> node) list" mark

fun tag :: "node \<Rightarrow> string" where
  "tag (ScalarNode t v m) = t"
| "tag (SequenceNode t v m) = t"
| "tag (MappingNode t v m) = t"

fun start_mark :: "node \<Rightarrow> mark" where
  "start_mark (ScalarNode t v m) = m"
| "start_mark (SequenceNode t v m) = m"
| "start_mark (MappingNode t v m) = m"

fun set_tag :: "string \<Rightarrow> node \<Rightarrow> node" where
  "set_tag t' (ScalarNode t v m) = ScalarNode t' v m"
| "set_tag t' (SequenceNode t v m) = SequenceNode t' v m"
| "set_tag t' (MappingNode t v m) = MappingNode t' v m"

text \<open>
  Python floats: the three special values, and a finite float given as mantissa and binary
  exponent.  Only its sign, whether it is zero and its \<^verbatim>\<open>repr\<close> matter below.
\<close>

datatype pyfloat = FNan | FInf bool | FFin int int

text \<open>
  The values the loader produces and the dumper consumes.  \<open>VForList\<close> is the class
  \<^verbatim>\<open>ForList(list)\<close>, \<open>VForce\<close> a string carrying the \<^verbatim>\<open>ESPForceValue\<close> mixin,
  \<open>VLambda\<close> is \<^verbatim>\<open>core.Lambda\<close>, \<open>VId\<close> is \<^verbatim>\<open>core.ID\<close> (by its \<^verbatim>\<open>id\<close>) and
  \<open>VStringify\<close> stands for an \<^verbatim>\<open>IPAddress\<close>, \<^verbatim>\<open>MACAddress\<close>, \<^verbatim>\<open>TimePeriod\<close> or
  \<^verbatim>\<open>UUID\<close> object, given by its \<^verbatim>\<open>str()\<close>.
\<close>

datatype val =
    VNone
  | VBool bool
  | VInt int
  | VFloat pyfloat
  | VStr string
  | VForce string
  | VBytes string
  | VList "val list"
  | VForList "val list"
  | VTuple "val list"
  | VDict "(string \<times> val) list"
  | VLambda string
  | VId string
  | VStringify string

text \<open>
  Exceptions.  \<^verbatim>\<open>yaml.MarkedYAMLError(context, context_mark, problem, problem_mark)\<close> and
  its subclass \<^verbatim>\<open>ConstructorError\<close> keep their four positional fields; the others carry a
  message.  \<open>RecursionError\<close> is what an exhausted recursion budget raises.
\<close>

datatype exn =
    MarkedYAMLError "string option" "mark option" "string option" "mark option"
  | ConstructorError "string option" "mark option" "string option" "mark option"
  | EsphomeError exn
  | Invalid string "string list"
  | UndefinedError string
  | TemplateSyntaxError nat string
  | TemplateError string
  | KeyError string
  | TypeError string
  | IndexError string
  | AttributeError string
  | OSError string
  | ValueError string
  | AssertionError
  | RecursionError

fun is_YAMLError :: "exn \<Rightarrow> bool" where
  "is_YAMLError (MarkedYAMLError c cm p pm) = True"
| "is_YAMLError (ConstructorError c cm p pm) = True"
| "is_YAMLError e = False"


text \<open>
  Everything the module imports and calls but does not define: the Python runtime
  (\<^verbatim>\<open>repr\<close> of floats, bytes and containers, the name of a class, the process
  environment, the directory walk), PyYAML (the composer and the constructors of
  \<^verbatim>\<open>yaml.SafeLoader\<close> that the module reaches through \<^verbatim>\<open>super()\<close> or inherits), and the
  collaborators of the repository that are not among its source files
  (\<^verbatim>\<open>esphome.jinja\<close>, \<^verbatim>\<open>esphome.config_helpers\<close>, \<^verbatim>\<open>esphome.config_validation\<close>,
  \<^verbatim>\<open>esphome.git\<close>, \<^verbatim>\<open>esphome.util\<close>).  They are parameters of the model: every definition
  below takes the record \<open>L\<close> and every general theorem holds for all of them.

  Modelled from the spec: \<open>expand_str\<close> (\<^verbatim>\<open>esphome.jinja.expand_str\<close>) is typed as the
  spec's Expander, which "receives a string and an environment and returns either a string
  (possibly equal to the input) or a parse/evaluation error".
\<close>

record pylib =
  py_repr :: "val \<Rightarrow> string"
  type_repr :: "val \<Rightarrow> string"
  environ :: "string \<Rightarrow> string option"
  os_walk :: "(string \<Rightarrow> bool) \<Rightarrow> string \<Rightarrow> (string \<times> string list \<times> string list) list"
  compose :: "string \<Rightarrow> exn + node option"
  safe_construct :: "node \<Rightarrow> exn + val"
  read_config_file :: "string \<Rightarrow> exn + string"
  expand_str :: "string \<Rightarrow> (string \<times> val) list \<Rightarrow> exn + string"
  validate_vars :: "val \<Rightarrow> exn + val"
  INCLUDE_SCHEMA :: "val \<Rightarrow> exn + val"
  clone_or_update :: "val \<Rightarrow> exn + string"
  filter_yaml_files :: "string list \<Rightarrow> string list"
  b64encode :: "string \<Rightarrow> string"

section \<open>The Python operations the module relies on\<close>

definition digit_char :: "nat \<Rightarrow> char" where
  "digit_char d = char_of (48 + d)"

fun str_nat :: "nat \<Rightarrow> string" where
  "str_nat n = (if n < 10 then [digit_char n] else str_nat (n div 10) @ [digit_char (n mod 10)])"

declare str_nat.simps [simp del]

definition str_int :: "int \<Rightarrow> string" where
  "str_int i = (if i < 0 then CHR ''-'' # str_nat (nat (- i)) else str_nat (nat i))"

text \<open>\<^verbatim>\<open>str(value)\<close>.  The text of a finite float, of bytes and of a container is \<^verbatim>\<open>repr\<close>'s.\<close>

fun py_str :: "pylib \<Rightarrow> val \<Rightarrow> string" where
  "py_str L VNone = ''None''"
| "py_str L (VBool b) = (if b then ''True'' else ''False'')"
| "py_str L (VInt i) = str_int i"
| "py_str L (VFloat FNan) = ''nan''"
| "py_str L (VFloat (FInf pos)) = (if pos then ''inf'' else ''-inf'')"
| "py_str L (VStr s) = s"
| "py_str L (VForce s) = s"
| "py_str L (VLambda s) = s"
| "py_str L (VId s) = s"
| "py_str L (VStringify s) = s"
| "py_str L v = py_repr L v"

text \<open>The truth value of an object, as \<^verbatim>\<open>if x:\<close> and \<^verbatim>\<open>x or y\<close> take it.\<close>

fun truthy :: "val \<Rightarrow> bool" where
  "truthy VNone = False"
| "truthy (VBool b) = b"
| "truthy (VInt i) = (i \<noteq> 0)"
| "truthy (VFloat (FFin m e)) = (m \<noteq> 0)"
| "truthy (VFloat f) = True"
| "truthy (VStr s) = (s \<noteq> [])"
| "truthy (VForce s) = (s \<noteq> [])"
| "truthy (VBytes s) = (s \<noteq> [])"
| "truthy (VList xs) = (xs \<noteq> [])"
| "truthy (VForList xs) = (xs \<noteq> [])"
| "truthy (VTuple xs) = (xs \<noteq> [])"
| "truthy (VDict d) = (d \<noteq> [])"
| "truthy (VLambda s) = True"
| "truthy (VId s) = True"
| "truthy (VStringify s) = True"

text \<open>\<^verbatim>\<open>isinstance(x, str)\<close>, \<^verbatim>\<open>isinstance(x, list)\<close> and \<^verbatim>\<open>isinstance(x, dict)\<close>.\<close>

fun as_str :: "val \<Rightarrow> string option" where
  "as_str (VStr s) = Some s"
| "as_str (VForce s) = Some s"
| "as_str v = None"

fun as_list :: "val \<Rightarrow> val list option" where
  "as_list (VList xs) = Some xs"
| "as_list (VForList xs) = Some xs"
| "as_list v = None"

fun as_dict :: "val \<Rightarrow> (string \<times> val) list option" where
  "as_dict (VDict d) = Some d"
| "as_dict v = None"

text \<open>\<^verbatim>\<open>hash(x)\<close> succeeds: lists and dictionaries are unhashable, a tuple is as its items are.\<close>

fun hashable :: "val \<Rightarrow> bool" where
  "hashable (VList xs) = False"
| "hashable (VForList xs) = False"
| "hashable (VDict d) = False"
| "hashable (VTuple xs) = list_all hashable xs"
| "hashable v = True"

text \<open>\<^verbatim>\<open>x == s\<close> for a string \<open>s\<close>.\<close>

definition str_eq :: "val \<Rightarrow> string \<Rightarrow> bool" where
  "str_eq v s = (as_str v = Some s)"

definition CONF_ID :: string where "CONF_ID = ''id''"
definition CONF_SUBSTITUTIONS :: string where "CONF_SUBSTITUTIONS = ''substitutions''"
definition CONF_FILE :: string where "CONF_FILE = ''file''"
definition CONF_URL :: string where "CONF_URL = ''url''"
definition CONF_VARS :: string where "CONF_VARS = ''vars''"
definition SECRET_YAML :: string where "SECRET_YAML = ''secrets.yaml''"

text \<open>The tags of the YAML resolver.\<close>

definition TAG_INT :: string where "TAG_INT = ''tag:yaml.org,2002:int''"
definition TAG_OMAP :: string where "TAG_OMAP = ''tag:yaml.org,2002:omap''"
definition TAG_STR :: string where "TAG_STR = ''tag:yaml.org,2002:str''"
definition TAG_SEQ :: string where "TAG_SEQ = ''tag:yaml.org,2002:seq''"
definition TAG_MAP :: string where "TAG_MAP = ''tag:yaml.org,2002:map''"
definition TAG_MERGE :: string where "TAG_MERGE = ''tag:yaml.org,2002:merge''"
definition TAG_VALUE :: string where "TAG_VALUE = ''tag:yaml.org,2002:value''"
definition TAG_NULL :: string where "TAG_NULL = ''tag:yaml.org,2002:null''"
definition TAG_BOOL :: string where "TAG_BOOL = ''tag:yaml.org,2002:bool''"


section \<open>Sequences: flattening the output of \<^verbatim>\<open>!for\<close>\<close>

text \<open>
  \<^verbatim>\<open>flatten_for\<close> inside \<^verbatim>\<open>construct_sequence\<close>: a \<^verbatim>\<open>ForList\<close> item is replaced by its own
  flattening, \<^verbatim>\<open>None\<close> is dropped, anything else is kept.
\<close>

fun flatten_for :: "val list \<Rightarrow> val list" where
  "flatten_for [] = []"
| "flatten_for (VForList ys # items) = flatten_for ys @ flatten_for items"
| "flatten_for (VNone # items) = flatten_for items"
| "flatten_for (item # items) = item # flatten_for items"

section \<open>\<^verbatim>\<open>!merge\<close>: the deep merge\<close>

text \<open>
  The local function \<^verbatim>\<open>merge(old, new)\<close> of \<^verbatim>\<open>construct_merge\<close>.  Its \<^verbatim>\<open>index\<close> is an
  \<^verbatim>\<open>OrderedDict\<close> whose keys are the strings \<^verbatim>\<open>str(item[CONF_ID])\<close> and the integers
  \<^verbatim>\<open>pos\<close>.
\<close>

datatype ikey = KStr string | KInt nat

text \<open>\<^verbatim>\<open>isinstance(item, dict) and CONF_ID in item\<close>, giving \<^verbatim>\<open>str(item[CONF_ID])\<close>.\<close>

definition item_id :: "pylib \<Rightarrow> val \<Rightarrow> string option" where
  "item_id L item =
     (case as_dict item of
        None \<Rightarrow> None
      | Some d \<Rightarrow> (case map_of d CONF_ID of None \<Rightarrow> None | Some i \<Rightarrow> Some (py_str L i)))"

text \<open>The first loop: \<^verbatim>\<open>for item in new\<close>, filling \<^verbatim>\<open>index\<close> and counting \<^verbatim>\<open>pos\<close>.\<close>

fun build_index :: "pylib \<Rightarrow> val list \<Rightarrow> nat \<Rightarrow> (ikey \<times> val) list \<Rightarrow> (ikey \<times> val) list" where
  "build_index L [] pos index = index"
| "build_index L (item # new) pos index =
     (case item_id L item of
        Some i \<Rightarrow> build_index L new pos (AList.update (KStr i) item index)
      | None \<Rightarrow> build_index L new (Suc pos) (AList.update (KInt pos) item index))"

text \<open>
  The second loop: \<^verbatim>\<open>for item in old\<close>, with the recursive call \<open>mrg\<close> and the deletion
  from \<^verbatim>\<open>index\<close>.  It returns \<^verbatim>\<open>merged_old\<close> and what is left of \<^verbatim>\<open>index\<close>.
\<close>

fun merge_old :: "(val \<Rightarrow> val \<Rightarrow> val) \<Rightarrow> pylib \<Rightarrow> val list \<Rightarrow> (ikey \<times> val) list \<Rightarrow> val list
    \<Rightarrow> val list \<times> (ikey \<times> val) list" where
  "merge_old mrg L [] index merged_old = (merged_old, index)"
| "merge_old mrg L (item # old) index merged_old =
     (case item_id L item of
        None \<Rightarrow> merge_old mrg L old index (merged_old @ [item])
      | Some i \<Rightarrow>
          (case map_of index (KStr i) of
             None \<Rightarrow> merge_old mrg L old index (merged_old @ [item])
           | Some new_item \<Rightarrow>
               merge_old mrg L old (AList.delete (KStr i) index) (merged_old @ [mrg item new_item])))"

lemma merge_old_cong [fundef_cong]:
  assumes "old = old'" and "index = index'" and "acc = acc'" and "L = L'"
    and "\<And>item new_item. item \<in> set old' \<Longrightarrow> new_item \<in> snd ` set index' \<Longrightarrow>
           f item new_item = g item new_item"
  shows "merge_old f L old index acc = merge_old g L' old' index' acc'"
  using assms(5) unfolding assms(1-4)
proof (induction old' arbitrary: index' acc')
  case Nil
  show ?case by simp
next
  case (Cons item old')
  have sub: "snd ` set (AList.delete k index') \<subseteq> snd ` set index'" for k
    by (auto simp: AList.delete_eq)
  show ?case
  proof (cases "item_id L' item")
    case None
    then show ?thesis using Cons by simp
  next
    case (Some i)
    show ?thesis
    proof (cases "map_of index' (KStr i)")
      case None
      then show ?thesis using Some Cons by simp
    next
      case (Some new_item)
      have mem: "new_item \<in> snd ` set index'"
        using Some by (metis image_eqI map_of_SomeD snd_conv)
      have eq: "f item new_item = g item new_item"
        using Cons.prems mem by simp
      have "merge_old f L' old' (AList.delete (KStr i) index') (acc' @ [g item new_item])
          = merge_old g L' old' (AList.delete (KStr i) index') (acc' @ [g item new_item])"
        using Cons.IH Cons.prems sub by (meson list.set_intros(2) subsetD)
      then show ?thesis using \<open>item_id L' item = Some i\<close> Some eq by simp
    qed
  qed
qed

lemma build_index_values:
  "snd ` set (build_index L new pos index) \<subseteq> set new \<union> snd ` set index"
proof (induction new arbitrary: pos index)
  case Nil
  show ?case by simp
next
  case (Cons item new)
  have upd: "snd ` set (AList.update k item index) \<subseteq> insert item (snd ` set index)" for k
    by (induction index) auto
  show ?case
  proof (cases "item_id L item")
    case None
    then show ?thesis using Cons[of "Suc pos" "AList.update (KInt pos) item index"] upd[of "KInt pos"]
      by auto
  next
    case (Some i)
    then show ?thesis using Cons[of pos "AList.update (KStr i) item index"] upd[of "KStr i"]
      by auto
  qed
qed

lemma size_list_member: "x \<in> set xs \<Longrightarrow> f x < Suc (size_list f xs)"
  by (induction xs) auto

function merge :: "pylib \<Rightarrow> val \<Rightarrow> val \<Rightarrow> val" where
  "merge L old (VDict new) =
     (case as_dict old of
        None \<Rightarrow> VDict new
      | Some od \<Rightarrow>
          VDict (fold (\<lambda>kv res. AList.update (fst kv)
                         (case map_of od (fst kv) of
                            Some ov \<Rightarrow> merge L ov (snd kv)
                          | None \<Rightarrow> snd kv) res) new od))"
| "merge L old (VList new) =
     (case as_list old of
        None \<Rightarrow> VList new
      | Some ol \<Rightarrow>
          (case merge_old (merge L) L ol (build_index L new 0 []) [] of
             (merged_old, index) \<Rightarrow> VList (merged_old @ map snd index)))"
| "merge L old (VForList new) =
     (case as_list old of
        None \<Rightarrow> VForList new
      | Some ol \<Rightarrow>
          (case merge_old (merge L) L ol (build_index L new 0 []) [] of
             (merged_old, index) \<Rightarrow> VList (merged_old @ map snd index)))"
| "merge L old VNone = old"
| "merge L old (VBool b) = VBool b"
| "merge L old (VInt i) = VInt i"
| "merge L old (VFloat f) = VFloat f"
| "merge L old (VStr s) = VStr s"
| "merge L old (VForce s) = VForce s"
| "merge L old (VBytes s) = VBytes s"
| "merge L old (VTuple xs) = VTuple xs"
| "merge L old (VLambda s) = VLambda s"
| "merge L old (VId s) = VId s"
| "merge L old (VStringify s) = VStringify s"
  by pat_completeness auto
termination
proof (relation "measure (\<lambda>(L, old, new). size new)", goal_cases)
  case 1
  show ?case by simp
next
  case (2 L old new od kv ov)
  then have "size (snd kv) < Suc (size_list (size_prod (\<lambda>_. 0) size) new)"
    using size_list_member[of kv new "size_prod (\<lambda>_. 0) size"] by (cases kv) auto
  then show ?case by simp
next
  case (3 L old new ol item new_item)
  then have "new_item \<in> set new" using build_index_values[of L new 0 "[]"] by auto
  then show ?case using size_list_member[of new_item new size] by simp
next
  case (4 L old new ol item new_item)
  then have "new_item \<in> set new" using build_index_values[of L new 0 "[]"] by auto
  then show ?case using size_list_member[of new_item new size] by simp
qed

text \<open>The loop of \<^verbatim>\<open>construct_merge\<close> over the constructed list: \<^verbatim>\<open>value = merge(value, obj)\<close>.\<close>

definition merge_all :: "pylib \<Rightarrow> val list \<Rightarrow> val" where
  "merge_all L mergelist = foldl (merge L) VNone mergelist"

section \<open>The dumper\<close>
















text \<open>Running a representer over the items of a collection, stopping at the first exception.\<close>

fun each :: "('a \<Rightarrow> exn + 'b) \<Rightarrow> 'a list \<Rightarrow> exn + 'b list" where
  "each f [] = Inr []"
| "each f (x # xs) =
     (case f x of
        Inl e \<Rightarrow> Inl e
      | Inr y \<Rightarrow> (case each f xs of Inl e \<Rightarrow> Inl e | Inr ys \<Rightarrow> Inr (y # ys)))"

lemma each_cong [fundef_cong]:
  "xs = ys \<Longrightarrow> (\<And>x. x \<in> set ys \<Longrightarrow> f x = g x) \<Longrightarrow> each f xs = each g ys"
  by (induction ys arbitrary: xs) (auto split: sum.splits)



section \<open>The loader's state and the construction monad\<close>

text \<open>
  The state the construction pass works on: the fields of the active \<^verbatim>\<open>ESPHomeLoader\<close>
  (\<^verbatim>\<open>vars\<close>, \<^verbatim>\<open>disable_str_expansion\<close>, \<^verbatim>\<open>name\<close>), the module globals \<^verbatim>\<open>_SECRET_VALUES\<close>
  and \<^verbatim>\<open>_SECRET_CACHE\<close>, and \<open>reads\<close>, the paths handed to the file reader so far (the
  trace of the calls of \<^verbatim>\<open>read_config_file\<close>).  A Python exception does not roll the state
  back, so a computation returns its outcome, a value or an exception, together with the
  state it leaves.
\<close>

record state =
  vars :: "(string \<times> val) list"
  disable_str_expansion :: bool
  name :: string
  SECRET_VALUES :: "(string \<times> string) list"
  SECRET_CACHE :: "(string \<times> val) list"
  reads :: "string list"

type_synonym 'a M = "state \<Rightarrow> (exn + 'a) \<times> state"

definition returnM :: "'a \<Rightarrow> 'a M" where
  "returnM x = (\<lambda>s. (Inr x, s))"

definition raiseM :: "exn \<Rightarrow> 'a M" where
  "raiseM e = (\<lambda>s. (Inl e, s))"

definition bindM :: "'a M \<Rightarrow> ('a \<Rightarrow> 'b M) \<Rightarrow> 'b M" where
  "bindM m f = (\<lambda>s. case m s of (Inl e, s') \<Rightarrow> (Inl e, s') | (Inr x, s') \<Rightarrow> f x s')"

definition liftM :: "exn + 'a \<Rightarrow> 'a M" where
  "liftM r = (\<lambda>s. (r, s))"

definition getM :: "(state \<Rightarrow> 'a) \<Rightarrow> 'a M" where
  "getM field = (\<lambda>s. (Inr (field s), s))"

definition set_vars :: "(string \<times> val) list \<Rightarrow> unit M" where
  "set_vars vs = (\<lambda>s. (Inr (), s\<lparr>vars := vs\<rparr>))"

definition set_disable_str_expansion :: "bool \<Rightarrow> unit M" where
  "set_disable_str_expansion b = (\<lambda>s. (Inr (), s\<lparr>disable_str_expansion := b\<rparr>))"

definition set_SECRET_VALUES :: "(string \<times> string) list \<Rightarrow> unit M" where
  "set_SECRET_VALUES sv = (\<lambda>s. (Inr (), s\<lparr>SECRET_VALUES := sv\<rparr>))"

text \<open>A list comprehension or \<^verbatim>\<open>for\<close> loop that builds a list, and one that threads a value.\<close>

fun mapM :: "('a \<Rightarrow> 'b M) \<Rightarrow> 'a list \<Rightarrow> 'b list M" where
  "mapM f [] = returnM []"
| "mapM f (x # xs) = bindM (f x) (\<lambda>y. bindM (mapM f xs) (\<lambda>ys. returnM (y # ys)))"

fun foldM :: "('b \<Rightarrow> 'a \<Rightarrow> 'b M) \<Rightarrow> 'b \<Rightarrow> 'a list \<Rightarrow> 'b M" where
  "foldM f acc [] = returnM acc"
| "foldM f acc (x # xs) = bindM (f acc x) (\<lambda>acc'. foldM f acc' xs)"

section \<open>Paths, splitting and containment\<close>

text \<open>\<^verbatim>\<open>os.path.dirname\<close>, \<^verbatim>\<open>os.path.join\<close>, \<^verbatim>\<open>os.path.basename\<close> and \<^verbatim>\<open>os.path.splitext\<close> on POSIX.\<close>

definition dirname :: "string \<Rightarrow> string" where
  "dirname p =
     (let head = rev (dropWhile (\<lambda>c. c \<noteq> CHR ''/'') (rev p))
      in if head \<noteq> [] \<and> \<not> list_all (\<lambda>c. c = CHR ''/'') head
         then rev (dropWhile (\<lambda>c. c = CHR ''/'') (rev head)) else head)"

definition path_join :: "string \<Rightarrow> string \<Rightarrow> string" where
  "path_join a b =
     (if take 1 b = ''/'' then b
      else if a = [] \<or> take 1 (rev a) = ''/'' then a @ b
      else a @ ''/'' @ b)"

definition basename :: "string \<Rightarrow> string" where
  "basename p = rev (takeWhile (\<lambda>c. c \<noteq> CHR ''/'') (rev p))"

definition splitext_root :: "string \<Rightarrow> string" where
  "splitext_root b =
     (if CHR ''.'' \<notin> set b then b
      else (let stem = take (length b - length (takeWhile (\<lambda>c. c \<noteq> CHR ''.'') (rev b)) - 1) b
            in if list_all (\<lambda>c. c = CHR ''.'') stem then b else stem))"

text \<open>\<^verbatim>\<open>self._rel_path(*args)\<close> with one argument.\<close>

definition rel_path :: "state \<Rightarrow> string \<Rightarrow> string" where
  "rel_path s arg = path_join (dirname (name s)) arg"

text \<open>\<^verbatim>\<open>str.split()\<close>: the maximal runs of characters that are not white space.\<close>

definition is_space :: "char \<Rightarrow> bool" where
  "is_space c = (c \<in> set [CHR '' '', CHR 0x09, CHR 0x0A, CHR 0x0B, CHR 0x0C, CHR 0x0D])"

fun split_ws :: "string \<Rightarrow> string \<Rightarrow> string list" where
  "split_ws [] word = (if word = [] then [] else [word])"
| "split_ws (c # cs) word =
     (if is_space c then (if word = [] then split_ws cs [] else word # split_ws cs [])
      else split_ws cs (word @ [c]))"

definition py_split :: "string \<Rightarrow> string list" where
  "py_split s = split_ws s []"

fun join_space :: "string list \<Rightarrow> string" where
  "join_space [] = []"
| "join_space [w] = w"
| "join_space (w # ws) = w @ '' '' @ join_space ws"

text \<open>
  \<^verbatim>\<open>key in obj\<close> and \<^verbatim>\<open>obj[key]\<close> for a string \<open>key\<close>: membership in the keys of a
  dictionary, in the items of a list or tuple, as a substring of a string; any other object
  raises \<^verbatim>\<open>TypeError\<close>.  Indexing by a string succeeds on a dictionary only.
\<close>

fun py_substr :: "string \<Rightarrow> string \<Rightarrow> bool" where
  "py_substr s [] = (s = [])"
| "py_substr s (c # cs) = (take (length s) (c # cs) = s \<or> py_substr s cs)"

fun py_contains :: "val \<Rightarrow> string \<Rightarrow> exn + bool" where
  "py_contains (VDict d) k = Inr (k \<in> fst ` set d)"
| "py_contains (VList xs) k = Inr (list_ex (\<lambda>x. str_eq x k) xs)"
| "py_contains (VForList xs) k = Inr (list_ex (\<lambda>x. str_eq x k) xs)"
| "py_contains (VTuple xs) k = Inr (list_ex (\<lambda>x. str_eq x k) xs)"
| "py_contains (VStr t) k = Inr (py_substr k t)"
| "py_contains (VForce t) k = Inr (py_substr k t)"
| "py_contains v k = Inl (TypeError ''argument is not iterable'')"

fun py_getitem :: "val \<Rightarrow> string \<Rightarrow> exn + val" where
  "py_getitem (VDict d) k = (case map_of d k of Some v \<Rightarrow> Inr v | None \<Rightarrow> Inl (KeyError k))"
| "py_getitem v k = Inl (TypeError ''indices must be integers'')"

text \<open>The text of an exception, as \<^verbatim>\<open>str(err)\<close> and \<^verbatim>\<open>err.message\<close> give it.\<close>

fun exn_message :: "exn \<Rightarrow> string" where
  "exn_message (UndefinedError msg) = msg"
| "exn_message (TemplateSyntaxError lineno msg) = msg"
| "exn_message (TemplateError msg) = msg"
| "exn_message (KeyError msg) = msg"
| "exn_message (TypeError msg) = msg"
| "exn_message (ValueError msg) = msg"
| "exn_message (IndexError msg) = msg"
| "exn_message (AttributeError msg) = msg"
| "exn_message (OSError msg) = msg"
| "exn_message (Invalid msg path) = msg"
| "exn_message e = []"

section \<open>The constructors of \<^verbatim>\<open>ESPHomeLoader\<close>\<close>

text \<open>
  Each constructor is written against \<open>rec\<close>, the loader's own \<^verbatim>\<open>self.construct_object\<close>,
  and \<open>load\<close>, the module's \<^verbatim>\<open>_load_yaml_internal(fname, vars)\<close>; the two are tied together
  in \<open>construct_object\<close> below.  Nodes are trees: an alias occurs as a copy of its anchor, and
  PyYAML's table of already constructed nodes is left out.  The decorator
  \<^verbatim>\<open>_add_data_ref\<close> only attaches the origin of a value and is the identity here.

  PyYAML's \<^verbatim>\<open>construct_scalar\<close>: the text of a scalar node, or of the \<^verbatim>\<open>=\<close> entry of a
  mapping node.
\<close>

fun value_entry :: "(node \<times> node) list \<Rightarrow> node option" where
  "value_entry [] = None"
| "value_entry (kv # kvs) = (if tag (fst kv) = TAG_VALUE then Some (snd kv) else value_entry kvs)"

lemma value_entry_size: "value_entry kvs = Some v \<Longrightarrow> size v < Suc (size_list (size_prod size size) kvs)"
  by (induction kvs) (auto split: if_splits)

function construct_scalar :: "node \<Rightarrow> exn + string" where
  "construct_scalar (ScalarNode t v m) = Inr v"
| "construct_scalar (SequenceNode t v m) =
     Inl (ConstructorError None None (Some ''expected a scalar node, but found sequence'') (Some m))"
| "construct_scalar (MappingNode t kvs m) =
     (case value_entry kvs of
        Some v \<Rightarrow> construct_scalar v
      | None \<Rightarrow>
          Inl (ConstructorError None None (Some ''expected a scalar node, but found mapping'') (Some m)))"
  by pat_completeness auto
termination
  by (relation "measure size") (auto dest: value_entry_size)

text \<open>The four \<^verbatim>\<open>except\<close> clauses of \<^verbatim>\<open>construct_yaml_str\<close>.\<close>

fun jinja_error :: "exn \<Rightarrow> mark \<Rightarrow> exn" where
  "jinja_error (UndefinedError msg) m =
     MarkedYAMLError (Some (''Variable is undefined: '' @ msg)) (Some m) None None"
| "jinja_error (TemplateSyntaxError lineno msg) m =
     MarkedYAMLError (Some (''Error in line '' @ str_nat lineno @ '' of jinja expression: '' @ msg))
       (Some m) None None"
| "jinja_error (TemplateError msg) m =
     MarkedYAMLError (Some (''Error in jinja expression: '' @ msg)) (Some m) None None"
| "jinja_error e m =
     MarkedYAMLError (Some (''Error in jinja expression: '' @ exn_message e)) (Some m) None None"

definition construct_yaml_str :: "pylib \<Rightarrow> node \<Rightarrow> val M" where
  "construct_yaml_str L node =
     bindM (liftM (construct_scalar node)) (\<lambda>st.
     bindM (getM disable_str_expansion) (\<lambda>disabled.
       if disabled then returnM (VStr st)
       else bindM (getM vars) (\<lambda>vs.
              case expand_str L st vs of
                Inl err \<Rightarrow> raiseM (jinja_error err (start_mark node))
              | Inr result \<Rightarrow> returnM (VStr result))))"

text \<open>
  \<^verbatim>\<open>construct_sequence\<close>: PyYAML constructs every child, then \<^verbatim>\<open>flatten_for\<close> runs over
  the list.  \<^verbatim>\<open>construct_yaml_seq\<close> extends an empty list by the result.
\<close>

definition construct_sequence :: "(node \<Rightarrow> val M) \<Rightarrow> node \<Rightarrow> val list M" where
  "construct_sequence rec node =
     (case node of
        SequenceNode t children m \<Rightarrow>
          bindM (mapM rec children) (\<lambda>items. returnM (flatten_for items))
      | ScalarNode t v m \<Rightarrow>
          raiseM (ConstructorError None None (Some ''expected a sequence node, but found scalar'') (Some m))
      | MappingNode t v m \<Rightarrow>
          raiseM (ConstructorError None None (Some ''expected a sequence node, but found mapping'') (Some m)))"

definition construct_yaml_seq :: "(node \<Rightarrow> val M) \<Rightarrow> node \<Rightarrow> val M" where
  "construct_yaml_seq rec node = bindM (construct_sequence rec node) (\<lambda>data. returnM (VList data))"

text \<open>
  \<^verbatim>\<open>construct_yaml_map\<close>.  \<open>map_entry\<close> is the body of its first loop for one
  \<^verbatim>\<open>(key_node, value_node)\<close>; the loop state is \<^verbatim>\<open>pairs\<close>, \<^verbatim>\<open>merge_pairs\<close> and
  \<^verbatim>\<open>seen_keys\<close>, whose values are the start mark of the declaration, or \<^verbatim>\<open>None\<close>.
\<close>

type_synonym map_acc = "(string \<times> val) list \<times> (string \<times> val) list \<times> (string \<times> mark option) list"

definition extend_merge_pairs :: "pylib \<Rightarrow> node \<Rightarrow> node \<Rightarrow> (string \<times> val) list \<Rightarrow> val \<Rightarrow> (string \<times> val) list M" where
  "extend_merge_pairs L node value_node merge_pairs item =
     (case as_dict item of
        Some d \<Rightarrow> returnM (merge_pairs @ d)
      | None \<Rightarrow>
          raiseM (ConstructorError (Some ''While constructing a mapping'') (Some (start_mark node))
            (Some (''Expected a mapping for merging, but found '' @ type_repr L item))
            (Some (start_mark value_node))))"

definition map_entry :: "pylib \<Rightarrow> (node \<Rightarrow> val M) \<Rightarrow> node \<Rightarrow> map_acc \<Rightarrow> node \<times> node \<Rightarrow> map_acc M" where
  "map_entry L rec node acc kv =
     (case acc of (pairs, merge_pairs, seen_keys) \<Rightarrow>
     (case kv of (key_node0, value_node) \<Rightarrow>
       (let is_merge_key = (tag key_node0 = TAG_MERGE);
            is_default_tag = (tag key_node0 = TAG_VALUE);
            key_node = (if is_default_tag then set_tag TAG_STR key_node0 else key_node0)
        in if \<not> is_merge_key then
             bindM (getM disable_str_expansion) (\<lambda>old_disable.
             bindM (set_disable_str_expansion True) (\<lambda>_.
             bindM (rec key_node) (\<lambda>key.
             bindM (set_disable_str_expansion old_disable) (\<lambda>_.
             bindM (rec value_node) (\<lambda>v.
               if \<not> hashable key then
                 raiseM (ConstructorError (Some (''Invalid key \"'' @ py_str L key @ ''\" (not hashable)''))
                   (Some (start_mark key_node)) None None)
               else
                 (case map_of seen_keys (py_str L key) of
                    Some previous \<Rightarrow>
                      raiseM (ConstructorError (Some (''Duplicate key \"'' @ py_str L key @ ''\"''))
                        (Some (start_mark key_node)) (Some ''NOTE: Previous declaration here:'') previous)
                  | None \<Rightarrow>
                      returnM (pairs @ [(py_str L key, v)], merge_pairs,
                        AList.update (py_str L key) (Some (start_mark key_node)) seen_keys)))))))
           else
             bindM (rec value_node) (\<lambda>v.
               case as_dict v of
                 Some d \<Rightarrow> returnM (pairs, merge_pairs @ d, seen_keys)
               | None \<Rightarrow>
                   (case as_list v of
                      Some items \<Rightarrow>
                        bindM (foldM (extend_merge_pairs L node value_node) merge_pairs items)
                          (\<lambda>merge_pairs'. returnM (pairs, merge_pairs', seen_keys))
                    | None \<Rightarrow>
                        raiseM (ConstructorError (Some ''While constructing a mapping'')
                          (Some (start_mark node))
                          (Some (''Expected a mapping or list of mappings for merging, but found ''
                                 @ type_repr L v))
                          (Some (start_mark value_node))))))))"

text \<open>The second loop, \<^verbatim>\<open>for key, value in merge_pairs\<close>, and \<^verbatim>\<open>OrderedDict(pairs)\<close>.\<close>

fun adopt_merge_pairs :: "(string \<times> val) list \<Rightarrow> (string \<times> val) list \<Rightarrow> (string \<times> mark option) list
    \<Rightarrow> (string \<times> val) list" where
  "adopt_merge_pairs [] pairs seen_keys = pairs"
| "adopt_merge_pairs (kv # merge_pairs) pairs seen_keys =
     (if fst kv \<in> fst ` set seen_keys then adopt_merge_pairs merge_pairs pairs seen_keys
      else adopt_merge_pairs merge_pairs (pairs @ [kv]) (AList.update (fst kv) None seen_keys))"

definition OrderedDict :: "(string \<times> val) list \<Rightarrow> (string \<times> val) list" where
  "OrderedDict pairs = foldl (\<lambda>d kv. AList.update (fst kv) (snd kv) d) [] pairs"

definition construct_yaml_map :: "pylib \<Rightarrow> (node \<Rightarrow> val M) \<Rightarrow> node \<Rightarrow> val M" where
  "construct_yaml_map L rec node =
     (case node of
        MappingNode t kvs m \<Rightarrow>
          bindM (foldM (map_entry L rec node) ([], [], []) kvs) (\<lambda>acc.
            case acc of (pairs, merge_pairs, seen_keys) \<Rightarrow>
              returnM (VDict (OrderedDict (adopt_merge_pairs merge_pairs pairs seen_keys))))
      | ScalarNode t v m \<Rightarrow> raiseM AssertionError
      | SequenceNode t v m \<Rightarrow> raiseM AssertionError)"

text \<open>\<^verbatim>\<open>construct_env_var\<close>.\<close>

definition construct_env_var :: "pylib \<Rightarrow> node \<Rightarrow> val M" where
  "construct_env_var L node =
     (case node of
        ScalarNode t v m \<Rightarrow>
          (case py_split v of
             [] \<Rightarrow> raiseM (IndexError ''list index out of range'')
           | [a] \<Rightarrow>
               (case environ L a of
                  Some x \<Rightarrow> returnM (VStr x)
                | None \<Rightarrow>
                    raiseM (MarkedYAMLError (Some (''Environment variable '' @ [CHR 0x27] @ v @ [CHR 0x27] @ '' not defined''))
                      (Some m) None None))
           | a # b # rest \<Rightarrow>
               returnM (VStr (case environ L a of Some x \<Rightarrow> x | None \<Rightarrow> join_space (b # rest))))
      | SequenceNode t v m \<Rightarrow> raiseM (AttributeError ''split'')
      | MappingNode t v m \<Rightarrow> raiseM (AttributeError ''split''))"

text \<open>
  \<^verbatim>\<open>construct_secret\<close>: load \<^verbatim>\<open>secrets.yaml\<close> beside the current document with a copy of
  the variables, look the name up, record \<^verbatim>\<open>_SECRET_VALUES[str(val)] = node.value\<close>.  On
  a collection node \<^verbatim>\<open>node.value\<close> is a list, which the lookup refuses.
\<close>

definition construct_secret :: "pylib \<Rightarrow> (string \<Rightarrow> (string \<times> val) list \<Rightarrow> val M) \<Rightarrow> node \<Rightarrow> val M" where
  "construct_secret L load node =
     bindM (getM (\<lambda>s. rel_path s SECRET_YAML)) (\<lambda>path.
     bindM (getM vars) (\<lambda>vs.
     bindM (load path vs) (\<lambda>secrets.
       case node of
         ScalarNode t v m \<Rightarrow>
           bindM (liftM (py_contains secrets v)) (\<lambda>found.
             if \<not> found then
               raiseM (MarkedYAMLError (Some (''Secret '' @ [CHR 0x27] @ v @ [CHR 0x27] @ '' not defined''))
                 (Some m) None None)
             else
               bindM (liftM (py_getitem secrets v)) (\<lambda>val.
               bindM (getM SECRET_VALUES) (\<lambda>sv.
               bindM (set_SECRET_VALUES (AList.update (py_str L val) v sv)) (\<lambda>_.
               returnM val))))
       | SequenceNode t v m \<Rightarrow> raiseM (TypeError ''unhashable type'')
       | MappingNode t v m \<Rightarrow> raiseM (TypeError ''unhashable type''))))"

text \<open>
  \<^verbatim>\<open>{**a, **b}\<close> and \<^verbatim>\<open>a.update(b)\<close>; \<^verbatim>\<open>d.get(key)\<close>, which is \<^verbatim>\<open>None\<close> for a missing
  key and for a key bound to \<^verbatim>\<open>None\<close>; \<^verbatim>\<open>del d[key]\<close>.
\<close>

definition dict_update :: "(string \<times> val) list \<Rightarrow> (string \<times> val) list \<Rightarrow> (string \<times> val) list" where
  "dict_update d other = foldl (\<lambda>acc kv. AList.update (fst kv) (snd kv) acc) d other"

definition dict_get :: "(string \<times> val) list \<Rightarrow> string \<Rightarrow> val option" where
  "dict_get d k = (case map_of d k of Some VNone \<Rightarrow> None | r \<Rightarrow> r)"

fun py_delitem :: "val \<Rightarrow> string \<Rightarrow> exn + val" where
  "py_delitem (VDict d) k =
     (if k \<in> fst ` set d then Inr (VDict (AList.delete k d)) else Inl (KeyError k))"
| "py_delitem v k = Inl (TypeError ''object does not support item deletion'')"

text \<open>
  \<^verbatim>\<open>construct_include\<close>.  The schema check, the git fetch and the check of the variables
  are the library's; a path is joined as \<^verbatim>\<open>os.path.join\<close> and \<^verbatim>\<open>repo_dir / file\<close> do.
\<close>

definition join_file :: "string \<Rightarrow> val \<Rightarrow> string M" where
  "join_file dir file =
     (case as_str file of
        Some f \<Rightarrow> returnM (path_join dir f)
      | None \<Rightarrow> raiseM (TypeError ''expected str, bytes or os.PathLike object''))"

definition extract_file_vars :: "pylib \<Rightarrow> (node \<Rightarrow> val M) \<Rightarrow> node \<Rightarrow> (string \<times> val) M" where
  "extract_file_vars L rec node =
     bindM (construct_yaml_map L rec node) (\<lambda>conf.
     bindM (liftM (INCLUDE_SCHEMA L conf)) (\<lambda>fields.
       case as_dict fields of
         None \<Rightarrow> raiseM (AttributeError ''get'')
       | Some fd \<Rightarrow>
           (case dict_get fd CONF_FILE of
              None \<Rightarrow>
                raiseM (MarkedYAMLError (Some (''Must include '' @ [CHR 0x27] @ ''file'' @ [CHR 0x27]))
                  (Some (start_mark node)) None None)
            | Some file \<Rightarrow>
                bindM (case dict_get fd CONF_URL of
                         Some url \<Rightarrow>
                           bindM (liftM (clone_or_update L fields)) (\<lambda>repo_dir. join_file repo_dir file)
                       | None \<Rightarrow>
                           bindM (getM (\<lambda>s. dirname (name s))) (\<lambda>dir. join_file dir file)) (\<lambda>path.
                bindM (liftM (validate_vars L
                         (case dict_get fd CONF_VARS of
                            Some v \<Rightarrow> if truthy v then v else VDict []
                          | None \<Rightarrow> VDict []))) (\<lambda>vs.
                returnM (path, vs))))))"

definition construct_include :: "pylib \<Rightarrow> (node \<Rightarrow> val M) \<Rightarrow> (string \<Rightarrow> (string \<times> val) list \<Rightarrow> val M) \<Rightarrow> node \<Rightarrow> val M" where
  "construct_include L rec load node =
     bindM (case node of
              MappingNode t kvs m \<Rightarrow> extract_file_vars L rec node
            | ScalarNode t v m \<Rightarrow>
                bindM (getM (\<lambda>s. rel_path s v)) (\<lambda>path. returnM (path, VDict []))
            | SequenceNode t v m \<Rightarrow>
                raiseM (TypeError ''expected str, bytes or os.PathLike object'')) (\<lambda>pv.
     case as_dict (snd pv) of
       None \<Rightarrow> raiseM (TypeError ''object is not a mapping'')
     | Some child \<Rightarrow> bindM (getM vars) (\<lambda>vs. load (fst pv) (dict_update vs child)))"

text \<open>
  \<^verbatim>\<open>construct_literal\<close>: the tag is reset to the default of the node's kind, and the node is
  constructed with string expansion disabled.  The old flag is written back after the call
  returns; when it raises, the assignment is not reached.
\<close>

fun default_tag :: "node \<Rightarrow> string" where
  "default_tag (ScalarNode t v m) = TAG_STR"
| "default_tag (SequenceNode t v m) = TAG_SEQ"
| "default_tag (MappingNode t v m) = TAG_MAP"

definition construct_literal :: "(node \<Rightarrow> val M) \<Rightarrow> node \<Rightarrow> val M" where
  "construct_literal rec node =
     bindM (getM disable_str_expansion) (\<lambda>old_disable.
     bindM (set_disable_str_expansion True) (\<lambda>_.
     bindM (rec (set_tag (default_tag node) node)) (\<lambda>result.
     bindM (set_disable_str_expansion old_disable) (\<lambda>_.
     returnM result))))"

text \<open>
  \<^verbatim>\<open>for key_node, value_node in node.value\<close> on the node of a directive: the pairs of a
  mapping node; nothing for an empty sequence or an empty scalar; an exception when an item
  of a sequence or a character of a scalar is unpacked.
\<close>

fun node_pairs :: "node \<Rightarrow> exn + (node \<times> node) list" where
  "node_pairs (MappingNode t kvs m) = Inr kvs"
| "node_pairs (SequenceNode t children m) =
     (if children = [] then Inr [] else Inl (TypeError ''cannot unpack non-iterable node''))"
| "node_pairs (ScalarNode t v m) =
     (if v = [] then Inr [] else Inl (ValueError ''not enough values to unpack''))"

text \<open>
  \<^verbatim>\<open>construct_for\<close>.  \<open>for_field\<close> is the body of the loop over the fields, whose state is
  \<^verbatim>\<open>items\<close>, \<^verbatim>\<open>varname\<close> and \<^verbatim>\<open>repeat\<close>; \<open>for_iteration\<close> is the body of the loop over the
  items: \<^verbatim>\<open>vars = self.vars = oldvars.copy(); vars[varname] = i\<close>, then the construction
  of a copy of \<^verbatim>\<open>repeat\<close>.  \<^verbatim>\<open>self.vars = oldvars\<close> follows the loop.
\<close>

definition for_field :: "(node \<Rightarrow> val M) \<Rightarrow> val \<times> val \<times> node option \<Rightarrow> node \<times> node
    \<Rightarrow> (val \<times> val \<times> node option) M" where
  "for_field rec acc kv =
     (case acc of (items, varname, repeat) \<Rightarrow>
        bindM (rec (fst kv)) (\<lambda>key.
        bindM (if str_eq key ''items'' then rec (snd kv) else returnM items) (\<lambda>items'.
        bindM (if str_eq key ''var'' then rec (snd kv) else returnM varname) (\<lambda>varname'.
        returnM (items', varname', if str_eq key ''repeat'' then Some (snd kv) else repeat)))))"

definition for_iteration :: "(node \<Rightarrow> val M) \<Rightarrow> (string \<times> val) list \<Rightarrow> string \<Rightarrow> node \<Rightarrow> val \<Rightarrow> val M" where
  "for_iteration rec oldvars varname repeat i =
     bindM (set_vars (AList.update varname i oldvars)) (\<lambda>_. rec repeat)"

definition for_loop :: "(node \<Rightarrow> val M) \<Rightarrow> string \<Rightarrow> node \<Rightarrow> val list \<Rightarrow> val M" where
  "for_loop rec varname repeat items =
     bindM (getM vars) (\<lambda>oldvars.
     bindM (mapM (for_iteration rec oldvars varname repeat) items) (\<lambda>result.
     bindM (set_vars oldvars) (\<lambda>_.
     returnM (VForList result))))"

definition construct_for :: "(node \<Rightarrow> val M) \<Rightarrow> node \<Rightarrow> val M" where
  "construct_for rec node =
     bindM (getM disable_str_expansion) (\<lambda>disabled.
       if disabled then returnM VNone
       else
         bindM (liftM (node_pairs node)) (\<lambda>kvs.
         bindM (foldM (for_field rec) (VNone, VStr ''item'', None) kvs) (\<lambda>acc.
         case acc of (items0, varname, repeat) \<Rightarrow>
           bindM (case as_str items0 of
                    None \<Rightarrow> returnM items0
                  | Some nm \<Rightarrow>
                      bindM (getM vars) (\<lambda>vs.
                        case map_of vs nm of
                          Some v \<Rightarrow> returnM v
                        | None \<Rightarrow> raiseM (KeyError nm))) (\<lambda>items.
           case as_list items of
             None \<Rightarrow>
               raiseM (MarkedYAMLError (Some ''items must be a list'') (Some (start_mark node)) None None)
           | Some its \<Rightarrow>
               (case as_str varname of
                  None \<Rightarrow>
                    raiseM (MarkedYAMLError (Some ''var must be a string'') (Some (start_mark node)) None None)
                | Some vn \<Rightarrow>
                    (case repeat of
                       None \<Rightarrow>
                         raiseM (MarkedYAMLError (Some ''missing repeat value'') (Some (start_mark node))
                           None None)
                     | Some rp \<Rightarrow> for_loop rec vn rp its))))))"

text \<open>\<^verbatim>\<open>construct_if\<close>.\<close>

definition if_field :: "(node \<Rightarrow> val M) \<Rightarrow> val \<times> node option \<times> node option \<Rightarrow> node \<times> node
    \<Rightarrow> (val \<times> node option \<times> node option) M" where
  "if_field rec acc kv =
     (case acc of (condition, then_node, else_node) \<Rightarrow>
        bindM (rec (fst kv)) (\<lambda>key.
        bindM (if str_eq key ''condition'' then rec (snd kv) else returnM condition) (\<lambda>condition'.
        returnM (condition',
          if str_eq key ''then'' then Some (snd kv) else then_node,
          if str_eq key ''else'' then Some (snd kv) else else_node))))"

definition construct_if :: "(node \<Rightarrow> val M) \<Rightarrow> node \<Rightarrow> val M" where
  "construct_if rec node =
     bindM (getM disable_str_expansion) (\<lambda>disabled.
       if disabled then returnM VNone
       else
         bindM (liftM (node_pairs node)) (\<lambda>kvs.
         bindM (foldM (if_field rec) (VNone, None, None) kvs) (\<lambda>acc.
         case acc of (condition, then_node, else_node) \<Rightarrow>
           (case then_node of
              None \<Rightarrow>
                raiseM (MarkedYAMLError (Some ''missing then value'') (Some (start_mark node)) None None)
            | Some tn \<Rightarrow>
                if truthy condition then rec tn
                else (case else_node of Some en \<Rightarrow> rec en | None \<Rightarrow> returnM VNone)))))"

text \<open>
  \<^verbatim>\<open>construct_merge\<close>: the node is constructed as a plain sequence and the result folded
  with \<^verbatim>\<open>merge\<close>.  \<open>py_iter\<close> is \<^verbatim>\<open>for obj in mergelist\<close>.  The \<^verbatim>\<open>print(value)\<close> of the
  source writes to standard output, which is not part of the state.
\<close>

fun py_iter :: "val \<Rightarrow> exn + val list" where
  "py_iter (VList xs) = Inr xs"
| "py_iter (VForList xs) = Inr xs"
| "py_iter (VTuple xs) = Inr xs"
| "py_iter (VDict d) = Inr (map (\<lambda>kv. VStr (fst kv)) d)"
| "py_iter (VStr s) = Inr (map (\<lambda>c. VStr [c]) s)"
| "py_iter (VForce s) = Inr (map (\<lambda>c. VStr [c]) s)"
| "py_iter (VBytes s) = Inr (map (\<lambda>c. VInt (of_char c)) s)"
| "py_iter v = Inl (TypeError ''object is not iterable'')"

definition construct_merge :: "pylib \<Rightarrow> (node \<Rightarrow> val M) \<Rightarrow> node \<Rightarrow> val M" where
  "construct_merge L rec node =
     bindM (getM disable_str_expansion) (\<lambda>disabled.
       if disabled then returnM VNone
       else
         (case node of
            SequenceNode t children m \<Rightarrow>
              bindM (rec (SequenceNode TAG_SEQ children m)) (\<lambda>mergelist.
              bindM (liftM (py_iter mergelist)) (\<lambda>objs.
              returnM (merge_all L objs)))
          | ScalarNode t v m \<Rightarrow>
              raiseM (MarkedYAMLError (Some ''!merge expects a list'') (Some m) None None)
          | MappingNode t v m \<Rightarrow>
              raiseM (MarkedYAMLError (Some ''!merge expects a list'') (Some m) None None)))"

text \<open>
  The \<^verbatim>\<open>!include_dir_*\<close> constructors.  \<^verbatim>\<open>_find_files\<close> walks the directory top down,
  pruning the directories whose name starts with a dot, and yields the files whose name
  does not start with a dot and matches \<^verbatim>\<open>*.yaml\<close>, the only pattern the module passes.
\<close>

definition is_file_valid :: "string \<Rightarrow> bool" where
  "is_file_valid nm = (take 1 nm \<noteq> ''.'')"

definition fnmatch_yaml :: "string \<Rightarrow> bool" where
  "fnmatch_yaml b = (5 \<le> length b \<and> drop (length b - 5) b = ''.yaml'')"

definition find_files :: "pylib \<Rightarrow> string \<Rightarrow> string list" where
  "find_files L directory =
     concat (map (\<lambda>entry. case entry of (root, dirs, files) \<Rightarrow>
                    map (path_join root) (filter (\<lambda>b. is_file_valid b \<and> fnmatch_yaml b) files))
                 (os_walk L is_file_valid directory))"

definition dir_files :: "pylib \<Rightarrow> node \<Rightarrow> string list M" where
  "dir_files L node =
     (case node of
        ScalarNode t v m \<Rightarrow>
          bindM (getM (\<lambda>s. rel_path s v)) (\<lambda>dir. returnM (filter_yaml_files L (find_files L dir)))
      | SequenceNode t v m \<Rightarrow> raiseM (TypeError ''expected str, bytes or os.PathLike object'')
      | MappingNode t v m \<Rightarrow> raiseM (TypeError ''expected str, bytes or os.PathLike object''))"

definition load_copy :: "(string \<Rightarrow> (string \<times> val) list \<Rightarrow> val M) \<Rightarrow> string \<Rightarrow> val M" where
  "load_copy load fname = bindM (getM vars) (\<lambda>vs. load fname vs)"

definition construct_include_dir_list :: "pylib \<Rightarrow> (string \<Rightarrow> (string \<times> val) list \<Rightarrow> val M) \<Rightarrow> node \<Rightarrow> val M" where
  "construct_include_dir_list L load node =
     bindM (dir_files L node) (\<lambda>files.
     bindM (mapM (load_copy load) files) (\<lambda>loaded. returnM (VList loaded)))"

definition construct_include_dir_merge_list :: "pylib \<Rightarrow> (string \<Rightarrow> (string \<times> val) list \<Rightarrow> val M) \<Rightarrow> node \<Rightarrow> val M" where
  "construct_include_dir_merge_list L load node =
     bindM (dir_files L node) (\<lambda>files.
     bindM (foldM (\<lambda>merged_list fname.
              bindM (load_copy load fname) (\<lambda>loaded_yaml.
                case as_list loaded_yaml of
                  Some xs \<Rightarrow> returnM (merged_list @ xs)
                | None \<Rightarrow> returnM merged_list)) [] files) (\<lambda>merged_list.
     returnM (VList merged_list)))"

definition construct_include_dir_named :: "pylib \<Rightarrow> (string \<Rightarrow> (string \<times> val) list \<Rightarrow> val M) \<Rightarrow> node \<Rightarrow> val M" where
  "construct_include_dir_named L load node =
     bindM (dir_files L node) (\<lambda>files.
     bindM (foldM (\<lambda>mapping fname.
              bindM (load_copy load fname) (\<lambda>loaded_yaml.
                returnM (AList.update (splitext_root (basename fname)) loaded_yaml mapping))) [] files)
       (\<lambda>mapping. returnM (VDict mapping)))"

definition construct_include_dir_merge_named :: "pylib \<Rightarrow> (string \<Rightarrow> (string \<times> val) list \<Rightarrow> val M) \<Rightarrow> node \<Rightarrow> val M" where
  "construct_include_dir_merge_named L load node =
     bindM (dir_files L node) (\<lambda>files.
     bindM (foldM (\<lambda>mapping fname.
              bindM (load_copy load fname) (\<lambda>loaded_yaml.
                case as_dict loaded_yaml of
                  Some d \<Rightarrow> returnM (dict_update mapping d)
                | None \<Rightarrow> returnM mapping)) [] files)
       (\<lambda>mapping. returnM (VDict mapping)))"

text \<open>\<^verbatim>\<open>construct_lambda\<close> and \<^verbatim>\<open>construct_force\<close>.\<close>

definition construct_lambda :: "pylib \<Rightarrow> (node \<Rightarrow> val M) \<Rightarrow> node \<Rightarrow> val M" where
  "construct_lambda L rec node =
     (case node of
        ScalarNode t v m \<Rightarrow>
          bindM (rec (ScalarNode TAG_STR v m)) (\<lambda>code. returnM (VLambda (py_str L code)))
      | SequenceNode t v m \<Rightarrow>
          raiseM (MarkedYAMLError (Some ''!lambda must tag a string'') None None None)
      | MappingNode t v m \<Rightarrow>
          raiseM (MarkedYAMLError (Some ''!lambda must tag a string'') None None None))"

definition construct_force :: "node \<Rightarrow> val M" where
  "construct_force node = bindM (liftM (construct_scalar node)) (\<lambda>obj. returnM (VForce obj))"

section \<open>Loading a document\<close>

text \<open>
  \<^verbatim>\<open>_load_yaml_string\<close> makes a new loader for the content, so the fields of the loader
  that is running are set aside and come back when the call ends, however it ends.
  \<^verbatim>\<open>get_single_data\<close> gives \<^verbatim>\<open>None\<close> for an empty stream and the constructed root
  otherwise; \<^verbatim>\<open>_load_yaml_string\<close> returns it \<^verbatim>\<open>or OrderedDict()\<close> and wraps a
  \<^verbatim>\<open>yaml.YAMLError\<close> into \<^verbatim>\<open>EsphomeError\<close>.
\<close>

definition get_single_data :: "pylib \<Rightarrow> (node \<Rightarrow> val M) \<Rightarrow> string \<Rightarrow> val M" where
  "get_single_data L rec content =
     (case compose L content of
        Inl e \<Rightarrow> raiseM e
      | Inr None \<Rightarrow> returnM VNone
      | Inr (Some root) \<Rightarrow> rec root)"

definition new_loader :: "string \<Rightarrow> (string \<times> val) list \<Rightarrow> bool \<Rightarrow> 'a M \<Rightarrow> 'a M" where
  "new_loader nm vs disable m =
     (\<lambda>s. case m (s\<lparr>vars := vs, disable_str_expansion := disable, name := nm\<rparr>) of
            (r, s') \<Rightarrow>
              (r, s'\<lparr>vars := vars s, disable_str_expansion := disable_str_expansion s, name := name s\<rparr>))"

definition load_yaml_string :: "pylib \<Rightarrow> (node \<Rightarrow> val M) \<Rightarrow> string \<Rightarrow> string \<Rightarrow> (string \<times> val) list \<Rightarrow> bool \<Rightarrow> val M" where
  "load_yaml_string L rec content nm vs disable =
     new_loader nm vs disable
       (\<lambda>s. case get_single_data L rec content s of
               (Inr data, s') \<Rightarrow> (Inr (if truthy data then data else VDict []), s')
             | (Inl e, s') \<Rightarrow> (Inl (if is_YAMLError e then EsphomeError e else e), s'))"

definition load_yaml_internal :: "pylib \<Rightarrow> (node \<Rightarrow> val M) \<Rightarrow> string \<Rightarrow> (string \<times> val) list \<Rightarrow> bool \<Rightarrow> val M" where
  "load_yaml_internal L rec fname vs disable =
     (\<lambda>s. case read_config_file L fname of
            Inl e \<Rightarrow> (Inl e, s\<lparr>reads := reads s @ [fname]\<rparr>)
          | Inr content \<Rightarrow>
              load_yaml_string L rec content fname vs disable (s\<lparr>reads := reads s @ [fname]\<rparr>))"

text \<open>
  \<^verbatim>\<open>construct_object\<close>: the constructor registered for the node's tag.  The constructors
  for integers, floats, binaries and ordered maps call \<^verbatim>\<open>super()\<close>, and every tag the module
  registers nothing for falls to the constructors \<^verbatim>\<open>yaml.SafeLoader\<close> brings along (null,
  bool, timestamp, pairs, set, and the error for an unknown tag): these are the library's
  \<open>safe_construct\<close>, a function of the node.
\<close>

definition construct_object_step :: "pylib \<Rightarrow> (node \<Rightarrow> val M) \<Rightarrow> node \<Rightarrow> val M" where
  "construct_object_step L rec node =
     (let t = tag node; load = (\<lambda>fname vs. load_yaml_internal L rec fname vs False)
      in if t = TAG_STR then construct_yaml_str L node
         else if t = TAG_SEQ then construct_yaml_seq rec node
         else if t = TAG_MAP then construct_yaml_map L rec node
         else if t = ''!env_var'' then construct_env_var L node
         else if t = ''!secret'' then construct_secret L load node
         else if t = ''!include'' then construct_include L rec load node
         else if t = ''!literal'' then construct_literal rec node
         else if t = ''!for'' then construct_for rec node
         else if t = ''!if'' then construct_if rec node
         else if t = ''!merge'' then construct_merge L rec node
         else if t = ''!include_dir_list'' then construct_include_dir_list L load node
         else if t = ''!include_dir_merge_list'' then construct_include_dir_merge_list L load node
         else if t = ''!include_dir_named'' then construct_include_dir_named L load node
         else if t = ''!include_dir_merge_named'' then construct_include_dir_merge_named L load node
         else if t = ''!lambda'' then construct_lambda L rec node
         else if t = ''!force'' then construct_force node
         else liftM (safe_construct L node))"

text \<open>
  The recursion of the construction pass is bounded by a budget, as Python's is by its
  recursion limit: with none left, \<^verbatim>\<open>RecursionError\<close> is raised.  Every level of nesting of
  the nodes, and every nested document, takes one unit.
\<close>

primrec construct_object :: "pylib \<Rightarrow> nat \<Rightarrow> node \<Rightarrow> val M" where
  "construct_object L 0 node = raiseM RecursionError"
| "construct_object L (Suc k) node = construct_object_step L (construct_object L k) node"

text \<open>\<^verbatim>\<open>load_yaml(fname, clear_secrets, vars)\<close>.\<close>

definition load_yaml :: "pylib \<Rightarrow> nat \<Rightarrow> string \<Rightarrow> bool \<Rightarrow> (string \<times> val) list \<Rightarrow> val M" where
  "load_yaml L k fname clear_secrets vs =
     (\<lambda>s. bindM (load_yaml_internal L (construct_object L k) fname vs False) (\<lambda>config.
          bindM (liftM (py_contains config CONF_SUBSTITUTIONS)) (\<lambda>has.
            if has then liftM (py_delitem config CONF_SUBSTITUTIONS) else returnM config))
          (if clear_secrets then s\<lparr>SECRET_VALUES := [], SECRET_CACHE := []\<rparr> else s))"

text \<open>
  \<^verbatim>\<open>load_vars(fname, override_vars)\<close>.  \<open>eval_substitutions\<close> is its last loop, over the
  merged substitutions, with \<^verbatim>\<open>vars\<close> as its state; \<^verbatim>\<open>cv.prepend_path\<close> adds a path
  segment to an \<^verbatim>\<open>Invalid\<close> that passes through it.
\<close>

fun prepend_path :: "string \<Rightarrow> exn + 'a \<Rightarrow> exn + 'a" where
  "prepend_path p (Inl (Invalid msg path)) = Inl (Invalid msg (p # path))"
| "prepend_path p r = r"

fun eval_substitutions :: "pylib \<Rightarrow> (string \<times> val) list \<Rightarrow> (string \<times> val) list \<Rightarrow> exn + (string \<times> val) list" where
  "eval_substitutions L [] vs = Inr vs"
| "eval_substitutions L (kv # substitutions) vs =
     (case as_str (snd kv) of
        None \<Rightarrow> eval_substitutions L substitutions (AList.update (fst kv) (snd kv) vs)
      | Some svalue \<Rightarrow>
          (case expand_str L svalue vs of
             Inl err \<Rightarrow>
               Inl (Invalid (''Error in substitution with name '' @ fst kv @ '': '' @ exn_message err)
                      [fst kv])
           | Inr expanded \<Rightarrow>
               eval_substitutions L substitutions (AList.update (fst kv) (VStr expanded) vs)))"

definition load_override :: "pylib \<Rightarrow> nat \<Rightarrow> string \<times> string \<Rightarrow> (string \<times> val) M" where
  "load_override L k kv =
     bindM (load_yaml_string L (construct_object L k) (snd kv)
              (''command line variable '' @ [CHR 0x27] @ fst kv @ [CHR 0x27]) [] True) (\<lambda>v.
     returnM (fst kv, v))"

definition load_vars :: "pylib \<Rightarrow> nat \<Rightarrow> string \<Rightarrow> (string \<times> string) list \<Rightarrow> (string \<times> val) list M" where
  "load_vars L k fname override_vars =
     bindM (mapM (load_override L k) override_vars) (\<lambda>overrides.
     bindM (load_yaml_internal L (construct_object L k) fname [] True) (\<lambda>raw_config.
     bindM (liftM (py_contains raw_config CONF_SUBSTITUTIONS)) (\<lambda>has.
     bindM (if has then liftM (py_getitem raw_config CONF_SUBSTITUTIONS) else returnM (VDict []))
       (\<lambda>substitutions.
         case as_dict substitutions of
           None \<Rightarrow>
             raiseM (Invalid (''Substitutions must be a key to value mapping, got ''
                              @ type_repr L substitutions) [''substitutions''])
         | Some sd \<Rightarrow>
             bindM (liftM (prepend_path ''substitutions'' (validate_vars L substitutions))) (\<lambda>validated.
               case as_dict validated of
                 None \<Rightarrow> raiseM (TypeError ''object is not a mapping'')
               | Some vd \<Rightarrow>
                   liftM (prepend_path ''substitutions''
                            (eval_substitutions L (dict_update vd overrides) [])))))))"

section \<open>A small concrete library for closed examples\<close>

text \<open>
  Closed examples need some library to run against.  This one reads decimal integers,
  \<^verbatim>\<open>true\<close>/\<^verbatim>\<open>false\<close> and null, expands exactly the templates of the form
  \<^verbatim>\<open>{{ name }}\<close> (an unbound name is an undefined-variable error), and serves files
  and their composed documents from two tables.  No general theorem depends on it.
\<close>

fun digits_value :: "string \<Rightarrow> nat \<Rightarrow> nat option" where
  "digits_value [] acc = Some acc"
| "digits_value (c # cs) acc =
     (if 48 \<le> (of_char c :: nat) \<and> (of_char c :: nat) \<le> 57
      then digits_value cs (10 * acc + (of_char c - 48)) else None)"

definition demo_safe_construct :: "node \<Rightarrow> exn + val" where
  "demo_safe_construct n =
     (case n of
        ScalarNode t v m \<Rightarrow>
          if t = TAG_INT then
            (case digits_value v 0 of
               Some k \<Rightarrow> if v = [] then Inl (ConstructorError None None (Some ''not an integer'') (Some m))
                         else Inr (VInt (int k))
             | None \<Rightarrow> Inl (ConstructorError None None (Some ''not an integer'') (Some m)))
          else if t = TAG_NULL then Inr VNone
          else if t = TAG_BOOL then Inr (VBool (v = ''true''))
          else Inl (ConstructorError None None (Some ''could not determine a constructor'') (Some m))
      | SequenceNode t v m \<Rightarrow>
          Inl (ConstructorError None None (Some ''could not determine a constructor'') (Some m))
      | MappingNode t v m \<Rightarrow>
          Inl (ConstructorError None None (Some ''could not determine a constructor'') (Some m)))"

definition demo_expand_str :: "string \<Rightarrow> (string \<times> val) list \<Rightarrow> exn + string" where
  "demo_expand_str st vs =
     (if 6 \<le> length st \<and> take 3 st = ''{{ '' \<and> drop (length st - 3) st = '' }}'' then
        (case map_of vs (take (length st - 6) (drop 3 st)) of
           None \<Rightarrow> Inl (UndefinedError (take (length st - 6) (drop 3 st)))
         | Some (VInt i) \<Rightarrow> Inr (str_int i)
         | Some (VStr s) \<Rightarrow> Inr s
         | Some v \<Rightarrow> Inl (TemplateError ''unsupported''))
      else Inr st)"

text \<open>The float \<open>FFin 762939453125 17\<close> is ten to the power 17, whose \<^verbatim>\<open>repr\<close> in Python is \<^verbatim>\<open>1e+17\<close>.\<close>

definition demo_repr :: "val \<Rightarrow> string" where
  "demo_repr v =
     (if v = VFloat (FFin 762939453125 17) then ''1e+17''
      else if v = VFloat (FFin 3 (- 1)) then ''1.5''
      else ''<object>'')"

definition demo_lib :: "(string \<times> string) list \<Rightarrow> (string \<times> node option) list \<Rightarrow> pylib" where
  "demo_lib files docs =
     \<lparr> py_repr = demo_repr,
       type_repr = (\<lambda>v. ''<class>''),
       environ = (\<lambda>k. None),
       os_walk = (\<lambda>keep d. []),
       compose = (\<lambda>c. case map_of docs c of
                          Some d \<Rightarrow> Inr d
                        | None \<Rightarrow> Inl (MarkedYAMLError None None (Some ''could not parse'') None)),
       safe_construct = demo_safe_construct,
       read_config_file = (\<lambda>p. case map_of files p of Some c \<Rightarrow> Inr c | None \<Rightarrow> Inl (OSError p)),
       expand_str = demo_expand_str,
       validate_vars = Inr,
       INCLUDE_SCHEMA = Inr,
       clone_or_update = (\<lambda>v. Inl (OSError ''no network'')),
       filter_yaml_files = (\<lambda>fs. fs),
       b64encode = (\<lambda>b. b) \<rparr>"

section \<open>Properties of the deep merge of two sequences\<close>

text \<open>The identifiers of the items of a sequence that carry one, in order.\<close>

fun ids :: "pylib \<Rightarrow> val list \<Rightarrow> string list" where
  "ids L [] = []"
| "ids L (item # items) =
     (case item_id L item of Some i \<Rightarrow> i # ids L items | None \<Rightarrow> ids L items)"

lemma ids_member: "x \<in> set xs \<Longrightarrow> item_id L x = Some j \<Longrightarrow> j \<in> set (ids L xs)"
  by (induction xs) (auto split: option.splits)

text \<open>
  The key each item of a sequence gets: its identifier when it has one, otherwise its rank
  among the items without one, counted from \<open>pos\<close>.
\<close>

fun keyed :: "pylib \<Rightarrow> val list \<Rightarrow> nat \<Rightarrow> (ikey \<times> val) list" where
  "keyed L [] pos = []"
| "keyed L (item # new) pos =
     (case item_id L item of
        Some i \<Rightarrow> (KStr i, item) # keyed L new pos
      | None \<Rightarrow> (KInt pos, item) # keyed L new (Suc pos))"

lemma update_fresh: "k \<notin> fst ` set al \<Longrightarrow> AList.update k v al = al @ [(k, v)]"
  by (induction al) auto

lemma keyed_keys:
  "fst ` set (keyed L new pos) \<subseteq> KStr ` set (ids L new) \<union> KInt ` {pos..}"
proof (induction new arbitrary: pos)
  case Nil show ?case by simp
next
  case (Cons item new)
  show ?case
  proof (cases "item_id L item")
    case None
    then show ?thesis using Cons[of "Suc pos"] by (auto)
  next
    case (Some i)
    then show ?thesis using Cons[of pos] by (auto)
  qed
qed

lemma build_index_keyed:
  assumes "distinct (ids L new)"
    and "fst ` set index \<inter> (KStr ` set (ids L new) \<union> KInt ` {pos..}) = {}"
  shows "build_index L new pos index = index @ keyed L new pos"
  using assms
proof (induction new arbitrary: pos index)
  case Nil show ?case by simp
next
  case (Cons item new)
  show ?case
  proof (cases "item_id L item")
    case None
    have fresh: "KInt pos \<notin> fst ` set index" using Cons.prems(2) by auto
    have d: "distinct (ids L new)" using Cons.prems(1) None by (simp)
    have "fst ` set (index @ [(KInt pos, item)]) \<inter> (KStr ` set (ids L new) \<union> KInt ` {Suc pos..}) = {}"
      using Cons.prems(2) None by (auto)
    then show ?thesis using Cons.IH[OF d, of "index @ [(KInt pos, item)]" "Suc pos"] None
      by (simp add: update_fresh[OF fresh])
  next
    case (Some i)
    have fresh: "KStr i \<notin> fst ` set index" using Cons.prems(2) Some by (auto)
    have d: "distinct (ids L new)" "i \<notin> set (ids L new)" using Cons.prems(1) Some by auto
    have "fst ` set (index @ [(KStr i, item)]) \<inter> (KStr ` set (ids L new) \<union> KInt ` {pos..}) = {}"
      using Cons.prems(2) Some d by (auto)
    then show ?thesis using Cons.IH[OF d(1), of "index @ [(KStr i, item)]" pos] Some
      by (simp add: update_fresh[OF fresh])
  qed
qed

lemma keyed_distinct: "distinct (ids L new) \<Longrightarrow> distinct (map fst (keyed L new pos))"
proof (induction new arbitrary: pos)
  case Nil show ?case by simp
next
  case (Cons item new)
  show ?case
  proof (cases "item_id L item")
    case None
    have "KInt pos \<notin> fst ` set (keyed L new (Suc pos))" using keyed_keys[of L new "Suc pos"] by auto
    then show ?thesis using Cons None by (simp)
  next
    case (Some i)
    have "i \<notin> set (ids L new)" using Cons.prems Some by (simp)
    then have "KStr i \<notin> fst ` set (keyed L new pos)" using keyed_keys[of L new pos] by auto
    then show ?thesis using Cons Some by (simp)
  qed
qed

lemma keyed_lookup: "map_of (keyed L new pos) (KStr i) = find (\<lambda>n. item_id L n = Some i) new"
  by (induction new arbitrary: pos) (auto split: option.splits)

lemma keyed_unmatched:
  "map snd (filter (\<lambda>kv. fst kv \<notin> KStr ` S) (keyed L new pos))
     = filter (\<lambda>n. case item_id L n of None \<Rightarrow> True | Some i \<Rightarrow> i \<notin> S) new"
  by (induction new arbitrary: pos) (auto split: option.splits)

lemma merge_old_char:
  assumes "distinct (ids L old)" 
  shows "merge_old mrg L old index acc =
    (acc @ map (\<lambda>item. case item_id L item of None \<Rightarrow> item
                 | Some i \<Rightarrow> (case map_of index (KStr i) of None \<Rightarrow> item | Some n \<Rightarrow> mrg item n)) old,
     filter (\<lambda>kv. fst kv \<notin> KStr ` set (ids L old)) index)"
  using assms
proof (induction old arbitrary: index acc)
  case Nil show ?case by (simp)
next
  case (Cons item old)
  show ?case
  proof (cases "item_id L item")
    case None
    then show ?thesis using Cons by (simp)
  next
    case (Some i)
    have d: "distinct (ids L old)" "i \<notin> set (ids L old)" using Cons.prems Some by (auto)
    show ?thesis
    proof (cases "map_of index (KStr i)")
      case None
      then have "KStr i \<notin> fst ` set index" by (simp add: map_of_eq_None_iff)
      then have "filter (\<lambda>kv. fst kv \<notin> KStr ` set (ids L (item # old))) index
         = filter (\<lambda>kv. fst kv \<notin> KStr ` set (ids L old)) index"
        using Some by (force intro!: filter_cong)
      then show ?thesis using Cons.IH[OF d(1)] Some None by simp
    next
      case (Some n)
      have look: "\<And>j. j \<in> set (ids L old) \<Longrightarrow> map_of (AList.delete (KStr i) index) (KStr j) = map_of index (KStr j)"
        using d(2) by (auto simp: delete_conv')
      have m: "map (\<lambda>item. case item_id L item of None \<Rightarrow> item
                 | Some i' \<Rightarrow> (case map_of (AList.delete (KStr i) index) (KStr i') of None \<Rightarrow> item | Some n \<Rightarrow> mrg item n)) old
         = map (\<lambda>item. case item_id L item of None \<Rightarrow> item
                 | Some i' \<Rightarrow> (case map_of index (KStr i') of None \<Rightarrow> item | Some n \<Rightarrow> mrg item n)) old"
      proof (rule map_cong[OF refl])
        fix x assume "x \<in> set old"
        show "(case item_id L x of None \<Rightarrow> x
                 | Some i' \<Rightarrow> (case map_of (AList.delete (KStr i) index) (KStr i') of None \<Rightarrow> x | Some n \<Rightarrow> mrg x n))
           = (case item_id L x of None \<Rightarrow> x
                 | Some i' \<Rightarrow> (case map_of index (KStr i') of None \<Rightarrow> x | Some n \<Rightarrow> mrg x n))"
        proof (cases "item_id L x")
          case None then show ?thesis by simp
        next
          case (Some j)
          then have "j \<in> set (ids L old)" using \<open>x \<in> set old\<close>
            by (simp add: ids_member)
          then show ?thesis using Some look by simp
        qed
      qed
      have f: "filter (\<lambda>kv. fst kv \<notin> KStr ` set (ids L old)) (AList.delete (KStr i) index)
         = filter (\<lambda>kv. fst kv \<notin> KStr ` set (ids L (item # old))) index"
        using \<open>item_id L item = Some i\<close>
        by (auto simp: AList.delete_eq intro!: filter_cong)
      show ?thesis using Cons.IH[OF d(1), of "AList.delete (KStr i) index"] \<open>item_id L item = Some i\<close> Some m f
        by simp
    qed
  qed
qed

text \<open>
  The sentence of the specification read literally: every item has a key (its identifier, or
  its positional rank when it has none), an old item is replaced by its merge with the new
  item of the same key, and the new items whose key matches no old item follow.
\<close>

definition merge_by_key_spec :: "pylib \<Rightarrow> val list \<Rightarrow> val list \<Rightarrow> val list" where
  "merge_by_key_spec L old new =
     map (\<lambda>kv. case map_of (keyed L new 0) (fst kv) of
                  Some n \<Rightarrow> merge L (snd kv) n
                | None \<Rightarrow> snd kv) (keyed L old 0)
     @ map snd (filter (\<lambda>kv. fst kv \<notin> fst ` set (keyed L old 0)) (keyed L new 0))"

definition ex_old :: "val list" where
  "ex_old = [VDict [(''id'', VStr ''a''), (''v'', VInt 1)], VDict [(''id'', VStr ''b''), (''v'', VInt 2)]]"

definition ex_new :: "val list" where
  "ex_new = [VDict [(''id'', VStr ''b''), (''v'', VInt 9)], VDict [(''id'', VStr ''c''), (''v'', VInt 3)]]"

lemma merge_lists_by_id:
  assumes "distinct (ids L old)" and "distinct (ids L new)"
  shows "merge L (VList old) (VList new) =
     VList (map (\<lambda>item. case item_id L item of
                          None \<Rightarrow> item
                        | Some i \<Rightarrow> (case find (\<lambda>n. item_id L n = Some i) new of
                                      None \<Rightarrow> item
                                    | Some n \<Rightarrow> merge L item n)) old
            @ filter (\<lambda>n. case item_id L n of None \<Rightarrow> True | Some i \<Rightarrow> i \<notin> set (ids L old)) new)"
proof -
  have idx: "build_index L new 0 [] = keyed L new 0"
    using build_index_keyed[OF assms(2), of "[]" 0] by simp
  show ?thesis
    by (simp add: idx merge_old_char[OF assms(1)] keyed_lookup keyed_unmatched
        cong: option.case_cong)
qed

lemma merge_example:
  "merge_all L [VList ex_old, VList ex_new] =
     VList [VDict [(''id'', VStr ''a''), (''v'', VInt 1)],
            VDict [(''id'', VStr ''b''), (''v'', VInt 9)],
            VDict [(''id'', VStr ''c''), (''v'', VInt 3)]]"
  by (simp add: merge_all_def ex_old_def ex_new_def item_id_def CONF_ID_def)

text \<open>
  C3 (as amended).  When the identifiers are distinct within each of the two sequences,
  \<^verbatim>\<open>merge(old, new)\<close> is the old sequence, in which every item whose identifier (the
  \<^verbatim>\<open>str()\<close> of its \<^verbatim>\<open>id\<close> field) is that of a new item is replaced by its deep merge with
  that new item, followed by the new items that have no identifier or whose identifier is
  that of no old item, in the order of the new sequence.  Items without an identifier are
  never matched with each other.  The example of the specification,
  \<^verbatim>\<open>!merge [[{id: a, v: 1}, {id: b, v: 2}], [{id: b, v: 9}, {id: c, v: 3}]]\<close>, gives
  \<^verbatim>\<open>[{id: a, v: 1}, {id: b, v: 9}, {id: c, v: 3}]\<close>.
\<close>

theorem merge_sequences_by_id:
  "(distinct (ids L old) \<and> distinct (ids L new) \<longrightarrow>
      merge L (VList old) (VList new) =
        VList (map (\<lambda>item. case item_id L item of
                             None \<Rightarrow> item
                           | Some i \<Rightarrow> (case find (\<lambda>n. item_id L n = Some i) new of
                                         None \<Rightarrow> item
                                       | Some n \<Rightarrow> merge L item n)) old
               @ filter (\<lambda>n. case item_id L n of None \<Rightarrow> True
                                | Some i \<Rightarrow> i \<notin> set (ids L old)) new))
   \<and> merge_all L [VList ex_old, VList ex_new] =
        VList [VDict [(''id'', VStr ''a''), (''v'', VInt 1)],
               VDict [(''id'', VStr ''b''), (''v'', VInt 9)],
               VDict [(''id'', VStr ''c''), (''v'', VInt 3)]]"
  using merge_lists_by_id[of L old new] merge_example[of L] by blast

theorem merge_sequences_by_id_witness:
  "distinct (ids (demo_lib [] []) ex_old) \<and> distinct (ids (demo_lib [] []) ex_new)
   \<and> merge (demo_lib [] []) (VList ex_old) (VList ex_new) =
        VList [VDict [(''id'', VStr ''a''), (''v'', VInt 1)],
               VDict [(''id'', VStr ''b''), (''v'', VInt 9)],
               VDict [(''id'', VStr ''c''), (''v'', VInt 3)]]"
proof -
  have d: "distinct (ids (demo_lib [] []) ex_old) \<and> distinct (ids (demo_lib [] []) ex_new)"
    by (simp add: ex_old_def ex_new_def item_id_def CONF_ID_def)
  from d merge_sequences_by_id[of "demo_lib [] []" ex_old ex_new]
  have "merge (demo_lib [] []) (VList ex_old) (VList ex_new) =
        VList (map (\<lambda>item. case item_id (demo_lib [] []) item of
                             None \<Rightarrow> item
                           | Some i \<Rightarrow> (case find (\<lambda>n. item_id (demo_lib [] []) n = Some i) ex_new of
                                         None \<Rightarrow> item
                                       | Some n \<Rightarrow> merge (demo_lib [] []) item n)) ex_old
               @ filter (\<lambda>n. case item_id (demo_lib [] []) n of None \<Rightarrow> True
                                | Some i \<Rightarrow> i \<notin> set (ids (demo_lib [] []) ex_old)) ex_new)"
    by blast
  then show ?thesis using d
    by (simp add: ex_old_def ex_new_def item_id_def CONF_ID_def)
qed

text \<open>
  Against the literal reading: two items without an identifier share the rank 0 and are not
  merged (the new one is appended), and of two new items with the same identifier only the
  later one survives.
\<close>

theorem merge_sequences_counterexample:
  "merge (demo_lib [] []) (VList [VInt 1]) (VList [VInt 2]) = VList [VInt 1, VInt 2]
   \<and> merge_by_key_spec (demo_lib [] []) [VInt 1] [VInt 2] = [VInt 2]
   \<and> merge (demo_lib [] []) (VList [])
        (VList [VDict [(''id'', VStr ''a''), (''v'', VInt 1)], VDict [(''id'', VStr ''a''), (''v'', VInt 2)]])
      = VList [VDict [(''id'', VStr ''a''), (''v'', VInt 2)]]
   \<and> merge_by_key_spec (demo_lib [] []) []
        [VDict [(''id'', VStr ''a''), (''v'', VInt 1)], VDict [(''id'', VStr ''a''), (''v'', VInt 2)]]
      = [VDict [(''id'', VStr ''a''), (''v'', VInt 1)], VDict [(''id'', VStr ''a''), (''v'', VInt 2)]]"
  by (simp add: merge_by_key_spec_def item_id_def CONF_ID_def)

section \<open>Properties of the float representer\<close>















section \<open>Reasoning about the construction monad\<close>

lemma bindM_Inr:
  "bindM m f s = (Inr v, s') \<longleftrightarrow> (\<exists>x s1. m s = (Inr x, s1) \<and> f x s1 = (Inr v, s'))"
  by (auto simp: bindM_def split: prod.splits sum.splits)

lemma bindM_Inl:
  "bindM m f s = (Inl e, s') \<longleftrightarrow>
     m s = (Inl e, s') \<or> (\<exists>x s1. m s = (Inr x, s1) \<and> f x s1 = (Inl e, s'))"
  by (auto simp: bindM_def split: prod.splits sum.splits)

lemma bindM_run_Inr: "m s = (Inr x, s1) \<Longrightarrow> bindM m f s = f x s1"
  by (simp add: bindM_def)

lemma bindM_run_Inl: "m s = (Inl e, s1) \<Longrightarrow> bindM m f s = (Inl e, s1)"
  by (simp add: bindM_def)

lemma returnM_run [simp]: "returnM x s = (Inr x, s)"
  by (simp add: returnM_def)

lemma raiseM_run [simp]: "raiseM e s = (Inl e, s)"
  by (simp add: raiseM_def)

lemma liftM_run [simp]: "liftM r s = (r, s)"
  by (simp add: liftM_def)

lemma getM_run [simp]: "getM field s = (Inr (field s), s)"
  by (simp add: getM_def)

lemma set_vars_run [simp]: "set_vars vs s = (Inr (), s\<lparr>vars := vs\<rparr>)"
  by (simp add: set_vars_def)

lemma set_disable_run [simp]:
  "set_disable_str_expansion b s = (Inr (), s\<lparr>disable_str_expansion := b\<rparr>)"
  by (simp add: set_disable_str_expansion_def)

lemma set_SECRET_VALUES_run [simp]: "set_SECRET_VALUES sv s = (Inr (), s\<lparr>SECRET_VALUES := sv\<rparr>)"
  by (simp add: set_SECRET_VALUES_def)

lemma foldM_append:
  "foldM f acc (xs @ ys) = bindM (foldM f acc xs) (\<lambda>acc'. foldM f acc' ys)"
proof (induction xs arbitrary: acc)
  case Nil
  show ?case by (rule ext) (simp add: bindM_def)
next
  case (Cons x xs)
  show ?case by (rule ext) (simp add: Cons bindM_def split: prod.splits sum.splits)
qed

lemma foldM_invariant:
  assumes "foldM f acc xs s = (Inr r, s')" and "P acc"
    and "\<And>a x s a' s'. P a \<Longrightarrow> x \<in> set xs \<Longrightarrow> f a x s = (Inr a', s') \<Longrightarrow> P a'"
  shows "P r"
  using assms
proof (induction xs arbitrary: acc s)
  case Nil
  then show ?case by simp
next
  case (Cons x xs)
  from Cons.prems(1) obtain a1 s1
    where a1: "f acc x s = (Inr a1, s1)" and rest: "foldM f a1 xs s1 = (Inr r, s')"
    by (auto simp: bindM_Inr)
  have "P a1" using Cons.prems(2,3) a1 by (meson list.set_intros(1))
  then show ?case using Cons.IH[OF rest] Cons.prems(3) by (meson list.set_intros(2))
qed

section \<open>Example documents\<close>

text \<open>The state before any load, and the marks and scalar nodes of the examples.\<close>

definition initial_state :: state where
  "initial_state =
     \<lparr> vars = [], disable_str_expansion = False, name = ''/cfg/main.yaml'',
       SECRET_VALUES = [], SECRET_CACHE = [], reads = [] \<rparr>"

definition at_line :: "nat \<Rightarrow> mark" where
  "at_line l = Mark ''/cfg/main.yaml'' l 0"

definition scalar :: "string \<Rightarrow> string \<Rightarrow> node" where
  "scalar t v = ScalarNode t v (at_line 0)"

section \<open>The root of a document\<close>

lemma load_yaml_string_root:
  assumes "get_single_data L rec content
             (s\<lparr>vars := vs, disable_str_expansion := dis, name := nm\<rparr>) = (Inr data, s')"
  shows "fst (load_yaml_string L rec content nm vs dis s)
           = Inr (if truthy data then data else VDict [])"
  using assms by (simp add: load_yaml_string_def new_loader_def)

lemma load_yaml_string_empty:
  assumes "compose L content = Inr None"
  shows "load_yaml_string L rec content nm vs dis s = (Inr (VDict []), s)"
  using assms by (simp add: load_yaml_string_def new_loader_def get_single_data_def)

text \<open>
  C10.  When the construction of the root of a document returns a value whose truth value
  is false, \<^verbatim>\<open>_load_yaml_string\<close> returns an empty ordered mapping in its place; so it does
  for an empty document, for which \<^verbatim>\<open>get_single_data\<close> returns \<^verbatim>\<open>None\<close>.  \<^verbatim>\<open>None\<close>, the
  empty mapping, the empty sequence, \<^verbatim>\<open>False\<close>, \<^verbatim>\<open>0\<close> and the empty string are such values.
  \<^verbatim>\<open>_load_yaml_internal\<close> passes the result on.
\<close>

theorem falsy_root_gives_empty_mapping:
  "(get_single_data L rec content
      (s\<lparr>vars := vs, disable_str_expansion := dis, name := nm\<rparr>) = (Inr data, s')
      \<and> \<not> truthy data
    \<longrightarrow> fst (load_yaml_string L rec content nm vs dis s) = Inr (VDict []))
   \<and> (compose L content = Inr None
    \<longrightarrow> fst (load_yaml_string L rec content nm vs dis s) = Inr (VDict []))
   \<and> (read_config_file L fname = Inr content
    \<longrightarrow> fst (load_yaml_internal L rec fname vs dis s)
        = fst (load_yaml_string L rec content fname vs dis (s\<lparr>reads := reads s @ [fname]\<rparr>)))
   \<and> \<not> truthy VNone \<and> \<not> truthy (VDict []) \<and> \<not> truthy (VList []) \<and> \<not> truthy (VBool False)
   \<and> \<not> truthy (VInt 0) \<and> \<not> truthy (VStr [])"
proof (intro conjI impI)
  show "fst (load_yaml_string L rec content nm vs dis s) = Inr (VDict [])"
    if "get_single_data L rec content
          (s\<lparr>vars := vs, disable_str_expansion := dis, name := nm\<rparr>) = (Inr data, s')
        \<and> \<not> truthy data"
    using load_yaml_string_root[where L = L and rec = rec and s = s and data = data and s' = s'] that
    by simp
  show "fst (load_yaml_string L rec content nm vs dis s) = Inr (VDict [])"
    if "compose L content = Inr None"
    using load_yaml_string_empty[OF that] by simp
  show "fst (load_yaml_internal L rec fname vs dis s)
        = fst (load_yaml_string L rec content fname vs dis (s\<lparr>reads := reads s @ [fname]\<rparr>))"
    if "read_config_file L fname = Inr content"
    using that by (simp add: load_yaml_internal_def)
qed simp_all

theorem falsy_root_gives_empty_mapping_witness:
  "get_single_data (demo_lib [] [(''0'', Some (scalar TAG_INT ''0''))])
      (construct_object (demo_lib [] [(''0'', Some (scalar TAG_INT ''0''))]) 1) ''0''
      (initial_state\<lparr>vars := [], disable_str_expansion := True, name := ''command line''\<rparr>)
     = (Inr (VInt 0),
        initial_state\<lparr>vars := [], disable_str_expansion := True, name := ''command line''\<rparr>)
   \<and> \<not> truthy (VInt 0)
   \<and> fst (load_yaml_string (demo_lib [] [(''0'', Some (scalar TAG_INT ''0''))])
        (construct_object (demo_lib [] [(''0'', Some (scalar TAG_INT ''0''))]) 1) ''0''
        ''command line'' [] True initial_state) = Inr (VDict [])"
proof -
  have g: "get_single_data (demo_lib [] [(''0'', Some (scalar TAG_INT ''0''))])
      (construct_object (demo_lib [] [(''0'', Some (scalar TAG_INT ''0''))]) 1) ''0''
      (initial_state\<lparr>vars := [], disable_str_expansion := True, name := ''command line''\<rparr>)
     = (Inr (VInt 0),
        initial_state\<lparr>vars := [], disable_str_expansion := True, name := ''command line''\<rparr>)"
    by (simp add: get_single_data_def demo_lib_def construct_object_step_def scalar_def
        demo_safe_construct_def TAG_INT_def TAG_STR_def TAG_SEQ_def TAG_MAP_def)
  show ?thesis
    using g falsy_root_gives_empty_mapping[where
        L = "demo_lib [] [(''0'', Some (scalar TAG_INT ''0''))]"
        and rec = "construct_object (demo_lib [] [(''0'', Some (scalar TAG_INT ''0''))]) 1"
        and content = "''0''" and s = initial_state and vs = "[]" and dis = True
        and nm = "''command line''" and data = "VInt 0"
        and s' = "initial_state\<lparr>vars := [], disable_str_expansion := True, name := ''command line''\<rparr>"]
    by simp
qed

section \<open>Properties of the construction of a mapping\<close>

text \<open>
  What a mapping node says, entry by entry, independently of the bookkeeping of
  \<^verbatim>\<open>construct_yaml_map\<close>.  A direct entry constructs its key with string expansion
  disabled and then its value with the flag restored, and contributes the key node, the
  \<^verbatim>\<open>str()\<close> of the key, which must be hashable, and the value.  An entry under the merge key
  \<^verbatim>\<open><<\<close> constructs its value and contributes the items of that mapping or, for a
  sequence of mappings, the items of all of them in order.  The entries are constructed in
  the order of the document, each in the loader state that the one before left;
  \<open>entries\<close> is \<open>None\<close> when one of these constructions raises.
\<close>

datatype entry = Direct node string val | Merged "(string \<times> val) list"

fun merge_items :: "val list \<Rightarrow> (string \<times> val) list option" where
  "merge_items [] = Some []"
| "merge_items (item # items) =
     (case as_dict item of
        None \<Rightarrow> None
      | Some d \<Rightarrow> (case merge_items items of None \<Rightarrow> None | Some ds \<Rightarrow> Some (d @ ds)))"

definition merge_value :: "val \<Rightarrow> (string \<times> val) list option" where
  "merge_value v =
     (case as_dict v of
        Some d \<Rightarrow> Some d
      | None \<Rightarrow> (case as_list v of Some items \<Rightarrow> merge_items items | None \<Rightarrow> None))"

definition construct_entry :: "pylib \<Rightarrow> (node \<Rightarrow> val M) \<Rightarrow> node \<times> node \<Rightarrow> state
    \<Rightarrow> (entry \<times> state) option" where
  "construct_entry L rec kv s =
     (if tag (fst kv) \<noteq> TAG_MERGE then
        (case rec (if tag (fst kv) = TAG_VALUE then set_tag TAG_STR (fst kv) else fst kv)
                (s\<lparr>disable_str_expansion := True\<rparr>) of
           (Inl e, s1) \<Rightarrow> None
         | (Inr key, s1) \<Rightarrow>
             (case rec (snd kv) (s1\<lparr>disable_str_expansion := disable_str_expansion s\<rparr>) of
                (Inl e, s2) \<Rightarrow> None
              | (Inr v, s2) \<Rightarrow>
                  if hashable key then Some (Direct (fst kv) (py_str L key) v, s2) else None))
      else
        (case rec (snd kv) s of
           (Inl e, s1) \<Rightarrow> None
         | (Inr v, s1) \<Rightarrow>
             (case merge_value v of None \<Rightarrow> None | Some d \<Rightarrow> Some (Merged d, s1))))"

fun entries :: "pylib \<Rightarrow> (node \<Rightarrow> val M) \<Rightarrow> (node \<times> node) list \<Rightarrow> state
    \<Rightarrow> (entry list \<times> state) option" where
  "entries L rec [] s = Some ([], s)"
| "entries L rec (kv # kvs) s =
     (case construct_entry L rec kv s of
        None \<Rightarrow> None
      | Some (e, s1) \<Rightarrow>
          (case entries L rec kvs s1 of None \<Rightarrow> None | Some (es, s') \<Rightarrow> Some (e # es, s')))"

fun direct_pairs :: "entry list \<Rightarrow> (string \<times> val) list" where
  "direct_pairs [] = []"
| "direct_pairs (Direct kn k v # es) = (k, v) # direct_pairs es"
| "direct_pairs (Merged d # es) = direct_pairs es"

fun merge_pairs_of :: "entry list \<Rightarrow> (string \<times> val) list" where
  "merge_pairs_of [] = []"
| "merge_pairs_of (Direct kn k v # es) = merge_pairs_of es"
| "merge_pairs_of (Merged d # es) = d @ merge_pairs_of es"

fun marks_of :: "entry list \<Rightarrow> (string \<times> mark option) list \<Rightarrow> (string \<times> mark option) list" where
  "marks_of [] seen = seen"
| "marks_of (Direct kn k v # es) seen = marks_of es (AList.update k (Some (start_mark kn)) seen)"
| "marks_of (Merged d # es) seen = marks_of es seen"

lemma start_mark_set_tag [simp]: "start_mark (set_tag t n) = start_mark n"
  by (cases n) auto

lemma construct_entry_direct:
  assumes "construct_entry L rec (kn, vn) s = Some (e, s2)" and "tag kn \<noteq> TAG_MERGE"
  shows "\<exists>key s1 v.
      rec (if tag kn = TAG_VALUE then set_tag TAG_STR kn else kn)
           (s\<lparr>disable_str_expansion := True\<rparr>) = (Inr key, s1)
    \<and> rec vn (s1\<lparr>disable_str_expansion := disable_str_expansion s\<rparr>) = (Inr v, s2)
    \<and> hashable key \<and> e = Direct kn (py_str L key) v"
  using assms
  by (auto simp: construct_entry_def split: prod.splits sum.splits if_splits)

lemma construct_entry_merge:
  assumes "construct_entry L rec (kn, vn) s = Some (e, s1)" and "tag kn = TAG_MERGE"
  shows "\<exists>v d. rec vn s = (Inr v, s1) \<and> merge_value v = Some d \<and> e = Merged d"
  using assms
  by (auto simp: construct_entry_def split: prod.splits sum.splits option.splits)

lemma construct_entry_directI:
  assumes "tag kn \<noteq> TAG_MERGE"
    and "rec (if tag kn = TAG_VALUE then set_tag TAG_STR kn else kn)
           (s\<lparr>disable_str_expansion := True\<rparr>) = (Inr key, s1)"
    and "rec vn (s1\<lparr>disable_str_expansion := disable_str_expansion s\<rparr>) = (Inr v, s2)"
    and "hashable key"
  shows "construct_entry L rec (kn, vn) s = Some (Direct kn (py_str L key) v, s2)"
  using assms by (cases "tag kn = TAG_VALUE") (simp_all add: construct_entry_def)

lemma construct_entry_mergeI:
  assumes "tag kn = TAG_MERGE" and "rec vn s = (Inr v, s1)" and "merge_value v = Some d"
  shows "construct_entry L rec (kn, vn) s = Some (Merged d, s1)"
  using assms by (simp add: construct_entry_def)

lemma entries_Cons:
  "entries L rec (kv # kvs) s = Some (es, s') \<longleftrightarrow>
     (\<exists>e s1 es'. construct_entry L rec kv s = Some (e, s1) \<and> entries L rec kvs s1 = Some (es', s')
        \<and> es = e # es')"
  by (auto split: option.splits)

lemma adopt_merge_pairs_index:
  "adopt_merge_pairs mps pairs seen =
     pairs @ map (nth mps)
       (filter (\<lambda>i. fst (mps ! i) \<notin> fst ` set seen \<and> fst (mps ! i) \<notin> fst ` set (take i mps))
          [0..<length mps])"
proof (induction mps arbitrary: pairs seen)
  case Nil
  show ?case by simp
next
  case (Cons kv mps)
  let ?P = "\<lambda>sn ms i. fst (ms ! i) \<notin> fst ` set sn \<and> fst (ms ! i) \<notin> fst ` set (take i ms)"
  have upt: "[0..<length (kv # mps)] = 0 # map Suc [0..<length mps]"
    by (simp add: upt_conv_Cons map_Suc_upt del: upt_Suc)
  have shift: "map (nth (kv # mps)) (map Suc is) = map (nth mps) is" for "is"
    by simp
  show ?case
  proof (cases "fst kv \<in> fst ` set seen")
    case True
    have ne: "fst (mps ! x) \<notin> fst ` set seen \<Longrightarrow> fst (mps ! x) \<noteq> fst kv" for x
      using True by metis
    have pw: "?P seen (kv # mps) (Suc x) = ?P seen mps x" for x
      using ne[of x] by auto
    have f: "filter (?P seen (kv # mps)) (map Suc [0..<length mps])
        = map Suc (filter (?P seen mps) [0..<length mps])"
      unfolding filter_map o_def pw ..
    have z: "\<not> ?P seen (kv # mps) 0" using True by simp
    have "filter (?P seen (kv # mps)) [0..<length (kv # mps)]
        = map Suc (filter (?P seen mps) [0..<length mps])"
      unfolding upt using z f by simp
    then have "map (nth (kv # mps)) (filter (?P seen (kv # mps)) [0..<length (kv # mps)])
        = map (nth mps) (filter (?P seen mps) [0..<length mps])"
      using shift by metis
    then show ?thesis using True Cons.IH[of pairs seen] by simp
  next
    case False
    let ?seen' = "AList.update (fst kv) None seen"
    have f: "filter (?P seen (kv # mps)) (map Suc [0..<length mps])
        = map Suc (filter (?P ?seen' mps) [0..<length mps])"
      unfolding filter_map o_def
      by (rule arg_cong[where f = "map Suc"], rule filter_cong) (auto simp: dom_update)
    have z: "?P seen (kv # mps) 0" using False by simp
    have "filter (?P seen (kv # mps)) [0..<length (kv # mps)]
        = 0 # map Suc (filter (?P ?seen' mps) [0..<length mps])"
      unfolding upt using z f by simp
    then have "map (nth (kv # mps)) (filter (?P seen (kv # mps)) [0..<length (kv # mps)])
        = kv # map (nth mps) (filter (?P ?seen' mps) [0..<length mps])"
      using shift[of "filter (?P ?seen' mps) [0..<length mps]"] by simp
    then show ?thesis using False Cons.IH[of "pairs @ [kv]" ?seen'] by simp
  qed
qed

lemma adopt_merge_pairs_distinct:
  "distinct (map fst pairs) \<Longrightarrow> fst ` set pairs \<subseteq> fst ` set seen \<Longrightarrow>
     distinct (map fst (adopt_merge_pairs mps pairs seen))"
proof (induction mps arbitrary: pairs seen)
  case Nil
  then show ?case by simp
next
  case (Cons kv mps)
  show ?case
  proof (cases "fst kv \<in> fst ` set seen")
    case True
    then show ?thesis using Cons by simp
  next
    case False
    have "distinct (map fst (pairs @ [kv]))" using Cons.prems False by auto
    moreover have "fst ` set (pairs @ [kv]) \<subseteq> fst ` set (AList.update (fst kv) None seen)"
      using Cons.prems by (auto simp: dom_update)
    ultimately show ?thesis using Cons.IH False by simp
  qed
qed

lemma foldl_update_fresh:
  "distinct (map fst (acc @ pairs)) \<Longrightarrow>
     foldl (\<lambda>d kv. AList.update (fst kv) (snd kv) d) acc pairs = acc @ pairs"
proof (induction pairs arbitrary: acc)
  case Nil
  show ?case by simp
next
  case (Cons kv pairs)
  have "fst kv \<notin> fst ` set acc" using Cons.prems by auto
  then have "AList.update (fst kv) (snd kv) acc = acc @ [kv]" by (simp add: update_fresh)
  then show ?case using Cons.IH[of "acc @ [kv]"] Cons.prems by simp
qed

lemma OrderedDict_distinct: "distinct (map fst pairs) \<Longrightarrow> OrderedDict pairs = pairs"
  using foldl_update_fresh[of "[]" pairs] by (simp add: OrderedDict_def)

lemma extend_merge_items:
  "merge_items items = Some ds \<Longrightarrow>
     foldM (extend_merge_pairs L node vn) mps items s = (Inr (mps @ ds), s)"
proof (induction items arbitrary: mps ds)
  case Nil
  then show ?case by simp
next
  case (Cons item items)
  then show ?case
    by (auto simp: extend_merge_pairs_def bindM_def split: option.splits)
qed

lemma extend_merge_items_conv:
  "foldM (extend_merge_pairs L node vn) mps items s = (Inr mps', s') \<Longrightarrow>
     \<exists>ds. merge_items items = Some ds \<and> mps' = mps @ ds \<and> s' = s"
proof (induction items arbitrary: mps)
  case Nil
  then show ?case by simp
next
  case (Cons item items)
  from Cons.prems obtain a s1 where a: "extend_merge_pairs L node vn mps item s = (Inr a, s1)"
    and rest: "foldM (extend_merge_pairs L node vn) a items s1 = (Inr mps', s')"
    by (auto simp: bindM_Inr)
  from a obtain d where d: "as_dict item = Some d" "a = mps @ d" "s1 = s"
    by (auto simp: extend_merge_pairs_def split: option.splits)
  from Cons.IH[OF rest[unfolded d]] d show ?case by auto
qed

lemma merge_entry_run:
  assumes "tag kn = TAG_MERGE" and "rec vn s = (Inr v, s1)" and "merge_value v = Some d"
  shows "map_entry L rec node (pairs, mps, seen) (kn, vn) s = (Inr (pairs, mps @ d, seen), s1)"
  using assms
  by (auto simp: map_entry_def Let_def bindM_def merge_value_def extend_merge_items
      split: option.splits)

lemma merge_entry_conv:
  assumes "map_entry L rec node (pairs, mps, seen) (kn, vn) s = (Inr a1, s1)" and "tag kn = TAG_MERGE"
  shows "\<exists>v d. rec vn s = (Inr v, s1) \<and> merge_value v = Some d \<and> a1 = (pairs, mps @ d, seen)"
proof -
  from assms obtain v s0 where v: "rec vn s = (Inr v, s0)"
    and r: "(case as_dict v of
               Some d \<Rightarrow> returnM (pairs, mps @ d, seen)
             | None \<Rightarrow>
                 (case as_list v of
                    Some items \<Rightarrow>
                      bindM (foldM (extend_merge_pairs L node vn) mps items)
                        (\<lambda>merge_pairs'. returnM (pairs, merge_pairs', seen))
                  | None \<Rightarrow>
                      raiseM (ConstructorError (Some ''While constructing a mapping'')
                        (Some (start_mark node))
                        (Some (''Expected a mapping or list of mappings for merging, but found ''
                               @ type_repr L v))
                        (Some (start_mark vn))))) s0 = (Inr a1, s1)"
    by (auto simp: map_entry_def Let_def bindM_Inr)
  show ?thesis
  proof (cases "as_dict v")
    case (Some d)
    then show ?thesis using v r by (auto simp: merge_value_def)
  next
    case None
    show ?thesis
    proof (cases "as_list v")
      case N2: None
      then show ?thesis using None r by simp
    next
      case (Some items)
      from r None Some obtain mps' where
        "foldM (extend_merge_pairs L node vn) mps items s0 = (Inr mps', s1)" "a1 = (pairs, mps', seen)"
        by (auto simp: bindM_Inr)
      then show ?thesis using v None Some
        by (auto simp: merge_value_def dest!: extend_merge_items_conv)
    qed
  qed
qed

lemma direct_entry_run:
  assumes "tag kn \<noteq> TAG_MERGE"
    and "rec (if tag kn = TAG_VALUE then set_tag TAG_STR kn else kn)
           (s\<lparr>disable_str_expansion := True\<rparr>) = (Inr key, s1)"
    and "rec vn (s1\<lparr>disable_str_expansion := disable_str_expansion s\<rparr>) = (Inr v, s2)"
    and "hashable key" and "py_str L key \<notin> fst ` set seen"
  shows "map_entry L rec node (pairs, mps, seen) (kn, vn) s =
     (Inr (pairs @ [(py_str L key, v)], mps,
           AList.update (py_str L key) (Some (start_mark kn)) seen), s2)"
proof -
  have "map_of seen (py_str L key) = None" using assms(5) by (simp add: map_of_eq_None_iff)
  then show ?thesis using assms(1-4) by (simp add: map_entry_def Let_def bindM_def)
qed

lemma marks_of_dom: "fst ` set (marks_of es seen) = fst ` set seen \<union> fst ` set (direct_pairs es)"
  by (induction es seen rule: marks_of.induct) (auto simp: dom_update)

lemma first_loop_sound:
  assumes "entries L rec kvs s = Some (es, s')"
    and "distinct (map fst (direct_pairs es))"
    and "fst ` set (direct_pairs es) \<inter> fst ` set seen = {}"
  shows "foldM (map_entry L rec node) (pairs, mps, seen) kvs s
     = (Inr (pairs @ direct_pairs es, mps @ merge_pairs_of es, marks_of es seen), s')"
  using assms
proof (induction kvs arbitrary: s es pairs mps seen)
  case Nil
  then show ?case by simp
next
  case (Cons kv kvs)
  obtain kn vn where kv: "kv = (kn, vn)" by (cases kv) auto
  show ?case
  proof (cases "tag kn = TAG_MERGE")
    case True
    from Cons.prems(1) obtain e s1 es' where e: "construct_entry L rec (kn, vn) s = Some (e, s1)"
        and r: "entries L rec kvs s1 = Some (es', s')" and es0: "es = e # es'"
      unfolding kv entries_Cons by blast
    from construct_entry_merge[OF e True] es0 obtain v d
      where v: "rec vn s = (Inr v, s1)" and d: "merge_value v = Some d"
        and es: "es = Merged d # es'"
      by blast
    have "foldM (map_entry L rec node) (pairs, mps @ d, seen) kvs s1
        = (Inr (pairs @ direct_pairs es', (mps @ d) @ merge_pairs_of es', marks_of es' seen), s')"
      using Cons.IH[OF r] Cons.prems(2,3) es by simp
    moreover have "map_entry L rec node (pairs, mps, seen) (kn, vn) s = (Inr (pairs, mps @ d, seen), s1)"
      using True v d by (rule merge_entry_run)
    ultimately show ?thesis using es by (simp add: kv bindM_def)
  next
    case False
    from Cons.prems(1) obtain e s2 es' where e: "construct_entry L rec (kn, vn) s = Some (e, s2)"
        and r: "entries L rec kvs s2 = Some (es', s')" and es0: "es = e # es'"
      unfolding kv entries_Cons by blast
    from construct_entry_direct[OF e False] es0 obtain key s1 v
      where k: "rec (if tag kn = TAG_VALUE then set_tag TAG_STR kn else kn)
           (s\<lparr>disable_str_expansion := True\<rparr>) = (Inr key, s1)"
        and v: "rec vn (s1\<lparr>disable_str_expansion := disable_str_expansion s\<rparr>) = (Inr v, s2)"
        and h: "hashable key"
        and es: "es = Direct kn (py_str L key) v # es'"
      by blast
    have fresh: "py_str L key \<notin> fst ` set seen" using Cons.prems(3) es by auto
    have "foldM (map_entry L rec node)
            (pairs @ [(py_str L key, v)], mps, AList.update (py_str L key) (Some (start_mark kn)) seen)
            kvs s2
        = (Inr ((pairs @ [(py_str L key, v)]) @ direct_pairs es', mps @ merge_pairs_of es',
             marks_of es' (AList.update (py_str L key) (Some (start_mark kn)) seen)), s')"
      using Cons.prems(2,3) es by (intro Cons.IH[OF r]) (auto simp: dom_update)
    moreover have "map_entry L rec node (pairs, mps, seen) (kn, vn) s =
       (Inr (pairs @ [(py_str L key, v)], mps,
             AList.update (py_str L key) (Some (start_mark kn)) seen), s2)"
      using False k v h fresh by (rule direct_entry_run)
    ultimately show ?thesis using es by (simp add: kv bindM_def)
  qed
qed

lemma first_loop_complete:
  assumes "foldM (map_entry L rec node) (pairs, mps, seen) kvs s = (Inr acc', s')"
  shows "\<exists>es. entries L rec kvs s = Some (es, s')
      \<and> distinct (map fst (direct_pairs es))
      \<and> fst ` set (direct_pairs es) \<inter> fst ` set seen = {}
      \<and> acc' = (pairs @ direct_pairs es, mps @ merge_pairs_of es, marks_of es seen)"
  using assms
proof (induction kvs arbitrary: s pairs mps seen)
  case Nil
  then show ?case by simp
next
  case (Cons kv kvs)
  obtain kn vn where kv: "kv = (kn, vn)" by (cases kv) auto
  from Cons.prems obtain a1 s1 where a1: "map_entry L rec node (pairs, mps, seen) (kn, vn) s = (Inr a1, s1)"
      and rest: "foldM (map_entry L rec node) a1 kvs s1 = (Inr acc', s')"
    by (auto simp: bindM_Inr kv)
  show ?case
  proof (cases "tag kn = TAG_MERGE")
    case True
    have "\<exists>v d. rec vn s = (Inr v, s1) \<and> merge_value v = Some d \<and> a1 = (pairs, mps @ d, seen)"
      using a1 True by (rule merge_entry_conv)
    then obtain v d where v: "rec vn s = (Inr v, s1)" and d: "merge_value v = Some d"
      and a: "a1 = (pairs, mps @ d, seen)"
      by blast
    from Cons.IH[OF rest[unfolded a]] obtain es where
      "entries L rec kvs s1 = Some (es, s')" "distinct (map fst (direct_pairs es))"
      "fst ` set (direct_pairs es) \<inter> fst ` set seen = {}"
      "acc' = (pairs @ direct_pairs es, (mps @ d) @ merge_pairs_of es, marks_of es seen)"
      by blast
    moreover have "construct_entry L rec (kn, vn) s = Some (Merged d, s1)"
      using True v d by (rule construct_entry_mergeI)
    ultimately show ?thesis
      by (intro exI[of _ "Merged d # es"]) (simp add: kv)
  next
    case False
    from a1 False obtain key s0 v
      where k: "rec (if tag kn = TAG_VALUE then set_tag TAG_STR kn else kn)
           (s\<lparr>disable_str_expansion := True\<rparr>) = (Inr key, s0)"
        and v: "rec vn (s0\<lparr>disable_str_expansion := disable_str_expansion s\<rparr>) = (Inr v, s1)"
        and h: "hashable key" and fresh: "map_of seen (py_str L key) = None"
        and a: "a1 = (pairs @ [(py_str L key, v)], mps,
                  AList.update (py_str L key) (Some (start_mark kn)) seen)"
      unfolding map_entry_def
      by (auto simp: Let_def bindM_Inr split: option.splits if_splits)
    from Cons.IH[OF rest[unfolded a]] obtain es where es:
      "entries L rec kvs s1 = Some (es, s')" "distinct (map fst (direct_pairs es))"
      "fst ` set (direct_pairs es) \<inter> fst ` set (AList.update (py_str L key) (Some (start_mark kn)) seen) = {}"
      "acc' = ((pairs @ [(py_str L key, v)]) @ direct_pairs es, mps @ merge_pairs_of es,
          marks_of es (AList.update (py_str L key) (Some (start_mark kn)) seen))"
      by blast
    have nf: "py_str L key \<notin> fst ` set seen" using fresh by (simp add: map_of_eq_None_iff)
    have "construct_entry L rec (kn, vn) s = Some (Direct kn (py_str L key) v, s1)"
      using False k v h by (rule construct_entry_directI)
    then show ?thesis using es nf
      by (intro exI[of _ "Direct kn (py_str L key) v # es"]) (auto simp: kv dom_update)
  qed
qed


lemma construct_yaml_map_sound:
  assumes "entries L rec kvs s = Some (es, s')" and "distinct (map fst (direct_pairs es))"
  shows "construct_yaml_map L rec (MappingNode t kvs m) s =
     (Inr (VDict (direct_pairs es @ map (nth (merge_pairs_of es))
        (filter (\<lambda>i. fst (merge_pairs_of es ! i) \<notin> fst ` set (direct_pairs es)
                     \<and> fst (merge_pairs_of es ! i) \<notin> fst ` set (take i (merge_pairs_of es)))
           [0..<length (merge_pairs_of es)]))), s')
    \<and> distinct (map fst (direct_pairs es @ map (nth (merge_pairs_of es))
        (filter (\<lambda>i. fst (merge_pairs_of es ! i) \<notin> fst ` set (direct_pairs es)
                     \<and> fst (merge_pairs_of es ! i) \<notin> fst ` set (take i (merge_pairs_of es)))
           [0..<length (merge_pairs_of es)])))"
proof -
  have fp: "foldM (map_entry L rec (MappingNode t kvs m)) ([], [], []) kvs s
      = (Inr (direct_pairs es, merge_pairs_of es, marks_of es []), s')"
    using first_loop_sound[OF assms(1,2), of "[]" "MappingNode t kvs m" "[]" "[]"] by simp
  have dom: "fst ` set (marks_of es []) = fst ` set (direct_pairs es)"
    by (simp add: marks_of_dom)
  have d: "distinct (map fst (adopt_merge_pairs (merge_pairs_of es) (direct_pairs es) (marks_of es [])))"
    using adopt_merge_pairs_distinct[of "direct_pairs es" "marks_of es []" "merge_pairs_of es"]
      assms(2) dom by simp
  have i: "adopt_merge_pairs (merge_pairs_of es) (direct_pairs es) (marks_of es []) =
      direct_pairs es @ map (nth (merge_pairs_of es))
        (filter (\<lambda>i. fst (merge_pairs_of es ! i) \<notin> fst ` set (direct_pairs es)
                     \<and> fst (merge_pairs_of es ! i) \<notin> fst ` set (take i (merge_pairs_of es)))
           [0..<length (merge_pairs_of es)])"
    using adopt_merge_pairs_index[of "merge_pairs_of es" "direct_pairs es" "marks_of es []"] dom
    by simp
  have "construct_yaml_map L rec (MappingNode t kvs m) s =
      (Inr (VDict (adopt_merge_pairs (merge_pairs_of es) (direct_pairs es) (marks_of es []))), s')"
    using fp OrderedDict_distinct[OF d] by (simp add: construct_yaml_map_def bindM_def)
  then show ?thesis using d unfolding i by simp
qed

lemma construct_yaml_map_complete:
  assumes "construct_yaml_map L rec (MappingNode t kvs m) s = (Inr v, s')"
  shows "\<exists>es. entries L rec kvs s = Some (es, s') \<and> distinct (map fst (direct_pairs es))
    \<and> v = VDict (direct_pairs es @ map (nth (merge_pairs_of es))
        (filter (\<lambda>i. fst (merge_pairs_of es ! i) \<notin> fst ` set (direct_pairs es)
                     \<and> fst (merge_pairs_of es ! i) \<notin> fst ` set (take i (merge_pairs_of es)))
           [0..<length (merge_pairs_of es)]))"
proof -
  from assms obtain acc
    where fp: "foldM (map_entry L rec (MappingNode t kvs m)) ([], [], []) kvs s = (Inr acc, s')"
    by (auto simp: construct_yaml_map_def bindM_Inr)
  from first_loop_complete[OF fp] obtain es where es: "entries L rec kvs s = Some (es, s')"
    "distinct (map fst (direct_pairs es))"
    by blast
  show ?thesis using es construct_yaml_map_sound[OF es, of t m] assms by auto
qed

text \<open>
  The dispatch of \<open>construct_object_step\<close> for the tags of the examples, and a library
  whose integer constructor reads the digits 1 to 4.
\<close>

definition reads_small_ints :: "pylib \<Rightarrow> bool" where
  "reads_small_ints L =
     (\<forall>m. safe_construct L (ScalarNode TAG_INT ''1'' m) = Inr (VInt 1)
        \<and> safe_construct L (ScalarNode TAG_INT ''2'' m) = Inr (VInt 2)
        \<and> safe_construct L (ScalarNode TAG_INT ''3'' m) = Inr (VInt 3)
        \<and> safe_construct L (ScalarNode TAG_INT ''4'' m) = Inr (VInt 4))"

lemma reads_small_ints_demo: "reads_small_ints (demo_lib files docs)"
  by (simp add: reads_small_ints_def demo_lib_def demo_safe_construct_def)

lemma step_str: "tag n = TAG_STR \<Longrightarrow> construct_object_step L rec n = construct_yaml_str L n"
  by (simp add: construct_object_step_def)

lemma step_seq: "tag n = TAG_SEQ \<Longrightarrow> construct_object_step L rec n = construct_yaml_seq rec n"
  by (simp add: construct_object_step_def TAG_SEQ_def TAG_STR_def)

lemma step_map: "tag n = TAG_MAP \<Longrightarrow> construct_object_step L rec n = construct_yaml_map L rec n"
  by (simp add: construct_object_step_def TAG_SEQ_def TAG_STR_def TAG_MAP_def)

lemma step_int: "tag n = TAG_INT \<Longrightarrow> construct_object_step L rec n = liftM (safe_construct L n)"
  by (simp add: construct_object_step_def TAG_SEQ_def TAG_STR_def TAG_MAP_def TAG_INT_def)

lemma step_for: "tag n = ''!for'' \<Longrightarrow> construct_object_step L rec n = construct_for rec n"
  by (simp add: construct_object_step_def TAG_SEQ_def TAG_STR_def TAG_MAP_def)


definition merge_key_example :: node where
  "merge_key_example =
     MappingNode TAG_MAP
       [(scalar TAG_STR ''a'', scalar TAG_INT ''1''),
        (scalar TAG_MERGE ''<<'',
         MappingNode TAG_MAP
           [(scalar TAG_STR ''a'', scalar TAG_INT ''2''),
            (scalar TAG_STR ''b'', scalar TAG_INT ''3'')] (at_line 0))] (at_line 0)"

lemma step_str_disabled:
  "t = TAG_STR \<Longrightarrow> disable_str_expansion s \<Longrightarrow>
     construct_object_step L rec (ScalarNode t v m) s = (Inr (VStr v), s)"
  by (simp add: step_str construct_yaml_str_def bindM_def)

lemma step_small_ints:
  assumes "reads_small_ints L" and "t = TAG_INT"
  shows "construct_object_step L rec (ScalarNode t ''1'' m) s = (Inr (VInt 1), s)"
    and "construct_object_step L rec (ScalarNode t ''2'' m) s = (Inr (VInt 2), s)"
    and "construct_object_step L rec (ScalarNode t ''3'' m) s = (Inr (VInt 3), s)"
    and "construct_object_step L rec (ScalarNode t ''4'' m) s = (Inr (VInt 4), s)"
  using assms by (simp_all add: reads_small_ints_def step_int)

lemma merge_key_example_result:
  assumes "reads_small_ints L"
  shows "construct_object L 3 merge_key_example s
           = (Inr (VDict [(''a'', VInt 1), (''b'', VInt 3)]), s)"
  by (simp add: eval_nat_numeral merge_key_example_def step_map construct_yaml_map_def
      map_entry_def scalar_def bindM_def Let_def step_str_disabled step_small_ints[OF assms]
      TAG_STR_def TAG_MERGE_def TAG_VALUE_def TAG_INT_def TAG_MAP_def OrderedDict_def)

definition merge_sequence_example :: node where
  "merge_sequence_example =
     MappingNode TAG_MAP
       [(scalar TAG_MERGE ''<<'',
         SequenceNode TAG_SEQ
           [MappingNode TAG_MAP [(scalar TAG_STR ''b'', scalar TAG_INT ''2'')] (at_line 0),
            MappingNode TAG_MAP
              [(scalar TAG_STR ''b'', scalar TAG_INT ''3''),
               (scalar TAG_STR ''c'', scalar TAG_INT ''4'')] (at_line 0)] (at_line 0)),
        (scalar TAG_STR ''a'', scalar TAG_INT ''1'')] (at_line 0)"

lemma merge_sequence_example_result:
  assumes "reads_small_ints L"
  shows "construct_object L 4 merge_sequence_example s
           = (Inr (VDict [(''a'', VInt 1), (''b'', VInt 2), (''c'', VInt 4)]), s)"
  by (simp add: eval_nat_numeral merge_sequence_example_def step_map step_seq
      construct_yaml_seq_def construct_sequence_def construct_yaml_map_def
      map_entry_def extend_merge_pairs_def scalar_def bindM_def Let_def step_str_disabled
      step_small_ints[OF assms]
      TAG_STR_def TAG_MERGE_def TAG_VALUE_def TAG_INT_def TAG_MAP_def TAG_SEQ_def OrderedDict_def)

text \<open>
  C1.  Let the entries of a mapping node construct, in the order of the document, to
  \<open>es\<close>, with no key twice among the direct entries.  Then \<^verbatim>\<open>construct_yaml_map\<close> returns,
  in the state the last entry left, the mapping that lists the direct pairs in the order of
  the document, followed by those merge pairs (the items of the values of the \<^verbatim>\<open><<\<close>
  keys, single mappings or sequences of mappings, in the order met) whose key is neither
  the key of a direct pair nor the key of an earlier merge pair, in the order met; no key is
  bound twice.  Conversely every mapping that \<^verbatim>\<open>construct_yaml_map\<close> returns arises so.
  With a library that reads the integers, \<^verbatim>\<open>{a: 1, <<: {a: 2, b: 3}}\<close> constructs to
  \<^verbatim>\<open>{a: 1, b: 3}\<close>, and \<^verbatim>\<open>{<<: [{b: 2}, {b: 3, c: 4}], a: 1}\<close> to \<^verbatim>\<open>{a: 1, b: 2, c: 4}\<close>.
\<close>

theorem merge_pairs_adopted_when_unseen:
  "(entries L rec kvs s = Some (es, s') \<and> distinct (map fst (direct_pairs es)) \<longrightarrow>
      construct_yaml_map L rec (MappingNode t kvs m) s =
        (Inr (VDict (direct_pairs es @ map (nth (merge_pairs_of es))
           (filter (\<lambda>i. fst (merge_pairs_of es ! i) \<notin> fst ` set (direct_pairs es)
                        \<and> fst (merge_pairs_of es ! i) \<notin> fst ` set (take i (merge_pairs_of es)))
              [0..<length (merge_pairs_of es)]))), s')
      \<and> distinct (map fst (direct_pairs es @ map (nth (merge_pairs_of es))
           (filter (\<lambda>i. fst (merge_pairs_of es ! i) \<notin> fst ` set (direct_pairs es)
                        \<and> fst (merge_pairs_of es ! i) \<notin> fst ` set (take i (merge_pairs_of es)))
              [0..<length (merge_pairs_of es)]))))
   \<and> (construct_yaml_map L rec (MappingNode t kvs m) s = (Inr v, s') \<longrightarrow>
        (\<exists>es. entries L rec kvs s = Some (es, s') \<and> distinct (map fst (direct_pairs es))
           \<and> v = VDict (direct_pairs es @ map (nth (merge_pairs_of es))
               (filter (\<lambda>i. fst (merge_pairs_of es ! i) \<notin> fst ` set (direct_pairs es)
                            \<and> fst (merge_pairs_of es ! i) \<notin> fst ` set (take i (merge_pairs_of es)))
                  [0..<length (merge_pairs_of es)]))))
   \<and> (reads_small_ints L \<longrightarrow>
        construct_object L 3 merge_key_example s
          = (Inr (VDict [(''a'', VInt 1), (''b'', VInt 3)]), s))
   \<and> (reads_small_ints L \<longrightarrow>
        construct_object L 4 merge_sequence_example s
          = (Inr (VDict [(''a'', VInt 1), (''b'', VInt 2), (''c'', VInt 4)]), s))"
  using construct_yaml_map_sound[of L rec kvs s es s' t m]
    construct_yaml_map_complete[of L rec t kvs m s v s']
    merge_key_example_result[of L s] merge_sequence_example_result[of L s]
  by blast

theorem merge_pairs_adopted_when_unseen_witness:
  "reads_small_ints (demo_lib [] [])
   \<and> construct_object (demo_lib [] []) 3 merge_key_example initial_state
        = (Inr (VDict [(''a'', VInt 1), (''b'', VInt 3)]), initial_state)
   \<and> construct_object (demo_lib [] []) 4 merge_sequence_example initial_state
        = (Inr (VDict [(''a'', VInt 1), (''b'', VInt 2), (''c'', VInt 4)]), initial_state)
   \<and> entries (demo_lib [] []) (construct_object (demo_lib [] []) 2)
        [(scalar TAG_STR ''a'', scalar TAG_INT ''1''),
         (scalar TAG_MERGE ''<<'',
          MappingNode TAG_MAP
            [(scalar TAG_STR ''a'', scalar TAG_INT ''2''),
             (scalar TAG_STR ''b'', scalar TAG_INT ''3'')] (at_line 0))] initial_state
        = Some ([Direct (scalar TAG_STR ''a'') ''a'' (VInt 1),
                 Merged [(''a'', VInt 2), (''b'', VInt 3)]], initial_state)
   \<and> distinct (map fst (direct_pairs [Direct (scalar TAG_STR ''a'') ''a'' (VInt 1),
                 Merged [(''a'', VInt 2), (''b'', VInt 3)]]))
   \<and> construct_yaml_map (demo_lib [] []) (construct_object (demo_lib [] []) 2)
        (MappingNode TAG_MAP
          [(scalar TAG_STR ''a'', scalar TAG_INT ''1''),
           (scalar TAG_MERGE ''<<'',
            MappingNode TAG_MAP
              [(scalar TAG_STR ''a'', scalar TAG_INT ''2''),
               (scalar TAG_STR ''b'', scalar TAG_INT ''3'')] (at_line 0))] (at_line 0)) initial_state
        = (Inr (VDict [(''a'', VInt 1), (''b'', VInt 3)]), initial_state)"
proof -
  let ?L = "demo_lib [] []"
  let ?kvs = "[(scalar TAG_STR ''a'', scalar TAG_INT ''1''),
         (scalar TAG_MERGE ''<<'',
          MappingNode TAG_MAP
            [(scalar TAG_STR ''a'', scalar TAG_INT ''2''),
             (scalar TAG_STR ''b'', scalar TAG_INT ''3'')] (at_line 0))]"
  let ?es = "[Direct (scalar TAG_STR ''a'') ''a'' (VInt 1), Merged [(''a'', VInt 2), (''b'', VInt 3)]]"
  have r: "reads_small_ints ?L"
    by (rule reads_small_ints_demo)
  have e: "entries ?L (construct_object ?L 2) ?kvs initial_state = Some (?es, initial_state)"
    by (simp add: eval_nat_numeral construct_entry_def merge_value_def step_map
        construct_yaml_map_def map_entry_def scalar_def bindM_def Let_def step_str_disabled
        step_small_ints[OF r] initial_state_def
        TAG_STR_def TAG_MERGE_def TAG_VALUE_def TAG_INT_def TAG_MAP_def OrderedDict_def)
  have d: "distinct (map fst (direct_pairs ?es))"
    by simp
  have f: "direct_pairs ?es @ map (nth (merge_pairs_of ?es))
           (filter (\<lambda>i. fst (merge_pairs_of ?es ! i) \<notin> fst ` set (direct_pairs ?es)
                        \<and> fst (merge_pairs_of ?es ! i) \<notin> fst ` set (take i (merge_pairs_of ?es)))
              [0..<length (merge_pairs_of ?es)]) = [(''a'', VInt 1), (''b'', VInt 3)]"
    by simp
  have m: "construct_yaml_map ?L (construct_object ?L 2) (MappingNode TAG_MAP ?kvs (at_line 0))
      initial_state = (Inr (VDict [(''a'', VInt 1), (''b'', VInt 3)]), initial_state)"
    using merge_pairs_adopted_when_unseen[where L = ?L and rec = "construct_object ?L 2"
        and kvs = ?kvs and s = initial_state and es = ?es and s' = initial_state
        and t = TAG_MAP and m = "at_line 0"] e d
    unfolding f by blast
  have x1: "construct_object ?L 3 merge_key_example initial_state
        = (Inr (VDict [(''a'', VInt 1), (''b'', VInt 3)]), initial_state)"
    using r merge_pairs_adopted_when_unseen[where L = ?L and s = initial_state] by blast
  have x2: "construct_object ?L 4 merge_sequence_example initial_state
        = (Inr (VDict [(''a'', VInt 1), (''b'', VInt 2), (''c'', VInt 4)]), initial_state)"
    using r merge_pairs_adopted_when_unseen[where L = ?L and s = initial_state] by blast
  show ?thesis using r e d m x1 x2 by blast
qed

section \<open>Duplicate keys\<close>

lemma entries_append:
  "entries L rec (xs @ ys) s =
     (case entries L rec xs s of
        None \<Rightarrow> None
      | Some (es1, s1) \<Rightarrow>
          (case entries L rec ys s1 of None \<Rightarrow> None | Some (es2, s') \<Rightarrow> Some (es1 @ es2, s')))"
  by (induction xs arbitrary: s) (auto split: option.splits)

lemma entries_length: "entries L rec kvs s = Some (es, s') \<Longrightarrow> length es = length kvs"
  by (induction kvs arbitrary: s es) (auto split: option.splits)

lemma entries_last:
  assumes "entries L rec (pre @ [(kn, vn)]) s = Some (es @ [Direct kn0 k v], s3)"
  shows "\<exists>s1 key s2. entries L rec pre s = Some (es, s1)
      \<and> tag kn \<noteq> TAG_MERGE \<and> kn0 = kn
      \<and> rec (if tag kn = TAG_VALUE then set_tag TAG_STR kn else kn)
           (s1\<lparr>disable_str_expansion := True\<rparr>) = (Inr key, s2)
      \<and> rec vn (s2\<lparr>disable_str_expansion := disable_str_expansion s1\<rparr>) = (Inr v, s3)
      \<and> hashable key \<and> k = py_str L key"
proof -
  from assms obtain es1 s1 es2 where 1: "entries L rec pre s = Some (es1, s1)"
    and 2: "entries L rec [(kn, vn)] s1 = Some (es2, s3)" and 3: "es1 @ es2 = es @ [Direct kn0 k v]"
    by (auto simp: entries_append split: option.splits)
  have "length es2 = 1" using entries_length[OF 2] by simp
  then have e: "es1 = es" "es2 = [Direct kn0 k v]" using 3 by (cases es2; auto)+
  have 4: "construct_entry L rec (kn, vn) s1 = Some (Direct kn0 k v, s3)"
    using 2 unfolding e by (auto split: option.splits)
  have t: "tag kn \<noteq> TAG_MERGE"
    using 4 construct_entry_merge[OF 4] by auto
  show ?thesis using 1 t construct_entry_direct[OF 4 t] unfolding e by auto
qed

lemma marks_of_other:
  "k \<notin> fst ` set (direct_pairs es) \<Longrightarrow> map_of (marks_of es seen) k = map_of seen k"
  by (induction es seen rule: marks_of.induct) (auto simp: update_conv')

lemma marks_of_direct:
  assumes "Direct kn0 k v0 \<in> set es" and "distinct (map fst (direct_pairs es))"
  shows "map_of (marks_of es seen) k = Some (Some (start_mark kn0))"
  using assms
proof (induction es seen rule: marks_of.induct)
  case (1 seen)
  then show ?case by simp
next
  case (2 kn k' v es seen)
  show ?case
  proof (cases "Direct kn0 k v0 = Direct kn k' v")
    case True
    then have "k \<notin> fst ` set (direct_pairs es)" using 2(3) by auto
    then show ?thesis using True by (simp add: marks_of_other update_conv')
  next
    case False
    then show ?thesis using 2 by auto
  qed
next
  case (3 d es seen)
  then show ?case by auto
qed

lemma map_entry_duplicate:
  assumes "tag kn \<noteq> TAG_MERGE"
    and "rec (if tag kn = TAG_VALUE then set_tag TAG_STR kn else kn)
           (s\<lparr>disable_str_expansion := True\<rparr>) = (Inr key, s1)"
    and "rec vn (s1\<lparr>disable_str_expansion := disable_str_expansion s\<rparr>) = (Inr v, s2)"
    and "hashable key"
    and "map_of seen (py_str L key) = Some previous"
  shows "map_entry L rec node (pairs, mps, seen) (kn, vn) s =
     (Inl (ConstructorError (Some (''Duplicate key \"'' @ py_str L key @ ''\"''))
            (Some (start_mark kn)) (Some ''NOTE: Previous declaration here:'') previous), s2)"
  using assms by (simp add: map_entry_def Let_def bindM_def)

lemma foldM_stops:
  assumes "foldM f acc pre s = (Inr a, s1)" and "f a x s1 = (Inl e, s2)"
  shows "foldM f acc (pre @ x # post) s = (Inl e, s2)"
  using assms by (simp add: foldM_append bindM_def)

lemma duplicate_key_error:
  assumes run: "entries L rec (pre @ [(kn, vn)]) s = Some (es @ [Direct kn k v], s3)"
    and dist: "distinct (map fst (direct_pairs es))"
    and prev: "Direct kn0 k v0 \<in> set es"
  shows "construct_yaml_map L rec (MappingNode t (pre @ (kn, vn) # post) m) s =
         (Inl (ConstructorError (Some (''Duplicate key \"'' @ k @ ''\"''))
            (Some (start_mark kn)) (Some ''NOTE: Previous declaration here:'')
            (Some (start_mark kn0))), s3)"
proof -
  from entries_last[OF run] obtain s1 key s2 where pre: "entries L rec pre s = Some (es, s1)"
    and t: "tag kn \<noteq> TAG_MERGE"
    and key: "rec (if tag kn = TAG_VALUE then set_tag TAG_STR kn else kn)
           (s1\<lparr>disable_str_expansion := True\<rparr>) = (Inr key, s2)"
    and v: "rec vn (s2\<lparr>disable_str_expansion := disable_str_expansion s1\<rparr>) = (Inr v, s3)"
    and h: "hashable key" and k: "k = py_str L key"
    by blast
  let ?node = "MappingNode t (pre @ (kn, vn) # post) m"
  have fp: "foldM (map_entry L rec ?node) ([], [], []) pre s
      = (Inr (direct_pairs es, merge_pairs_of es, marks_of es []), s1)"
    using first_loop_sound[OF pre dist, of "[]" ?node "[]" "[]"] by simp
  have pr: "map_of (marks_of es []) (py_str L key) = Some (Some (start_mark kn0))"
    using marks_of_direct[OF prev dist] k by simp
  have "map_entry L rec ?node (direct_pairs es, merge_pairs_of es, marks_of es []) (kn, vn) s1 =
     (Inl (ConstructorError (Some (''Duplicate key \"'' @ py_str L key @ ''\"''))
            (Some (start_mark kn)) (Some ''NOTE: Previous declaration here:'')
            (Some (start_mark kn0))), s3)"
    using t key v h pr by (rule map_entry_duplicate)
  then have "foldM (map_entry L rec ?node) ([], [], []) (pre @ (kn, vn) # post) s =
     (Inl (ConstructorError (Some (''Duplicate key \"'' @ py_str L key @ ''\"''))
            (Some (start_mark kn)) (Some ''NOTE: Previous declaration here:'')
            (Some (start_mark kn0))), s3)"
    using foldM_stops[OF fp] by simp
  then show ?thesis using k by (simp add: construct_yaml_map_def bindM_def)
qed

lemma first_loop_duplicate:
  assumes "entries L rec kvs s = Some (es, s')"
    and "\<not> (distinct (map fst (direct_pairs es)) \<and> fst ` set (direct_pairs es) \<inter> fst ` set seen = {})"
    and "\<And>k p. map_of seen k = Some p \<Longrightarrow> \<exists>mk. p = Some mk"
  shows "\<exists>k mk mk0 s''. foldM (map_entry L rec node) (pairs, mps, seen) kvs s =
     (Inl (ConstructorError (Some (''Duplicate key \"'' @ k @ ''\"'')) (Some mk)
        (Some ''NOTE: Previous declaration here:'') (Some mk0)), s'')"
  using assms
proof (induction kvs arbitrary: s es pairs mps seen)
  case Nil
  then show ?case by simp
next
  case (Cons kv kvs)
  obtain kn vn where kv: "kv = (kn, vn)" by (cases kv) auto
  from Cons.prems(1) obtain e s2 es' where e: "construct_entry L rec (kn, vn) s = Some (e, s2)"
      and r: "entries L rec kvs s2 = Some (es', s')" and es0: "es = e # es'"
    unfolding kv entries_Cons by blast
  show ?case
  proof (cases "tag kn = TAG_MERGE")
    case True
    from construct_entry_merge[OF e True] obtain v d
      where v: "rec vn s = (Inr v, s2)" and d: "merge_value v = Some d" and ed: "e = Merged d"
      by blast
    have me: "map_entry L rec node (pairs, mps, seen) (kn, vn) s = (Inr (pairs, mps @ d, seen), s2)"
      using True v d by (rule merge_entry_run)
    have "\<exists>k mk mk0 s''. foldM (map_entry L rec node) (pairs, mps @ d, seen) kvs s2 =
       (Inl (ConstructorError (Some (''Duplicate key \"'' @ k @ ''\"'')) (Some mk)
          (Some ''NOTE: Previous declaration here:'') (Some mk0)), s'')"
      using Cons.prems(2,3) es0 ed by (intro Cons.IH[OF r]) auto
    then show ?thesis using me by (simp add: kv bindM_def)
  next
    case False
    from construct_entry_direct[OF e False] obtain key s1 v
      where k: "rec (if tag kn = TAG_VALUE then set_tag TAG_STR kn else kn)
           (s\<lparr>disable_str_expansion := True\<rparr>) = (Inr key, s1)"
        and v: "rec vn (s1\<lparr>disable_str_expansion := disable_str_expansion s\<rparr>) = (Inr v, s2)"
        and h: "hashable key" and ed: "e = Direct kn (py_str L key) v"
      by blast
    show ?thesis
    proof (cases "map_of seen (py_str L key)")
      case (Some p)
      then obtain mk0 where p: "p = Some mk0" using Cons.prems(3) by blast
      have "map_entry L rec node (pairs, mps, seen) (kn, vn) s =
         (Inl (ConstructorError (Some (''Duplicate key \"'' @ py_str L key @ ''\"''))
            (Some (start_mark kn)) (Some ''NOTE: Previous declaration here:'') p), s2)"
        using False k v h Some by (rule map_entry_duplicate)
      then show ?thesis using p by (simp add: kv bindM_def)
    next
      case None
      then have fresh: "py_str L key \<notin> fst ` set seen" by (simp add: map_of_eq_None_iff)
      let ?seen = "AList.update (py_str L key) (Some (start_mark kn)) seen"
      have me: "map_entry L rec node (pairs, mps, seen) (kn, vn) s =
         (Inr (pairs @ [(py_str L key, v)], mps, ?seen), s2)"
        using False k v h fresh by (rule direct_entry_run)
      have n: "\<not> (distinct (map fst (direct_pairs es'))
          \<and> fst ` set (direct_pairs es') \<inter> fst ` set ?seen = {})"
        using Cons.prems(2) es0 ed fresh by (auto simp: dom_update)
      have i: "\<exists>mk. p = Some mk" if "map_of ?seen k = Some p" for k p
        using that Cons.prems(3)[of k p] by (auto simp: update_conv' split: if_splits)
      have "\<exists>k mk mk0 s''. foldM (map_entry L rec node) (pairs @ [(py_str L key, v)], mps, ?seen) kvs s2 =
         (Inl (ConstructorError (Some (''Duplicate key \"'' @ k @ ''\"'')) (Some mk)
            (Some ''NOTE: Previous declaration here:'') (Some mk0)), s'')"
        using n i by (intro Cons.IH[OF r]) auto
      then show ?thesis using me by (simp add: kv bindM_def)
    qed
  qed
qed

lemma duplicate_key_never_a_mapping:
  assumes "entries L rec kvs s = Some (es, s')" and "\<not> distinct (map fst (direct_pairs es))"
  shows "\<exists>k mk mk0 s''. construct_yaml_map L rec (MappingNode t kvs m) s =
     (Inl (ConstructorError (Some (''Duplicate key \"'' @ k @ ''\"'')) (Some mk)
        (Some ''NOTE: Previous declaration here:'') (Some mk0)), s'')"
proof -
  have "\<exists>k mk mk0 s''. foldM (map_entry L rec (MappingNode t kvs m)) ([], [], []) kvs s =
     (Inl (ConstructorError (Some (''Duplicate key \"'' @ k @ ''\"'')) (Some mk)
        (Some ''NOTE: Previous declaration here:'') (Some mk0)), s'')"
    using assms by (intro first_loop_duplicate[of L rec kvs s es s']) auto
  then show ?thesis by (auto simp: construct_yaml_map_def bindM_def)
qed

lemma mapping_has_distinct_keys:
  assumes "construct_yaml_map L rec (MappingNode t kvs m) s = (Inr d, s')"
  shows "\<exists>es. entries L rec kvs s = Some (es, s') \<and> distinct (map fst (direct_pairs es))"
  using construct_yaml_map_complete[OF assms] by blast

definition duplicate_key_example :: node where
  "duplicate_key_example =
     MappingNode TAG_MAP
       [(ScalarNode TAG_STR ''k'' (at_line 1), scalar TAG_INT ''1''),
        (ScalarNode TAG_STR ''k'' (at_line 2), scalar TAG_INT ''2'')] (at_line 1)"

lemma duplicate_key_example_result:
  assumes "reads_small_ints L"
  shows "construct_object L 2 duplicate_key_example s
           = (Inl (ConstructorError (Some ''Duplicate key \"k\"'') (Some (at_line 2))
                (Some ''NOTE: Previous declaration here:'') (Some (at_line 1))), s)"
  by (simp add: eval_nat_numeral duplicate_key_example_def step_map construct_yaml_map_def
      map_entry_def scalar_def bindM_def Let_def step_str_disabled step_small_ints[OF assms]
      TAG_STR_def TAG_MERGE_def TAG_VALUE_def TAG_INT_def TAG_MAP_def)

definition duplicate_second_key_example :: node where
  "duplicate_second_key_example =
     MappingNode TAG_MAP
       [(ScalarNode TAG_STR ''a'' (at_line 1), scalar TAG_INT ''1''),
        (ScalarNode TAG_STR ''k'' (at_line 2), scalar TAG_INT ''2''),
        (ScalarNode TAG_STR ''k'' (at_line 3), scalar TAG_INT ''3''),
        (ScalarNode TAG_STR ''b'' (at_line 4), scalar TAG_INT ''4'')] (at_line 1)"

lemma duplicate_second_key_example_result:
  assumes "reads_small_ints L"
  shows "construct_object L 2 duplicate_second_key_example s
           = (Inl (ConstructorError (Some ''Duplicate key \"k\"'') (Some (at_line 3))
                (Some ''NOTE: Previous declaration here:'') (Some (at_line 2))), s)"
  by (simp add: eval_nat_numeral duplicate_second_key_example_def step_map construct_yaml_map_def
      map_entry_def scalar_def bindM_def Let_def step_str_disabled step_small_ints[OF assms]
      TAG_STR_def TAG_MERGE_def TAG_VALUE_def TAG_INT_def TAG_MAP_def)

lemma step_env_var: "tag n = ''!env_var'' \<Longrightarrow> construct_object_step L rec n = construct_env_var L n"
  by (simp add: construct_object_step_def TAG_SEQ_def TAG_STR_def TAG_MAP_def)

definition duplicate_key_late_value :: node where
  "duplicate_key_late_value =
     MappingNode TAG_MAP
       [(ScalarNode TAG_STR ''k'' (at_line 1), scalar TAG_INT ''1''),
        (ScalarNode TAG_STR ''k'' (at_line 2), ScalarNode ''!env_var'' ''UNDEF'' (at_line 2))] (at_line 1)"

lemma demo_environ [simp]: "environ (demo_lib files docs) k = None"
  by (simp add: demo_lib_def)

text \<open>
  C8 (as amended).  Let the entries of a mapping node up to and including the direct entry
  \<open>(kn, vn)\<close> construct without error, let the keys of the direct entries before it be
  pairwise different, and let the key of \<open>(kn, vn)\<close> coerce to the string \<open>k\<close> to which the
  key of the earlier direct entry with key node \<open>kn0\<close> coerces.  Then
  \<^verbatim>\<open>construct_yaml_map\<close> raises \<^verbatim>\<open>ConstructorError\<close> with the context
  \<^verbatim>\<open>Duplicate key "k"\<close> at the start mark of \<open>kn\<close> and the note
  \<^verbatim>\<open>Previous declaration here\<close> at the start mark of \<open>kn0\<close>, whatever follows the entry.
  If all entries of a mapping node construct and two direct keys coerce to the same string,
  the construction raises a duplicate-key error with two marks and returns no mapping; and
  whenever a mapping is returned, all entries have constructed and the direct keys coerce
  to pairwise different strings.  With a library that reads the integers,
  \<^verbatim>\<open>{k: 1, k: 2}\<close> raises the error with the marks of lines 2 and 1, and
  \<^verbatim>\<open>{a: 1, k: 2, k: 3, b: 4}\<close> with those of lines 3 and 2.
\<close>

theorem duplicate_key_is_an_error:
  "(entries L rec (pre @ [(kn, vn)]) s = Some (es @ [Direct kn k v], s3)
      \<and> distinct (map fst (direct_pairs es))
      \<and> Direct kn0 k v0 \<in> set es
    \<longrightarrow> construct_yaml_map L rec (MappingNode t (pre @ (kn, vn) # post) m) s =
           (Inl (ConstructorError (Some (''Duplicate key \"'' @ k @ ''\"''))
              (Some (start_mark kn)) (Some ''NOTE: Previous declaration here:'')
              (Some (start_mark kn0))), s3))
   \<and> (entries L rec kvs s = Some (es, s') \<and> \<not> distinct (map fst (direct_pairs es)) \<longrightarrow>
        (\<exists>k mk mk0 s''. construct_yaml_map L rec (MappingNode t kvs m) s =
           (Inl (ConstructorError (Some (''Duplicate key \"'' @ k @ ''\"'')) (Some mk)
              (Some ''NOTE: Previous declaration here:'') (Some mk0)), s'')))
   \<and> (construct_yaml_map L rec (MappingNode t kvs m) s = (Inr d, s') \<longrightarrow>
        (\<exists>es. entries L rec kvs s = Some (es, s') \<and> distinct (map fst (direct_pairs es))))
   \<and> (reads_small_ints L \<longrightarrow>
        construct_object L 2 duplicate_key_example s
          = (Inl (ConstructorError (Some ''Duplicate key \"k\"'') (Some (at_line 2))
               (Some ''NOTE: Previous declaration here:'') (Some (at_line 1))), s))
   \<and> (reads_small_ints L \<longrightarrow>
        construct_object L 2 duplicate_second_key_example s
          = (Inl (ConstructorError (Some ''Duplicate key \"k\"'') (Some (at_line 3))
               (Some ''NOTE: Previous declaration here:'') (Some (at_line 2))), s))"
  using duplicate_key_error[of L rec pre kn vn s es k v s3 kn0 v0 t post m]
    duplicate_key_never_a_mapping[of L rec kvs s es s' t m]
    mapping_has_distinct_keys[of L rec t kvs m s d s']
    duplicate_key_example_result[of L s] duplicate_second_key_example_result[of L s]
  by blast

theorem duplicate_key_is_an_error_witness:
  "reads_small_ints (demo_lib [] [])
   \<and> construct_object (demo_lib [] []) 2 duplicate_key_example initial_state
        = (Inl (ConstructorError (Some ''Duplicate key \"k\"'') (Some (at_line 2))
             (Some ''NOTE: Previous declaration here:'') (Some (at_line 1))), initial_state)
   \<and> entries (demo_lib [] []) (construct_object (demo_lib [] []) 1)
        ([(ScalarNode TAG_STR ''a'' (at_line 1), scalar TAG_INT ''1''),
          (ScalarNode TAG_STR ''k'' (at_line 2), scalar TAG_INT ''2'')]
         @ [(ScalarNode TAG_STR ''k'' (at_line 3), scalar TAG_INT ''3'')]) initial_state
        = Some ([Direct (ScalarNode TAG_STR ''a'' (at_line 1)) ''a'' (VInt 1),
                 Direct (ScalarNode TAG_STR ''k'' (at_line 2)) ''k'' (VInt 2)]
                @ [Direct (ScalarNode TAG_STR ''k'' (at_line 3)) ''k'' (VInt 3)], initial_state)
   \<and> construct_yaml_map (demo_lib [] []) (construct_object (demo_lib [] []) 1)
        (MappingNode TAG_MAP
          ([(ScalarNode TAG_STR ''a'' (at_line 1), scalar TAG_INT ''1''),
            (ScalarNode TAG_STR ''k'' (at_line 2), scalar TAG_INT ''2'')]
           @ (ScalarNode TAG_STR ''k'' (at_line 3), scalar TAG_INT ''3'')
             # [(ScalarNode TAG_STR ''b'' (at_line 4), scalar TAG_INT ''4'')]) (at_line 1))
        initial_state
        = (Inl (ConstructorError (Some ''Duplicate key \"k\"'') (Some (at_line 3))
             (Some ''NOTE: Previous declaration here:'') (Some (at_line 2))), initial_state)"
proof -
  let ?L = "demo_lib [] []"
  let ?pre = "[(ScalarNode TAG_STR ''a'' (at_line 1), scalar TAG_INT ''1''),
          (ScalarNode TAG_STR ''k'' (at_line 2), scalar TAG_INT ''2'')]"
  let ?kn = "ScalarNode TAG_STR ''k'' (at_line 3)"
  let ?es = "[Direct (ScalarNode TAG_STR ''a'' (at_line 1)) ''a'' (VInt 1),
                 Direct (ScalarNode TAG_STR ''k'' (at_line 2)) ''k'' (VInt 2)]"
  have r: "reads_small_ints ?L"
    by (rule reads_small_ints_demo)
  have e: "entries ?L (construct_object ?L 1) (?pre @ [(?kn, scalar TAG_INT ''3'')]) initial_state
      = Some (?es @ [Direct ?kn ''k'' (VInt 3)], initial_state)"
    by (simp add: eval_nat_numeral construct_entry_def scalar_def step_str_disabled
        step_small_ints[OF r] initial_state_def
        TAG_STR_def TAG_MERGE_def TAG_VALUE_def TAG_INT_def TAG_MAP_def)
  have d: "distinct (map fst (direct_pairs ?es))"
    by simp
  have p: "Direct (ScalarNode TAG_STR ''k'' (at_line 2)) ''k'' (VInt 2) \<in> set ?es"
    by simp
  have m: "construct_yaml_map ?L (construct_object ?L 1)
      (MappingNode TAG_MAP (?pre @ (?kn, scalar TAG_INT ''3'')
         # [(ScalarNode TAG_STR ''b'' (at_line 4), scalar TAG_INT ''4'')]) (at_line 1)) initial_state
      = (Inl (ConstructorError (Some (''Duplicate key \"'' @ ''k'' @ ''\"'')) (Some (start_mark ?kn))
           (Some ''NOTE: Previous declaration here:'')
           (Some (start_mark (ScalarNode TAG_STR ''k'' (at_line 2))))), initial_state)"
    using duplicate_key_is_an_error[where L = ?L and rec = "construct_object ?L 1"
        and pre = ?pre and kn = ?kn and vn = "scalar TAG_INT ''3''" and s = initial_state
        and es = ?es and k = "''k''" and v = "VInt 3" and ?s3.0 = initial_state
        and ?kn0.0 = "ScalarNode TAG_STR ''k'' (at_line 2)" and ?v0.0 = "VInt 2"
        and t = TAG_MAP and m = "at_line 1"
        and post = "[(ScalarNode TAG_STR ''b'' (at_line 4), scalar TAG_INT ''4'')]"] e d p
    by blast
  have x: "construct_object ?L 2 duplicate_key_example initial_state
        = (Inl (ConstructorError (Some ''Duplicate key \"k\"'') (Some (at_line 2))
             (Some ''NOTE: Previous declaration here:'') (Some (at_line 1))), initial_state)"
    using r duplicate_key_is_an_error[where L = ?L and s = initial_state] by blast
  have m': "construct_yaml_map ?L (construct_object ?L 1)
      (MappingNode TAG_MAP (?pre @ (?kn, scalar TAG_INT ''3'')
         # [(ScalarNode TAG_STR ''b'' (at_line 4), scalar TAG_INT ''4'')]) (at_line 1)) initial_state
      = (Inl (ConstructorError (Some ''Duplicate key \"k\"'') (Some (at_line 3))
             (Some ''NOTE: Previous declaration here:'') (Some (at_line 2))), initial_state)"
    using m by simp
  show ?thesis using r x e m' by blast
qed

text \<open>
  Against the claim as stated: in \<^verbatim>\<open>{k: 1, k: !env_var UNDEF}\<close> both keys construct to
  \<^verbatim>\<open>k\<close>, but the value of the second declaration is constructed before its key is looked
  up in \<^verbatim>\<open>seen_keys\<close>, and the construction ends in the error of the undefined environment
  variable, not in the duplicate-key error.
\<close>

theorem duplicate_key_counterexample:
  "construct_object (demo_lib [] []) 1 (ScalarNode TAG_STR ''k'' (at_line 1))
       (initial_state\<lparr>disable_str_expansion := True\<rparr>)
     = (Inr (VStr ''k''), initial_state\<lparr>disable_str_expansion := True\<rparr>)
   \<and> construct_object (demo_lib [] []) 1 (ScalarNode TAG_STR ''k'' (at_line 2))
       (initial_state\<lparr>disable_str_expansion := True\<rparr>)
     = (Inr (VStr ''k''), initial_state\<lparr>disable_str_expansion := True\<rparr>)
   \<and> construct_object (demo_lib [] []) 2 duplicate_key_late_value initial_state
     = (Inl (MarkedYAMLError
               (Some (''Environment variable '' @ [CHR 0x27] @ ''UNDEF'' @ [CHR 0x27] @ '' not defined''))
               (Some (at_line 2)) None None), initial_state)"
  by (simp add: eval_nat_numeral duplicate_key_late_value_def step_map construct_yaml_map_def
      map_entry_def scalar_def bindM_def Let_def step_str_disabled
      step_small_ints[OF reads_small_ints_demo]
      step_env_var construct_env_var_def py_split_def is_space_def
      TAG_STR_def TAG_MERGE_def TAG_VALUE_def TAG_INT_def TAG_MAP_def)

section \<open>Properties of the construction of a sequence\<close>

text \<open>
  What a sequence node says, independently of \<^verbatim>\<open>construct_sequence\<close>: \<open>children_values\<close>
  constructs the children in the order of the document, each in the loader state that the
  one before left, and is \<open>None\<close> when one of them raises.  \<open>for_leaves\<close> is what a
  constructed child contributes to the sequence when the output of \<^verbatim>\<open>!for\<close> is flattened
  through every level, \<open>splice_one_level\<close> is the flattening of exactly one level.
\<close>

fun children_values :: "(node \<Rightarrow> val M) \<Rightarrow> node list \<Rightarrow> state \<Rightarrow> (val list \<times> state) option" where
  "children_values rec [] s = Some ([], s)"
| "children_values rec (n # ns) s =
     (case rec n s of
        (Inl e, s1) \<Rightarrow> None
      | (Inr v, s1) \<Rightarrow>
          (case children_values rec ns s1 of None \<Rightarrow> None | Some (vs, s') \<Rightarrow> Some (v # vs, s')))"

fun for_leaves :: "val \<Rightarrow> val list" where
  "for_leaves (VForList ys) = concat (map for_leaves ys)"
| "for_leaves VNone = []"
| "for_leaves v = [v]"

fun splice_one_level :: "val list \<Rightarrow> val list" where
  "splice_one_level [] = []"
| "splice_one_level (VForList ys # items) = ys @ splice_one_level items"
| "splice_one_level (VNone # items) = splice_one_level items"
| "splice_one_level (item # items) = item # splice_one_level items"

lemma mapM_children_values:
  "mapM rec ns s = (Inr vs, s') \<Longrightarrow> children_values rec ns s = Some (vs, s')"
proof (induction ns arbitrary: s vs)
  case Nil
  then show ?case by (simp add: returnM_def)
next
  case (Cons n ns)
  from Cons.prems obtain v s1 vs' where "rec n s = (Inr v, s1)" "mapM rec ns s1 = (Inr vs', s')"
    "vs = v # vs'"
    by (auto simp: bindM_Inr returnM_def)
  then show ?case using Cons.IH[of s1 vs'] by simp
qed

lemma children_values_mapM:
  "children_values rec ns s = Some (vs, s') \<Longrightarrow> mapM rec ns s = (Inr vs, s')"
proof (induction ns arbitrary: s vs)
  case Nil
  then show ?case by (simp add: returnM_def)
next
  case (Cons n ns)
  from Cons.prems obtain v s1 vs' where "rec n s = (Inr v, s1)"
    "children_values rec ns s1 = Some (vs', s')" "vs = v # vs'"
    by (auto split: prod.splits sum.splits option.splits)
  then show ?case using Cons.IH[of s1 vs'] by (simp add: bindM_def returnM_def)
qed

lemma mapM_children:
  "mapM rec ns s = (Inr vs, s') \<longleftrightarrow> children_values rec ns s = Some (vs, s')"
  using mapM_children_values children_values_mapM by blast

lemma flatten_for_leaves: "flatten_for items = concat (map for_leaves items)"
  by (induction items rule: flatten_for.induct) simp_all

lemma for_leaves_flat: "(\<And>y. y \<in> set ys \<Longrightarrow> for_leaves y = [y]) \<Longrightarrow> concat (map for_leaves ys) = ys"
  by (induction ys) (auto simp del: for_leaves.simps)

lemma one_level_when_flat:
  assumes "\<And>ys y. VForList ys \<in> set items \<Longrightarrow> y \<in> set ys \<Longrightarrow> for_leaves y = [y]"
  shows "concat (map for_leaves items) = splice_one_level items"
  using assms
proof (induction items)
  case Nil
  show ?case by simp
next
  case (Cons item items)
  have ih: "concat (map for_leaves items) = splice_one_level items"
    using Cons.prems by (intro Cons.IH) auto
  show ?case
  proof (cases item)
    case (VForList ys)
    have "concat (map for_leaves ys) = ys"
      using Cons.prems[of ys] VForList by (intro for_leaves_flat) auto
    then show ?thesis using ih VForList by simp
  qed (use ih in simp_all)
qed

lemma construct_yaml_seq_sound:
  assumes "children_values rec children s = Some (items, s')"
  shows "construct_yaml_seq rec (SequenceNode t children m) s
      = (Inr (VList (concat (map for_leaves items))), s')"
  using assms
  by (simp add: construct_yaml_seq_def construct_sequence_def bindM_def returnM_def
      mapM_children[symmetric] flatten_for_leaves)

lemma construct_yaml_seq_complete:
  assumes "construct_yaml_seq rec (SequenceNode t children m) s = (Inr v, s')"
  shows "\<exists>items. children_values rec children s = Some (items, s')
      \<and> v = VList (concat (map for_leaves items))"
proof -
  from assms obtain items where "mapM rec children s = (Inr items, s')" "v = VList (flatten_for items)"
    by (auto simp: construct_yaml_seq_def construct_sequence_def bindM_Inr)
  then show ?thesis by (auto simp: mapM_children flatten_for_leaves)
qed

text \<open>
  A template expander that leaves the field names of the directives as they are and renders
  \<^verbatim>\<open>{{ item }}\<close> as the decimal text of the integer bound to \<^verbatim>\<open>item\<close>.
\<close>

definition renders_item :: "pylib \<Rightarrow> bool" where
  "renders_item L =
     (\<forall>vs. expand_str L ''items'' vs = Inr ''items''
         \<and> expand_str L ''repeat'' vs = Inr ''repeat''
         \<and> expand_str L ''condition'' vs = Inr ''condition''
         \<and> expand_str L ''then'' vs = Inr ''then''
         \<and> (map_of vs ''item'' = Some (VInt 2) \<longrightarrow> expand_str L ''{{ item }}'' vs = Inr ''2'')
         \<and> (map_of vs ''item'' = Some (VInt 3) \<longrightarrow> expand_str L ''{{ item }}'' vs = Inr ''3''))"

lemma digit_values: "digit_char 2 = CHR ''2'' \<and> digit_char 3 = CHR ''3''"
  by code_simp

lemma renders_item_demo: "renders_item (demo_lib files docs)"
  by (simp add: renders_item_def demo_lib_def demo_expand_str_def str_int_def str_nat.simps digit_values)

definition for_example :: node where
  "for_example =
     SequenceNode TAG_SEQ
       [scalar TAG_INT ''1'',
        MappingNode ''!for''
          [(scalar TAG_STR ''items'',
            SequenceNode TAG_SEQ [scalar TAG_INT ''2'', scalar TAG_INT ''3''] (at_line 0)),
           (scalar TAG_STR ''repeat'', scalar TAG_STR ''{{ item }}'')] (at_line 0),
        scalar TAG_INT ''4''] (at_line 0)"

lemma step_str_plain:
  assumes "renders_item L" and "t = TAG_STR" and "\<not> disable_str_expansion s"
  shows "construct_object_step L rec (ScalarNode t ''items'' m) s = (Inr (VStr ''items''), s)"
    and "construct_object_step L rec (ScalarNode t ''repeat'' m) s = (Inr (VStr ''repeat''), s)"
    and "construct_object_step L rec (ScalarNode t ''condition'' m) s = (Inr (VStr ''condition''), s)"
    and "construct_object_step L rec (ScalarNode t ''then'' m) s = (Inr (VStr ''then''), s)"
  using assms by (simp_all add: renders_item_def step_str construct_yaml_str_def bindM_def)

lemma step_str_item:
  assumes "renders_item L" and "t = TAG_STR" and "\<not> disable_str_expansion s"
  shows "map_of (vars s) ''item'' = Some (VInt 2) \<Longrightarrow>
      construct_object_step L rec (ScalarNode t ''{{ item }}'' m) s = (Inr (VStr ''2''), s)"
    and "map_of (vars s) ''item'' = Some (VInt 3) \<Longrightarrow>
      construct_object_step L rec (ScalarNode t ''{{ item }}'' m) s = (Inr (VStr ''3''), s)"
  using assms by (simp_all add: renders_item_def step_str construct_yaml_str_def bindM_def)

lemma for_example_result:
  assumes "reads_small_ints L" and "renders_item L" and "\<not> disable_str_expansion s"
  shows "construct_object L 4 for_example s
           = (Inr (VList [VInt 1, VStr ''2'', VStr ''3'', VInt 4]), s)"
  using assms(3)
  by (simp add: eval_nat_numeral for_example_def step_seq step_for
      construct_yaml_seq_def construct_sequence_def construct_for_def for_field_def
      for_loop_def for_iteration_def str_eq_def
      scalar_def bindM_def Let_def step_str_plain[OF assms(2)] step_str_item[OF assms(2)]
      step_small_ints[OF assms(1)] update_conv'
      TAG_STR_def TAG_INT_def TAG_SEQ_def)

lemma step_if: "tag n = ''!if'' \<Longrightarrow> construct_object_step L rec n = construct_if rec n"
  by (simp add: construct_object_step_def TAG_SEQ_def TAG_STR_def TAG_MAP_def)

definition if_example :: node where
  "if_example =
     SequenceNode TAG_SEQ
       [scalar TAG_INT ''1'',
        MappingNode ''!if''
          [(scalar TAG_STR ''condition'', SequenceNode TAG_SEQ [] (at_line 0)),
           (scalar TAG_STR ''then'', scalar TAG_INT ''2'')] (at_line 0),
        scalar TAG_INT ''4''] (at_line 0)"

lemma if_example_result:
  assumes "reads_small_ints L" and "renders_item L" and "\<not> disable_str_expansion s"
  shows "construct_object L 3 if_example s = (Inr (VList [VInt 1, VInt 4]), s)"
  using assms(3)
  by (simp add: eval_nat_numeral if_example_def step_seq step_if
      construct_yaml_seq_def construct_sequence_def construct_if_def if_field_def str_eq_def
      scalar_def bindM_def Let_def step_str_plain[OF assms(2)]
      step_small_ints[OF assms(1)]
      TAG_STR_def TAG_INT_def TAG_SEQ_def)

definition nested_for :: node where
  "nested_for =
     MappingNode ''!for''
       [(scalar TAG_STR ''items'',
         SequenceNode TAG_SEQ [scalar TAG_INT ''1'', scalar TAG_INT ''2''] (at_line 0)),
        (scalar TAG_STR ''repeat'',
         MappingNode ''!for''
           [(scalar TAG_STR ''items'',
             SequenceNode TAG_SEQ [scalar TAG_INT ''2'', scalar TAG_INT ''3''] (at_line 0)),
            (scalar TAG_STR ''repeat'', scalar TAG_STR ''{{ item }}'')] (at_line 0))] (at_line 0)"

lemma for_leaves_plain: "y \<noteq> VNone \<Longrightarrow> (\<And>zs. y \<noteq> VForList zs) \<Longrightarrow> for_leaves y = [y]"
  by (cases y) auto

lemma one_level_when_no_nesting:
  assumes "\<forall>ys y. VForList ys \<in> set items \<and> y \<in> set ys \<longrightarrow> y \<noteq> VNone \<and> (\<forall>zs. y \<noteq> VForList zs)"
  shows "concat (map for_leaves items) = splice_one_level items"
  using assms by (intro one_level_when_flat for_leaves_plain) blast+

text \<open>
  C2 (as amended).  Let the children of a sequence node construct, in the order of the
  document, to \<open>items\<close>.  Then \<^verbatim>\<open>construct_yaml_seq\<close> returns, in the state the last child
  left, the list in which every child stands for its \<open>for_leaves\<close>: \<^verbatim>\<open>None\<close> for nothing,
  the output of \<^verbatim>\<open>!for\<close> for the leaves of its elements, so that the output of a \<^verbatim>\<open>!for\<close>
  nested in a \<^verbatim>\<open>!for\<close> is flattened as well, and any other value, an ordinary list
  included, for itself; conversely every list that is returned arises so.  When no element
  of an output of \<^verbatim>\<open>!for\<close> among the children is \<^verbatim>\<open>None\<close> or again an output of \<^verbatim>\<open>!for\<close>,
  this is the flattening of exactly one level.  With string expansion enabled, a library
  that reads the integers and an expander that renders \<^verbatim>\<open>{{ item }}\<close>,
  \<^verbatim>\<open>[1, !for {items: [2, 3], repeat: '{{ item }}'}, 4]\<close> constructs to
  \<^verbatim>\<open>[1, '2', '3', 4]\<close> and \<^verbatim>\<open>[1, !if {condition: [], then: 2}, 4]\<close> to \<^verbatim>\<open>[1, 4]\<close>.
\<close>

theorem for_lists_are_flattened:
  "(children_values rec children s = Some (items, s') \<longrightarrow>
      construct_yaml_seq rec (SequenceNode t children m) s
        = (Inr (VList (concat (map for_leaves items))), s'))
   \<and> (construct_yaml_seq rec (SequenceNode t children m) s = (Inr v, s') \<longrightarrow>
        (\<exists>items. children_values rec children s = Some (items, s')
           \<and> v = VList (concat (map for_leaves items))))
   \<and> ((\<forall>ys y. VForList ys \<in> set items \<and> y \<in> set ys \<longrightarrow> y \<noteq> VNone \<and> (\<forall>zs. y \<noteq> VForList zs)) \<longrightarrow>
        concat (map for_leaves items) = splice_one_level items)
   \<and> (reads_small_ints L \<and> renders_item L \<and> \<not> disable_str_expansion s \<longrightarrow>
        construct_object L 4 for_example s
          = (Inr (VList [VInt 1, VStr ''2'', VStr ''3'', VInt 4]), s))
   \<and> (reads_small_ints L \<and> renders_item L \<and> \<not> disable_str_expansion s \<longrightarrow>
        construct_object L 3 if_example s = (Inr (VList [VInt 1, VInt 4]), s))"
  using construct_yaml_seq_sound[of rec children s items s' t m]
    construct_yaml_seq_complete[of rec t children m s v s']
    one_level_when_no_nesting[of items]
    for_example_result[of L s] if_example_result[of L s]
  by blast

theorem for_lists_are_flattened_witness:
  "reads_small_ints (demo_lib [] []) \<and> renders_item (demo_lib [] [])
   \<and> \<not> disable_str_expansion initial_state
   \<and> construct_object (demo_lib [] []) 4 for_example initial_state
        = (Inr (VList [VInt 1, VStr ''2'', VStr ''3'', VInt 4]), initial_state)
   \<and> construct_object (demo_lib [] []) 3 if_example initial_state
        = (Inr (VList [VInt 1, VInt 4]), initial_state)
   \<and> children_values (construct_object (demo_lib [] []) 3)
        [scalar TAG_INT ''1'',
         MappingNode ''!for''
           [(scalar TAG_STR ''items'',
             SequenceNode TAG_SEQ [scalar TAG_INT ''2'', scalar TAG_INT ''3''] (at_line 0)),
            (scalar TAG_STR ''repeat'', scalar TAG_STR ''{{ item }}'')] (at_line 0),
         scalar TAG_INT ''4''] initial_state
        = Some ([VInt 1, VForList [VStr ''2'', VStr ''3''], VInt 4], initial_state)
   \<and> construct_yaml_seq (construct_object (demo_lib [] []) 3)
        (SequenceNode TAG_SEQ
          [scalar TAG_INT ''1'',
           MappingNode ''!for''
             [(scalar TAG_STR ''items'',
               SequenceNode TAG_SEQ [scalar TAG_INT ''2'', scalar TAG_INT ''3''] (at_line 0)),
              (scalar TAG_STR ''repeat'', scalar TAG_STR ''{{ item }}'')] (at_line 0),
           scalar TAG_INT ''4''] (at_line 0)) initial_state
        = (Inr (VList [VInt 1, VStr ''2'', VStr ''3'', VInt 4]), initial_state)
   \<and> splice_one_level [VInt 1, VForList [VStr ''2'', VStr ''3''], VInt 4]
        = [VInt 1, VStr ''2'', VStr ''3'', VInt 4]"
proof -
  let ?L = "demo_lib [] []"
  let ?children = "[scalar TAG_INT ''1'',
         MappingNode ''!for''
           [(scalar TAG_STR ''items'',
             SequenceNode TAG_SEQ [scalar TAG_INT ''2'', scalar TAG_INT ''3''] (at_line 0)),
            (scalar TAG_STR ''repeat'', scalar TAG_STR ''{{ item }}'')] (at_line 0),
         scalar TAG_INT ''4'']"
  let ?items = "[VInt 1, VForList [VStr ''2'', VStr ''3''], VInt 4]"
  have r: "reads_small_ints ?L" by (rule reads_small_ints_demo)
  have e: "renders_item ?L" by (rule renders_item_demo)
  have d: "\<not> disable_str_expansion initial_state" by (simp add: initial_state_def)
  have c: "children_values (construct_object ?L 3) ?children initial_state
      = Some (?items, initial_state)"
    by (simp add: eval_nat_numeral step_seq step_for
        construct_yaml_seq_def construct_sequence_def construct_for_def for_field_def
        for_loop_def for_iteration_def str_eq_def initial_state_def
        scalar_def bindM_def Let_def step_str_plain[OF e] step_str_item[OF e]
        step_small_ints[OF r] update_conv'
        TAG_STR_def TAG_INT_def TAG_SEQ_def)
  have f: "concat (map for_leaves ?items) = [VInt 1, VStr ''2'', VStr ''3'', VInt 4]"
    by simp
  have q: "construct_yaml_seq (construct_object ?L 3) (SequenceNode TAG_SEQ ?children (at_line 0))
      initial_state = (Inr (VList [VInt 1, VStr ''2'', VStr ''3'', VInt 4]), initial_state)"
    using for_lists_are_flattened[where rec = "construct_object ?L 3" and children = ?children
        and s = initial_state and items = ?items and s' = initial_state and t = TAG_SEQ
        and m = "at_line 0"] c
    unfolding f by blast
  have o: "splice_one_level ?items = [VInt 1, VStr ''2'', VStr ''3'', VInt 4]"
    using for_lists_are_flattened[where items = ?items] f by auto
  have x1: "construct_object ?L 4 for_example initial_state
        = (Inr (VList [VInt 1, VStr ''2'', VStr ''3'', VInt 4]), initial_state)"
    using r e d for_lists_are_flattened[where L = ?L and s = initial_state] by blast
  have x2: "construct_object ?L 3 if_example initial_state
        = (Inr (VList [VInt 1, VInt 4]), initial_state)"
    using r e d for_lists_are_flattened[where L = ?L and s = initial_state] by blast
  show ?thesis using r e d c q o x1 x2 by blast
qed

text \<open>
  Against the claim as stated: the output of a \<^verbatim>\<open>!for\<close> whose \<^verbatim>\<open>repeat\<close> is a \<^verbatim>\<open>!for\<close> is a
  list of outputs of \<^verbatim>\<open>!for\<close>.  In
  \<^verbatim>\<open>[!for {items: [1, 2], repeat: !for {items: [2, 3], repeat: '{{ item }}'}}]\<close> the
  flattening of exactly one level would leave two lists in the sequence;
  \<^verbatim>\<open>construct_sequence\<close> returns the four strings.
\<close>

theorem for_lists_counterexample:
  "children_values (construct_object (demo_lib [] []) 5) [nested_for] initial_state
     = Some ([VForList [VForList [VStr ''2'', VStr ''3''], VForList [VStr ''2'', VStr ''3'']]],
             initial_state)
   \<and> construct_object (demo_lib [] []) 6 (SequenceNode TAG_SEQ [nested_for] (at_line 0)) initial_state
     = (Inr (VList [VStr ''2'', VStr ''3'', VStr ''2'', VStr ''3'']), initial_state)
   \<and> splice_one_level [VForList [VForList [VStr ''2'', VStr ''3''], VForList [VStr ''2'', VStr ''3'']]]
     = [VForList [VStr ''2'', VStr ''3''], VForList [VStr ''2'', VStr ''3'']]
   \<and> VList [VStr ''2'', VStr ''3'', VStr ''2'', VStr ''3'']
     \<noteq> VList (splice_one_level
          [VForList [VForList [VStr ''2'', VStr ''3''], VForList [VStr ''2'', VStr ''3'']]])"
  by (simp add: eval_nat_numeral nested_for_def step_seq step_for
      construct_yaml_seq_def construct_sequence_def construct_for_def for_field_def
      for_loop_def for_iteration_def str_eq_def initial_state_def
      scalar_def bindM_def Let_def step_str_plain[OF renders_item_demo]
      step_str_item[OF renders_item_demo]
      step_small_ints[OF reads_small_ints_demo] update_conv'
      TAG_STR_def TAG_INT_def TAG_SEQ_def)

section \<open>The variable environment of \<^verbatim>\<open>!for\<close>\<close>

text \<open>
  The loop of \<^verbatim>\<open>construct_for\<close> as the specification reads it: every iteration constructs
  \<^verbatim>\<open>repeat\<close> with the variables set to the environment \<open>env\<close> of the loop's entry, extended
  by the loop variable bound to the item, in the state that the iteration before left; the
  first error ends the loop in the state in which it was raised.
\<close>

fun iterations :: "(node \<Rightarrow> val M) \<Rightarrow> (string \<times> val) list \<Rightarrow> string \<Rightarrow> node \<Rightarrow> val list
    \<Rightarrow> state \<Rightarrow> (exn + val list) \<times> state" where
  "iterations rec env varname repeat [] s = (Inr [], s)"
| "iterations rec env varname repeat (i # items) s =
     (case rec repeat (s\<lparr>vars := AList.update varname i env\<rparr>) of
        (Inl e, s1) \<Rightarrow> (Inl e, s1)
      | (Inr v, s1) \<Rightarrow>
          (case iterations rec env varname repeat items s1 of
             (Inl e, s2) \<Rightarrow> (Inl e, s2)
           | (Inr vs, s2) \<Rightarrow> (Inr (v # vs), s2)))"

lemma mapM_iterations:
  "mapM (for_iteration rec env varname repeat) items s = iterations rec env varname repeat items s"
  by (induction items arbitrary: s)
     (auto simp: for_iteration_def bindM_def returnM_def set_vars_def split: prod.splits sum.splits)

lemma for_loop_iterations:
  "for_loop rec varname repeat items s =
     (case iterations rec (vars s) varname repeat items s of
        (Inl e, s') \<Rightarrow> (Inl e, s')
      | (Inr vs, s') \<Rightarrow> (Inr (VForList vs), s'\<lparr>vars := vars s\<rparr>))"
  by (simp add: for_loop_def bindM_def mapM_iterations returnM_def set_vars_def getM_def
      split: prod.splits sum.splits)

lemma for_loop_restores:
  assumes "for_loop rec varname repeat items s = (Inr v, s')"
  shows "vars s' = vars s"
  using assms by (auto simp: for_loop_iterations split: prod.splits sum.splits)

lemma for_loop_error:
  assumes "iterations rec (vars s) varname repeat items s = (Inl e, s')"
  shows "for_loop rec varname repeat items s = (Inl e, s')"
  using assms by (simp add: for_loop_iterations)

lemma for_field_keeps_vars:
  assumes "\<And>n s v s'. rec n s = (Inr v, s') \<Longrightarrow> vars s' = vars s"
    and "for_field rec acc kv s = (Inr acc', s')"
  shows "vars s' = vars s"
proof -
  obtain a b c where acc: "acc = (a, b, c)" by (cases acc) auto
  from assms(2) obtain key s1 where k: "rec (fst kv) s = (Inr key, s1)"
    and r1: "bindM (if str_eq key ''items'' then rec (snd kv) else returnM a) (\<lambda>items'.
        bindM (if str_eq key ''var'' then rec (snd kv) else returnM b) (\<lambda>varname'.
        returnM (items', varname', if str_eq key ''repeat'' then Some (snd kv) else c))) s1 = (Inr acc', s')"
    unfolding acc for_field_def by (auto simp: bindM_Inr)
  from r1 obtain x s2 where i: "(if str_eq key ''items'' then rec (snd kv) else returnM a) s1 = (Inr x, s2)"
    and r2: "bindM (if str_eq key ''var'' then rec (snd kv) else returnM b) (\<lambda>varname'.
        returnM (x, varname', if str_eq key ''repeat'' then Some (snd kv) else c)) s2 = (Inr acc', s')"
    by (auto simp: bindM_Inr)
  from r2 obtain y where v: "(if str_eq key ''var'' then rec (snd kv) else returnM b) s2 = (Inr y, s')"
    by (auto simp: bindM_Inr returnM_def)
  have "vars s1 = vars s" using assms(1)[OF k] .
  moreover have "vars s2 = vars s1" using i assms(1)[of "snd kv" s1 x s2]
    by (auto simp: returnM_def split: if_splits)
  moreover have "vars s' = vars s2" using v assms(1)[of "snd kv" s2 y s']
    by (auto simp: returnM_def split: if_splits)
  ultimately show ?thesis by simp
qed

lemma for_fields_keep_vars:
  assumes "\<And>n s v s'. rec n s = (Inr v, s') \<Longrightarrow> vars s' = vars s"
    and "foldM (for_field rec) acc kvs s = (Inr acc', s')"
  shows "vars s' = vars s"
  using assms(2)
proof (induction kvs arbitrary: acc s)
  case Nil
  then show ?case by (simp add: returnM_def)
next
  case (Cons kv kvs)
  from Cons.prems obtain a1 s1 where 1: "for_field rec acc kv s = (Inr a1, s1)"
    and 2: "foldM (for_field rec) a1 kvs s1 = (Inr acc', s')"
    by (auto simp: bindM_Inr)
  show ?case using Cons.IH[OF 2] for_field_keeps_vars[OF assms(1) 1] by simp
qed

lemma construct_for_restores:
  assumes rec: "\<And>n s v s'. rec n s = (Inr v, s') \<Longrightarrow> vars s' = vars s"
    and run: "construct_for rec node s = (Inr v, s')"
  shows "vars s' = vars s"
proof (cases "disable_str_expansion s")
  case True
  then show ?thesis using run by (simp add: construct_for_def bindM_def returnM_def getM_def)
next
  case False
  from run False obtain kvs where kvs: "node_pairs node = Inr kvs"
    and r1: "bindM (foldM (for_field rec) (VNone, VStr ''item'', None) kvs) (\<lambda>acc.
         case acc of (items0, varname, repeat) \<Rightarrow>
           bindM (case as_str items0 of
                    None \<Rightarrow> returnM items0
                  | Some nm \<Rightarrow>
                      bindM (getM vars) (\<lambda>vs.
                        case map_of vs nm of
                          Some v \<Rightarrow> returnM v
                        | None \<Rightarrow> raiseM (KeyError nm))) (\<lambda>items.
           case as_list items of
             None \<Rightarrow>
               raiseM (MarkedYAMLError (Some ''items must be a list'') (Some (start_mark node)) None None)
           | Some its \<Rightarrow>
               (case as_str varname of
                  None \<Rightarrow>
                    raiseM (MarkedYAMLError (Some ''var must be a string'') (Some (start_mark node)) None None)
                | Some vn \<Rightarrow>
                    (case repeat of
                       None \<Rightarrow>
                         raiseM (MarkedYAMLError (Some ''missing repeat value'') (Some (start_mark node))
                           None None)
                     | Some rp \<Rightarrow> for_loop rec vn rp its)))) s = (Inr v, s')"
    by (cases "node_pairs node") (auto simp: construct_for_def bindM_def getM_def liftM_def)
  from r1 obtain items0 varname repeat s1
    where f: "foldM (for_field rec) (VNone, VStr ''item'', None) kvs s = (Inr (items0, varname, repeat), s1)"
      and r2: "bindM (case as_str items0 of
                    None \<Rightarrow> returnM items0
                  | Some nm \<Rightarrow>
                      bindM (getM vars) (\<lambda>vs.
                        case map_of vs nm of
                          Some v \<Rightarrow> returnM v
                        | None \<Rightarrow> raiseM (KeyError nm))) (\<lambda>items.
           case as_list items of
             None \<Rightarrow>
               raiseM (MarkedYAMLError (Some ''items must be a list'') (Some (start_mark node)) None None)
           | Some its \<Rightarrow>
               (case as_str varname of
                  None \<Rightarrow>
                    raiseM (MarkedYAMLError (Some ''var must be a string'') (Some (start_mark node)) None None)
                | Some vn \<Rightarrow>
                    (case repeat of
                       None \<Rightarrow>
                         raiseM (MarkedYAMLError (Some ''missing repeat value'') (Some (start_mark node))
                           None None)
                     | Some rp \<Rightarrow> for_loop rec vn rp its))) s1 = (Inr v, s')"
    by (auto simp: bindM_Inr)
  have v1: "vars s1 = vars s" using for_fields_keep_vars[OF rec f] .
  from r2 obtain items its vn rp where "for_loop rec vn rp its s1 = (Inr v, s')"
    by (auto simp: bindM_Inr returnM_def getM_def raiseM_def
        split: option.splits)
  then show ?thesis using for_loop_restores v1 by metis
qed

text \<open>A computation that, when it returns, leaves the variables as it found them.\<close>

definition keeps_vars :: "'a M \<Rightarrow> bool" where
  "keeps_vars m = (\<forall>s r s'. m s = (Inr r, s') \<longrightarrow> vars s' = vars s)"

lemma keeps_vars_return: "keeps_vars (returnM x)"
  by (simp add: keeps_vars_def returnM_def)

lemma keeps_vars_raise: "keeps_vars (raiseM e)"
  by (simp add: keeps_vars_def raiseM_def)

lemma keeps_vars_lift: "keeps_vars (liftM r)"
  by (auto simp: keeps_vars_def liftM_def)

lemma keeps_vars_get: "keeps_vars (getM f)"
  by (simp add: keeps_vars_def getM_def)

lemma keeps_vars_set_disable: "keeps_vars (set_disable_str_expansion b)"
  by (simp add: keeps_vars_def set_disable_str_expansion_def)

lemma keeps_vars_set_secrets: "keeps_vars (set_SECRET_VALUES sv)"
  by (simp add: keeps_vars_def set_SECRET_VALUES_def)

lemma keeps_vars_bind:
  assumes "keeps_vars m" and "\<And>x. keeps_vars (f x)"
  shows "keeps_vars (bindM m f)"
  unfolding keeps_vars_def
proof (intro allI impI)
  fix s r s'
  assume "bindM m f s = (Inr r, s')"
  then obtain x s1 where "m s = (Inr x, s1)" "f x s1 = (Inr r, s')"
    by (auto simp: bindM_Inr)
  then show "vars s' = vars s" using assms unfolding keeps_vars_def by metis
qed

lemma keeps_vars_Pair: "keeps_vars (Pair r)"
  by (auto simp: keeps_vars_def)

lemma keeps_vars_if_then_else: "keeps_vars a \<Longrightarrow> keeps_vars b \<Longrightarrow> keeps_vars (if c then a else b)"
  by simp

lemma keeps_vars_case_option:
  "keeps_vars a \<Longrightarrow> (\<And>x. keeps_vars (f x)) \<Longrightarrow> keeps_vars (case_option a f x)"
  by (cases x) auto

lemma keeps_vars_case_prod: "(\<And>a b. keeps_vars (f a b)) \<Longrightarrow> keeps_vars (case_prod f p)"
  by (cases p) auto

lemma keeps_vars_case_sum:
  "(\<And>a. keeps_vars (f a)) \<Longrightarrow> (\<And>b. keeps_vars (g b)) \<Longrightarrow> keeps_vars (case_sum f g x)"
  by (cases x) auto

lemma keeps_vars_case_list:
  "keeps_vars a \<Longrightarrow> (\<And>x xs. keeps_vars (f x xs)) \<Longrightarrow> keeps_vars (case_list a f l)"
  by (cases l) auto

lemma keeps_vars_case_node:
  "(\<And>t v m. keeps_vars (f t v m)) \<Longrightarrow> (\<And>t v m. keeps_vars (g t v m))
     \<Longrightarrow> (\<And>t v m. keeps_vars (h t v m)) \<Longrightarrow> keeps_vars (case_node f g h n)"
  by (cases n) auto

lemma keeps_vars_mapM:
  assumes "\<And>x. keeps_vars (f x)"
  shows "keeps_vars (mapM f xs)"
proof (induction xs)
  case Nil
  show ?case unfolding mapM.simps by (rule keeps_vars_return)
next
  case (Cons x xs)
  show ?case unfolding mapM.simps by (intro keeps_vars_bind assms Cons.IH keeps_vars_return)
qed

lemma keeps_vars_foldM:
  assumes "\<And>acc x. keeps_vars (f acc x)"
  shows "keeps_vars (foldM f acc xs)"
proof (induction xs arbitrary: acc)
  case Nil
  show ?case unfolding foldM.simps by (rule keeps_vars_return)
next
  case (Cons x xs)
  show ?case unfolding foldM.simps by (intro keeps_vars_bind assms Cons.IH)
qed

lemma keeps_vars_for_loop: "keeps_vars (for_loop rec varname repeat items)"
  using for_loop_restores by (auto simp: keeps_vars_def)

lemma keeps_vars_new_loader: "keeps_vars (new_loader nm vs disable m)"
  by (auto simp: keeps_vars_def new_loader_def split: prod.splits)

lemmas keeps_vars_intros =
  keeps_vars_bind keeps_vars_return keeps_vars_raise keeps_vars_lift keeps_vars_get
  keeps_vars_set_disable keeps_vars_set_secrets keeps_vars_mapM keeps_vars_foldM
  keeps_vars_for_loop keeps_vars_new_loader keeps_vars_Pair keeps_vars_if_then_else
  keeps_vars_case_option keeps_vars_case_prod keeps_vars_case_sum keeps_vars_case_list
  keeps_vars_case_node

lemma keeps_vars_load:
  "keeps_vars (load_yaml_internal L rec fname vs disable)"
  unfolding keeps_vars_def
proof (intro allI impI)
  fix s r s'
  assume a: "load_yaml_internal L rec fname vs disable s = (Inr r, s')"
  then obtain content where "read_config_file L fname = Inr content"
    and l: "load_yaml_string L rec content fname vs disable (s\<lparr>reads := reads s @ [fname]\<rparr>) = (Inr r, s')"
    by (cases "read_config_file L fname") (auto simp: load_yaml_internal_def)
  from l have "vars s' = vars (s\<lparr>reads := reads s @ [fname]\<rparr>)"
    unfolding load_yaml_string_def
    by (rule keeps_vars_new_loader[unfolded keeps_vars_def, rule_format])
  then show "vars s' = vars s" by simp
qed

lemma keeps_vars_str: "keeps_vars (construct_yaml_str L node)"
  unfolding construct_yaml_str_def
  by (intro keeps_vars_intros)

lemma keeps_vars_seq:
  assumes "\<And>n. keeps_vars (rec n)"
  shows "keeps_vars (construct_yaml_seq rec node)"
  unfolding construct_yaml_seq_def construct_sequence_def
  by (intro keeps_vars_intros assms)

lemma keeps_vars_extend: "keeps_vars (extend_merge_pairs L node vn mps item)"
  unfolding extend_merge_pairs_def
  by (intro keeps_vars_intros)

lemma keeps_vars_map_entry:
  assumes "\<And>n. keeps_vars (rec n)"
  shows "keeps_vars (map_entry L rec node acc kv)"
  unfolding map_entry_def Let_def
  by (intro keeps_vars_intros keeps_vars_extend assms)

lemma keeps_vars_map:
  assumes "\<And>n. keeps_vars (rec n)"
  shows "keeps_vars (construct_yaml_map L rec node)"
  unfolding construct_yaml_map_def
  by (intro keeps_vars_intros keeps_vars_map_entry assms)

lemma keeps_vars_env_var: "keeps_vars (construct_env_var L node)"
  unfolding construct_env_var_def
  by (intro keeps_vars_intros)

lemma keeps_vars_secret:
  assumes "\<And>fname vs. keeps_vars (load fname vs)"
  shows "keeps_vars (construct_secret L load node)"
  unfolding construct_secret_def
  by (intro keeps_vars_intros assms)

lemma keeps_vars_join_file: "keeps_vars (join_file dir file)"
  unfolding join_file_def by (intro keeps_vars_intros)

lemma keeps_vars_extract:
  assumes "\<And>n. keeps_vars (rec n)"
  shows "keeps_vars (extract_file_vars L rec node)"
  unfolding extract_file_vars_def
  by (intro keeps_vars_intros keeps_vars_map keeps_vars_join_file assms)

lemma keeps_vars_include:
  assumes "\<And>n. keeps_vars (rec n)" and "\<And>fname vs. keeps_vars (load fname vs)"
  shows "keeps_vars (construct_include L rec load node)"
  unfolding construct_include_def
  by (intro keeps_vars_intros keeps_vars_extract assms)

lemma keeps_vars_literal:
  assumes "\<And>n. keeps_vars (rec n)"
  shows "keeps_vars (construct_literal rec node)"
  unfolding construct_literal_def
  by (intro keeps_vars_intros assms)

lemma keeps_vars_for:
  assumes "\<And>n. keeps_vars (rec n)"
  shows "keeps_vars (construct_for rec node)"
  using construct_for_restores[of rec node] assms unfolding keeps_vars_def by blast

lemma keeps_vars_if_field:
  assumes "\<And>n. keeps_vars (rec n)"
  shows "keeps_vars (if_field rec acc kv)"
  unfolding if_field_def
  by (intro keeps_vars_intros assms)

lemma keeps_vars_if:
  assumes "\<And>n. keeps_vars (rec n)"
  shows "keeps_vars (construct_if rec node)"
  unfolding construct_if_def
  by (intro keeps_vars_intros keeps_vars_if_field assms)

lemma keeps_vars_merge:
  assumes "\<And>n. keeps_vars (rec n)"
  shows "keeps_vars (construct_merge L rec node)"
  unfolding construct_merge_def
  by (intro keeps_vars_intros assms)

lemma keeps_vars_dir_files: "keeps_vars (dir_files L node)"
  unfolding dir_files_def by (intro keeps_vars_intros)

lemma keeps_vars_load_copy:
  assumes "\<And>fname vs. keeps_vars (load fname vs)"
  shows "keeps_vars (load_copy load fname)"
  unfolding load_copy_def by (intro keeps_vars_intros assms)

lemma keeps_vars_include_dirs:
  assumes "\<And>fname vs. keeps_vars (load fname vs)"
  shows "keeps_vars (construct_include_dir_list L load node)"
    and "keeps_vars (construct_include_dir_merge_list L load node)"
    and "keeps_vars (construct_include_dir_named L load node)"
    and "keeps_vars (construct_include_dir_merge_named L load node)"
  unfolding construct_include_dir_list_def construct_include_dir_merge_list_def
    construct_include_dir_named_def construct_include_dir_merge_named_def
  by (intro keeps_vars_intros keeps_vars_dir_files keeps_vars_load_copy assms)+

lemma keeps_vars_lambda:
  assumes "\<And>n. keeps_vars (rec n)"
  shows "keeps_vars (construct_lambda L rec node)"
  unfolding construct_lambda_def
  by (intro keeps_vars_intros assms)

lemma keeps_vars_force: "keeps_vars (construct_force node)"
  unfolding construct_force_def by (intro keeps_vars_intros)

lemma keeps_vars_step:
  assumes "\<And>n. keeps_vars (rec n)"
  shows "keeps_vars (construct_object_step L rec node)"
  unfolding construct_object_step_def Let_def
  by (intro keeps_vars_if_then_else keeps_vars_str keeps_vars_seq keeps_vars_map keeps_vars_env_var keeps_vars_secret keeps_vars_include keeps_vars_literal keeps_vars_for keeps_vars_if keeps_vars_merge keeps_vars_include_dirs keeps_vars_lambda keeps_vars_force keeps_vars_lift keeps_vars_load assms)

lemma keeps_vars_construct_object: "keeps_vars (construct_object L k node)"
  by (induction k arbitrary: node) (auto intro!: keeps_vars_raise keeps_vars_step)

lemma construct_object_restores:
  "construct_object L k node s = (Inr v, s') \<Longrightarrow> vars s' = vars s"
  using keeps_vars_construct_object unfolding keeps_vars_def by blast

definition for_directive_example :: node where
  "for_directive_example =
     MappingNode ''!for''
       [(scalar TAG_STR ''items'',
         SequenceNode TAG_SEQ [scalar TAG_INT ''2'', scalar TAG_INT ''3''] (at_line 0)),
        (scalar TAG_STR ''repeat'', scalar TAG_STR ''{{ item }}'')] (at_line 0)"

lemma for_directive_example_result:
  assumes "reads_small_ints L" and "renders_item L" and "\<not> disable_str_expansion s"
  shows "construct_object L 3 for_directive_example s = (Inr (VForList [VStr ''2'', VStr ''3'']), s)"
  using assms(3)
  by (simp add: eval_nat_numeral for_directive_example_def step_seq step_for
      construct_yaml_seq_def construct_sequence_def construct_for_def for_field_def
      for_loop_def for_iteration_def str_eq_def
      scalar_def bindM_def Let_def step_str_plain[OF assms(2)] step_str_item[OF assms(2)]
      step_small_ints[OF assms(1)] update_conv'
      TAG_STR_def TAG_INT_def TAG_SEQ_def)

definition for_undefined_example :: node where
  "for_undefined_example =
     MappingNode ''!for''
       [(scalar TAG_STR ''items'',
         SequenceNode TAG_SEQ [scalar TAG_INT ''2'', scalar TAG_INT ''3''] (at_line 0)),
        (scalar TAG_STR ''repeat'', scalar TAG_STR ''{{ missing }}'')] (at_line 0)"

lemma demo_expand_missing:
  "expand_str (demo_lib files docs) ''{{ missing }}'' [(''item'', v)] = Inl (UndefinedError ''missing'')"
  by (simp add: demo_lib_def demo_expand_str_def)

lemma step_str_missing_demo:
  assumes "t = TAG_STR" and "\<not> disable_str_expansion s" and "vars s = [(''item'', v)]"
  shows "construct_object_step (demo_lib files docs) rec (ScalarNode t ''{{ missing }}'' m) s
     = (Inl (MarkedYAMLError (Some ''Variable is undefined: missing'') (Some m) None None), s)"
  using assms by (simp add: step_str construct_yaml_str_def bindM_def demo_expand_missing)

text \<open>
  C5 (as amended).  The loop of \<^verbatim>\<open>construct_for\<close> runs its iterations as \<open>iterations\<close>
  says, each in a copy of the environment of the loop's entry with the loop variable bound,
  so that what one iteration binds reaches neither the parent nor the next iteration.  When
  they all return, the result is the list of their values and the environment of the loop's
  entry is the loader's environment again; when one raises, the loop ends with that error in
  the state that the iteration left, and nothing is restored.  Every construction of the
  pass that returns, whatever the node, leaves the loader's environment as it found it.
  With string expansion enabled, \<^verbatim>\<open>!for {items: [2, 3], repeat: '{{ item }}'}\<close> returns
  the list of \<^verbatim>\<open>'2'\<close> and \<^verbatim>\<open>'3'\<close> in the state it started from.
\<close>

theorem for_restores_environment:
  "for_loop rec varname repeat items s =
     (case iterations rec (vars s) varname repeat items s of
        (Inl e, s') \<Rightarrow> (Inl e, s')
      | (Inr vs, s') \<Rightarrow> (Inr (VForList vs), s'\<lparr>vars := vars s\<rparr>))
   \<and> (construct_object L k node s = (Inr v, s') \<longrightarrow> vars s' = vars s)
   \<and> (reads_small_ints L \<and> renders_item L \<and> \<not> disable_str_expansion s \<longrightarrow>
        construct_object L 3 for_directive_example s
          = (Inr (VForList [VStr ''2'', VStr ''3'']), s))"
  using for_loop_iterations[of rec varname repeat items s]
    construct_object_restores[of L k node s v s']
    for_directive_example_result[of L s]
  by blast

theorem for_restores_environment_witness:
  "reads_small_ints (demo_lib [] []) \<and> renders_item (demo_lib [] [])
   \<and> \<not> disable_str_expansion initial_state
   \<and> construct_object (demo_lib [] []) 3 for_directive_example initial_state
        = (Inr (VForList [VStr ''2'', VStr ''3'']), initial_state)
   \<and> iterations (construct_object (demo_lib [] []) 1) (vars initial_state) ''item''
        (scalar TAG_STR ''{{ item }}'') [VInt 2, VInt 3] initial_state
        = (Inr [VStr ''2'', VStr ''3''], initial_state\<lparr>vars := [(''item'', VInt 3)]\<rparr>)
   \<and> for_loop (construct_object (demo_lib [] []) 1) ''item''
        (scalar TAG_STR ''{{ item }}'') [VInt 2, VInt 3] initial_state
        = (Inr (VForList [VStr ''2'', VStr ''3'']), initial_state)
   \<and> vars initial_state = []"
proof -
  let ?L = "demo_lib [] []"
  have r: "reads_small_ints ?L" by (rule reads_small_ints_demo)
  have e: "renders_item ?L" by (rule renders_item_demo)
  have d: "\<not> disable_str_expansion initial_state" by (simp add: initial_state_def)
  have i: "iterations (construct_object ?L 1) (vars initial_state) ''item''
        (scalar TAG_STR ''{{ item }}'') [VInt 2, VInt 3] initial_state
        = (Inr [VStr ''2'', VStr ''3''], initial_state\<lparr>vars := [(''item'', VInt 3)]\<rparr>)"
    by (simp add: eval_nat_numeral initial_state_def scalar_def step_str_item[OF e] TAG_STR_def)
  have x: "construct_object ?L 3 for_directive_example initial_state
        = (Inr (VForList [VStr ''2'', VStr ''3'']), initial_state)"
    using r e d for_restores_environment[where L = ?L and s = initial_state] by blast
  have "vars initial_state = vars initial_state"
    using x for_restores_environment[where L = ?L and k = 3 and node = for_directive_example
        and s = initial_state and s' = initial_state] by blast
  have f: "for_loop (construct_object ?L 1) ''item''
        (scalar TAG_STR ''{{ item }}'') [VInt 2, VInt 3] initial_state
        = (Inr (VForList [VStr ''2'', VStr ''3'']), initial_state)"
    using for_restores_environment[where rec = "construct_object ?L 1" and varname = "''item''"
        and repeat = "scalar TAG_STR ''{{ item }}''" and items = "[VInt 2, VInt 3]"
        and s = initial_state] i
    by (simp add: initial_state_def)
  show ?thesis using r e d i x f by (simp add: initial_state_def)
qed

text \<open>
  Against the claim as stated: in \<^verbatim>\<open>!for {items: [2, 3], repeat: '{{ missing }}'}\<close> the
  first iteration raises, and the error leaves the loader with the environment of that
  iteration, in which \<^verbatim>\<open>item\<close> is bound, not with the empty environment it had before.
\<close>

theorem for_error_counterexample:
  "construct_object (demo_lib [] []) 3 for_undefined_example initial_state
     = (Inl (MarkedYAMLError (Some ''Variable is undefined: missing'') (Some (at_line 0)) None None),
        initial_state\<lparr>vars := [(''item'', VInt 2)]\<rparr>)
   \<and> vars (initial_state\<lparr>vars := [(''item'', VInt 2)]\<rparr>) \<noteq> vars initial_state"
  by (simp add: eval_nat_numeral for_undefined_example_def step_seq step_for
      step_str_missing_demo
      construct_yaml_seq_def construct_sequence_def construct_for_def for_field_def
      for_loop_def for_iteration_def str_eq_def initial_state_def
      scalar_def bindM_def Let_def step_str_plain[OF renders_item_demo]
      step_small_ints[OF reads_small_ints_demo]
      TAG_STR_def TAG_INT_def TAG_SEQ_def)

section \<open>Secrets: the registry and the dumper\<close>











text \<open>
  A configuration directory: \<^verbatim>\<open>secrets.yaml\<close> beside the main document holds
  \<^verbatim>\<open>wifi: hunter2\<close>, and the main document is \<^verbatim>\<open>{password: !secret wifi}\<close>.
\<close>

lemma demo_fields [simp]:
  "read_config_file (demo_lib files docs) p
     = (case map_of files p of Some c \<Rightarrow> Inr c | None \<Rightarrow> Inl (OSError p))"
  "compose (demo_lib files docs) c
     = (case map_of docs c of
          Some d \<Rightarrow> Inr d
        | None \<Rightarrow> Inl (MarkedYAMLError None None (Some ''could not parse'') None))"
  "expand_str (demo_lib files docs) = demo_expand_str"
  by (simp_all add: demo_lib_def)














end
